theory Spec2Isabelle
  imports Complex_Main "HOL-Library.Sublist"
begin

section \<open>Python values shared by the three modules\<close>

text \<open>
  The repository (BilayAna) is Python.  Every \<^verbatim>\<open>raise\<close> of the source and every
  exception of a Python builtin the modelled code can run into is a value of
  \<open>error\<close>; a function that can raise returns \<open>error + 'a\<close> with \<open>Inl\<close> the
  exception.  A \<open>ValueError\<close> carries its message, because the source tells its
  failures apart by the message only.
\<close>

datatype error =
    ValueError string
  | KeyError
  | IndexError
  | NameError
  | TypeError
  | ZeroDivisionError
  | FileNotFoundError

subsection \<open>\<^verbatim>\<open>str(int)\<close> and \<^verbatim>\<open>int(str)\<close>\<close>

definition digit_char :: "nat \<Rightarrow> char" where
  "digit_char d = ''0123456789'' ! d"

fun str_nat :: "nat \<Rightarrow> string" where
  "str_nat n = (if n < 10 then [digit_char n] else str_nat (n div 10) @ [digit_char (n mod 10)])"

declare str_nat.simps [simp del]

definition str_int :: "int \<Rightarrow> string" where
  "str_int i = (if i < 0 then CHR ''-'' # str_nat (nat (- i)) else str_nat (nat i))"

definition digit_val :: "char \<Rightarrow> nat option" where
  "digit_val c = map_of (zip ''0123456789'' [0, 1, 2, 3, 4, 5, 6, 7, 8, 9]) c"

fun parse_acc :: "nat \<Rightarrow> string \<Rightarrow> nat option" where
  "parse_acc a [] = Some a"
| "parse_acc a (c # cs) = (case digit_val c of None \<Rightarrow> None | Some d \<Rightarrow> parse_acc (10 * a + d) cs)"

definition parse_nat :: "string \<Rightarrow> nat option" where
  "parse_nat s = (if s = [] then None else parse_acc 0 s)"

text \<open>
  \<^verbatim>\<open>int(s)\<close> on a token that \<^verbatim>\<open>str.split()\<close> produced: an optional sign and
  decimal digits.  (Python also accepts \<^verbatim>\<open>_\<close> between digits; the files this code
  reads are written by \<^verbatim>\<open>str(int)\<close> or by the engine and hold none.)
\<close>

definition py_int :: "string \<Rightarrow> error + int" where
  "py_int s =
     (case s of
        [] \<Rightarrow> Inl (ValueError ''invalid literal for int()'')
      | c # r \<Rightarrow>
          (if c = CHR ''-'' then
             (case parse_nat r of None \<Rightarrow> Inl (ValueError ''invalid literal for int()'')
              | Some n \<Rightarrow> Inr (- int n))
           else if c = CHR ''+'' then
             (case parse_nat r of None \<Rightarrow> Inl (ValueError ''invalid literal for int()'')
              | Some n \<Rightarrow> Inr (int n))
           else
             (case parse_nat s of None \<Rightarrow> Inl (ValueError ''invalid literal for int()'')
              | Some n \<Rightarrow> Inr (int n))))"

subsection \<open>\<^verbatim>\<open>sep.join(xs)\<close> and \<^verbatim>\<open>s.split(sep)\<close>\<close>

fun py_join :: "string \<Rightarrow> string list \<Rightarrow> string" where
  "py_join sep [] = []"
| "py_join sep [x] = x"
| "py_join sep (x # y # ys) = x @ sep @ py_join sep (y # ys)"

text \<open>
  \<^verbatim>\<open>s.split(sep)\<close> for a non-empty separator: the pieces between the leftmost
  non-overlapping occurrences of \<open>sep\<close>; \<open>acc\<close> holds the current piece reversed.
\<close>

fun split_acc :: "string \<Rightarrow> string \<Rightarrow> string \<Rightarrow> string list" where
  "split_acc sep acc [] = [rev acc]"
| "split_acc sep acc (c # cs) =
     (if sep \<noteq> [] \<and> prefix sep (c # cs)
      then rev acc # split_acc sep [] (drop (length sep - 1) cs)
      else split_acc sep (c # acc) cs)"

definition py_split :: "string \<Rightarrow> string \<Rightarrow> string list" where
  "py_split sep s = split_acc sep [] s"

text \<open>
  \<^verbatim>\<open>xs[i]\<close>: a negative index counts from the end, out of range raises
  \<^verbatim>\<open>IndexError\<close>.  \<^verbatim>\<open>xs[i:j]\<close> never raises: both bounds are clipped.
\<close>

definition py_get :: "'a list \<Rightarrow> int \<Rightarrow> error + 'a" where
  "py_get xs i =
     (if 0 \<le> i \<and> i < int (length xs) then Inr (xs ! nat i)
      else if i < 0 \<and> - i \<le> int (length xs) then Inr (xs ! nat (int (length xs) + i))
      else Inl IndexError)"

definition clip :: "int \<Rightarrow> int \<Rightarrow> int" where
  "clip n i = (if i < 0 then max 0 (n + i) else min i n)"

definition py_slice :: "'a list \<Rightarrow> int \<Rightarrow> int \<Rightarrow> 'a list" where
  "py_slice xs i j =
     (let n = int (length xs); a = clip n i; b = clip n j
      in take (nat (b - a)) (drop (nat a) xs))"

text \<open>Sequencing of computations that may raise: the first exception wins.\<close>

definition bind :: "error + 'a \<Rightarrow> ('a \<Rightarrow> error + 'b) \<Rightarrow> error + 'b" where
  "bind m f = (case m of Inl e \<Rightarrow> Inl e | Inr x \<Rightarrow> f x)"

fun collect :: "(error + 'a) list \<Rightarrow> error + 'a list" where
  "collect [] = Inr []"
| "collect (m # ms) =
     (case m of Inl e \<Rightarrow> Inl e
      | Inr x \<Rightarrow> (case collect ms of Inl e \<Rightarrow> Inl e | Inr xs \<Rightarrow> Inr (x # xs)))"

section \<open>What the modules import from the rest of the package\<close>

text \<open>
  \<^verbatim>\<open>systeminfo.SysInfo\<close> and \<^verbatim>\<open>definitions.lipidmolecules\<close> are imported by the three
  modules and are not among the analysed sources; the fields and tables the modelled
  code reads are taken as they are, as parameters.  \<open>temperature\<close> and \<open>cutoff\<close> are
  kept as their \<^verbatim>\<open>str()\<close> rendering, the only way the code uses them.
\<close>

record sysinfo =
  energypath :: string
  temppath :: string
  indexpath :: string
  datapath :: string
  toppath :: string
  gropath :: string
  trjpath :: string
  tprpath :: string
  resid_to_lipid :: "int \<rightharpoonup> string"
  index_to_resid :: "int \<rightharpoonup> int"
  MOLRANGE :: "int list"
  molecules :: "string list"
  RESNAMES :: "string list"
  system :: string
  dt :: real
  t_start :: string
  t_end :: string
  dt_str :: string
  temperature :: string
  cutoff :: string

record lipidmolecules =
  STEROLS :: "string list"
  PROTEINS :: "string list"
  central_atom_of :: "string \<Rightarrow> error + string"
  tailcarbons_of :: "string \<Rightarrow> error + string list list"
  scd_tail_atoms_of :: "string \<Rightarrow> error + string list list"

text \<open>
  The neighbor dictionary \<^verbatim>\<open>{resid: {time: [neighbor ids]}}\<close> that
  \<^verbatim>\<open>get_neighbor_dict\<close> returns; the inner dictionary in insertion order.
\<close>

type_synonym neibdict = "int \<rightharpoonup> (real \<times> int list) list"

section \<open>energy.py: the class \<^verbatim>\<open>Energy\<close>\<close>

text \<open>
  \<^verbatim>\<open>class Energy(SysInfo)\<close>: the instance holds the inherited configuration (\<open>si\<close>)
  and the attributes \<^verbatim>\<open>__init__\<close> sets.  \<open>groupblocks\<close> starts as the empty tuple
  (\<open>None\<close>) and is set by \<^verbatim>\<open>run_calculation\<close>.
\<close>

record energy =
  si :: sysinfo
  neiblist :: neibdict
  resindex_all :: string
  overwrite :: bool
  groupblocks :: "(int \<times> int) option"
  part :: string
  molparts :: "string list"
  molparts_short :: "string list"
  denominator :: int
  all_energies :: string

definition DENOMINATOR :: int where
  "DENOMINATOR = 40"

definition knownparts :: "string list" where
  "knownparts = [''complete'', ''head-tail'', ''head-tailhalfs'', ''carbons'']"

text \<open>
  \<^verbatim>\<open>Energy.__init__\<close>.  \<open>sys_init\<close> is the outcome of \<^verbatim>\<open>super().__init__(inputfilename)\<close>
  and \<open>nd\<close> the outcome of \<^verbatim>\<open>neighbors.get_neighbor_dict()\<close>, in the order the
  constructor runs them: the part keyword is checked between the two.
  \<^verbatim>\<open>int(DENOMINATOR/k)\<close> is exact for the three divisors used.
\<close>

definition Energy_init ::
  "string \<Rightarrow> string \<Rightarrow> string \<Rightarrow> bool \<Rightarrow> error + sysinfo \<Rightarrow> error + neibdict \<Rightarrow> error + energy" where
  "Energy_init part_kw neighborfilename resindex ovw sys_init nd =
     bind sys_init (\<lambda>s.
       if part_kw \<notin> set knownparts
       then Inl (ValueError ''Part keyword specified is not known.'')
       else bind nd (\<lambda>nl.
         let e0 = \<lparr> si = s, neiblist = nl, resindex_all = resindex, overwrite = ovw,
                    groupblocks = None, part = part_kw, molparts = [], molparts_short = [],
                    denominator = 0, all_energies = [] \<rparr>
         in Inr
           (if part_kw = ''complete'' then
              e0 \<lparr> molparts := [''resid_''], part := [], denominator := DENOMINATOR,
                   molparts_short := [[]],
                   all_energies :=
                     (if neighborfilename \<noteq> ''neighbor_info''
                      then ''all_energies_'' @ neighborfilename @ ''.dat''
                      else ''all_energies.dat'') \<rparr>
            else if part_kw = ''head-tail'' then
              e0 \<lparr> molparts := [''resid_h_'', ''resid_t_''], denominator := DENOMINATOR div 2,
                   molparts_short := [''h_'', ''t_''],
                   all_energies := ''all_energies_headtail.dat'' \<rparr>
            else if part_kw = ''head-tailhalfs'' then
              e0 \<lparr> molparts := [''resid_h_'', ''resid_t12_'', ''resid_t22_''],
                   denominator := DENOMINATOR div 4,
                   molparts_short := [''h_'', ''t12_'', ''t22_''],
                   all_energies := ''all_energies_headtailhalfs.dat'' \<rparr>
            else
              e0 \<lparr> molparts := map (\<lambda>i. ''resid_C'' @ str_nat i @ ''_'') [0..<7],
                   denominator := DENOMINATOR div 10,
                   molparts_short := map (\<lambda>i. ''C'' @ str_nat i @ ''_'') [0..<7],
                   all_energies := ''all_energies_carbons.dat'' \<rparr>)))"

subsection \<open>Fragments of a residue's neighbors\<close>

text \<open>
  \<^verbatim>\<open>list(set([neibs for t in neiblist[res].keys() for neibs in neiblist[res][t]]))\<close>:
  the neighbors of all times without repetition.  The order in which CPython walks
  the set is its own; the model keeps the order of first appearance.
\<close>

definition all_neibs_of_res :: "neibdict \<Rightarrow> int \<Rightarrow> error + int list" where
  "all_neibs_of_res nl res =
     (case nl res of None \<Rightarrow> Inl KeyError
      | Some tm \<Rightarrow> Inr (remdups (concat (map snd tm))))"

text \<open>
  The four lines that \<^verbatim>\<open>run_calculation\<close>, \<^verbatim>\<open>write_energyfile\<close> and
  \<^verbatim>\<open>check_exist_xvgs\<close> share, word for word.
\<close>

definition number_of_groupfragments :: "int \<Rightarrow> int \<Rightarrow> error + int" where
  "number_of_groupfragments nneibs denom =
     (if denom = 0 then Inl ZeroDivisionError
      else if nneibs mod denom = 0 then Inr (nneibs div denom)
      else Inr (nneibs div denom + 1))"

text \<open>\<^verbatim>\<open>range(n)\<close>.\<close>

definition py_range :: "int \<Rightarrow> int list" where
  "py_range n = map int [0..<nat n]"

text \<open>The fragment indices the loops over \<^verbatim>\<open>range(number_of_groupfragments)\<close> visit.\<close>

definition groupfragments :: "energy \<Rightarrow> int \<Rightarrow> error + int list" where
  "groupfragments e res =
     bind (all_neibs_of_res (neiblist e) res) (\<lambda>ns.
     bind (number_of_groupfragments (int (length ns)) (denominator e)) (\<lambda>n.
     Inr (py_range n)))"

subsection \<open>Energy groups and requested energy terms\<close>

definition is_whole :: "lipidmolecules \<Rightarrow> energy \<Rightarrow> int \<Rightarrow> error + bool" where
  "is_whole lm e index =
     (case resid_to_lipid (si e) index of None \<Rightarrow> Inl KeyError
      | Some species \<Rightarrow> Inr (species \<in> set (STEROLS lm @ PROTEINS lm)))"

definition fragment_slice :: "energy \<Rightarrow> int list \<Rightarrow> error + int list" where
  "fragment_slice e ns =
     (case groupblocks e of None \<Rightarrow> Inl IndexError
      | Some (a, b) \<Rightarrow> Inr (py_slice ns a b))"

definition groups_of_index :: "lipidmolecules \<Rightarrow> energy \<Rightarrow> int \<Rightarrow> error + string list" where
  "groups_of_index lm e index =
     bind (is_whole lm e index) (\<lambda>w.
       if w then Inr [''resid_'' @ str_int index]
       else Inr (map (\<lambda>p. p @ str_int index) (molparts e)))"

definition energygroup_list :: "lipidmolecules \<Rightarrow> energy \<Rightarrow> int \<Rightarrow> int list \<Rightarrow> error + string list" where
  "energygroup_list lm e res ns =
     bind (fragment_slice e ns) (\<lambda>sl.
     bind (collect (map (groups_of_index lm e) (res # sl))) (\<lambda>gs.
     Inr (concat gs)))"

definition gather_energygroups :: "lipidmolecules \<Rightarrow> energy \<Rightarrow> int \<Rightarrow> int list \<Rightarrow> error + string" where
  "gather_energygroups lm e res ns =
     bind (energygroup_list lm e res ns) (\<lambda>gs. Inr (py_join '' '' gs))"

text \<open>
  The loop \<^verbatim>\<open>for part in self.molparts\<close> with its counter, as \<^verbatim>\<open>get_relev_energies\<close>
  and \<^verbatim>\<open>write_energyfile\<close> write it, twice each: when the test on the species holds
  (\<open>whole\<close>), the first round runs with the part replaced by \<open>lbl\<close> and every later
  round is skipped by \<^verbatim>\<open>continue\<close>.  The result lists the parts of the rounds whose
  body runs.
\<close>

fun part_rounds :: "bool \<Rightarrow> string \<Rightarrow> nat \<Rightarrow> string list \<Rightarrow> string list" where
  "part_rounds whole lbl counter [] = []"
| "part_rounds whole lbl counter (p # ps) =
     (if whole \<and> counter = 0 then lbl # part_rounds whole lbl (counter + 1) ps
      else if whole \<and> counter \<noteq> 0 then part_rounds whole lbl counter ps
      else p # part_rounds whole lbl counter ps)"

text \<open>An entry \<^verbatim>\<open>interaction + parthost + str(res) + "-" + partneib + str(neib)\<close>.\<close>

record entry =
  interaction :: string
  parthost :: string
  host_id :: int
  partneib :: string
  neib_id :: int

definition render :: "entry \<Rightarrow> string" where
  "render x =
     interaction x @ parthost x @ str_int (host_id x) @ ''-'' @ partneib x @ str_int (neib_id x)"

definition Etypes :: "string list" where
  "Etypes = [''Coul-SR:'', ''LJ-SR:'']"

definition neib_entries ::
  "lipidmolecules \<Rightarrow> energy \<Rightarrow> string \<Rightarrow> string \<Rightarrow> int \<Rightarrow> int \<Rightarrow> error + entry list" where
  "neib_entries lm e ia ph res neib =
     (if molparts e = [] then Inr []
      else bind (is_whole lm e neib) (\<lambda>wn.
        Inr (map (\<lambda>pn. \<lparr> interaction = ia, parthost = ph, host_id = res,
                          partneib = pn, neib_id = neib \<rparr>)
               (part_rounds wn ''resid_'' 0 (molparts e)))))"

definition host_entries ::
  "lipidmolecules \<Rightarrow> energy \<Rightarrow> string \<Rightarrow> int \<Rightarrow> int list \<Rightarrow> error + entry list" where
  "host_entries lm e ia res ns =
     (if molparts e = [] then Inr []
      else bind (is_whole lm e res) (\<lambda>wh.
           bind (fragment_slice e ns) (\<lambda>sl.
           bind (collect (map (\<lambda>ph. bind (collect (map (neib_entries lm e ia ph res) sl))
                                       (\<lambda>xs. Inr (concat xs)))
                            (part_rounds wh ''resid_'' 0 (molparts e))))
             (\<lambda>xs. Inr (concat xs)))))"

definition energyselection :: "lipidmolecules \<Rightarrow> energy \<Rightarrow> int \<Rightarrow> int list \<Rightarrow> error + entry list" where
  "energyselection lm e res ns =
     bind (collect (map (\<lambda>ia. host_entries lm e ia res ns) Etypes))
       (\<lambda>xs. Inr (concat xs))"

definition get_relev_energies :: "lipidmolecules \<Rightarrow> energy \<Rightarrow> int \<Rightarrow> int list \<Rightarrow> error + string" where
  "get_relev_energies lm e res ns =
     bind (energyselection lm e res ns) (\<lambda>xs.
       Inr (py_join [CHR 0x0A] (map render xs @ [[CHR 0x0A]])))"

subsection \<open>\<^verbatim>\<open>write_energyfile\<close>: aggregation of the extraction tables\<close>

text \<open>
  A line of an extraction table, by the branch of \<^verbatim>\<open>write_energyfile\<close> that takes it:
  \<open>Legend cols\<close> is a line containing \<^verbatim>\<open>@ s\<close>, \<open>Data cols\<close> a line with neither
  \<^verbatim>\<open>@\<close> nor \<^verbatim>\<open>#\<close>, \<open>Other\<close> any other line; \<open>cols\<close> is \<^verbatim>\<open>energyline.split()\<close>.
  A column of a data line is the number \<^verbatim>\<open>float()\<close> reads from it, \<open>None\<close> when
  \<^verbatim>\<open>float()\<close> raises.
\<close>

datatype xvgline = Legend "string list" | Data "real option list" | Other

record energy_row =
  row_time :: real
  row_host :: int
  row_neib :: int
  row_molparts :: string
  row_vdw :: real
  row_coul :: real
  row_etot :: real

text \<open>
  The variables of the loops: \<open>res_to_row\<close> is reset for every table,
  \<open>processed_neibs\<close> for every residue; \<open>host\<close> is a local of the function that is
  bound by the first legend line and keeps its last value from then on.
\<close>

record agg =
  res_to_row :: "(string \<times> string \<times> string) \<rightharpoonup> int"
  processed_neibs :: "string list"
  host :: "string option"
  printed :: "energy_row list"

definition legend_line :: "string list \<Rightarrow> agg \<Rightarrow> error + agg" where
  "legend_line cols st =
     bind (py_get cols 1) (\<lambda>c1.
     bind (py_int (tl c1)) (\<lambda>k.
     bind (py_get cols 3) (\<lambda>c3.
     bind (py_get (py_split ''resid_'' c3) 2) (\<lambda>n.
     bind (py_get (py_split ''resid_'' c3) 1) (\<lambda>h.
     bind (py_get (py_split ''-'' c3) 0) (\<lambda>t.
       let rw = k + 1; neib = butlast n; hst = butlast h; energytype = tl t
       in Inr (st \<lparr> res_to_row := (res_to_row st)((energytype, hst, neib) \<mapsto> rw),
                     processed_neibs :=
                       (if energytype = ''LJ'' then processed_neibs st @ [neib]
                        else processed_neibs st),
                     host := Some hst \<rparr>)))))))"

text \<open>\<^verbatim>\<open>time % self.dt != 0\<close> on numbers, for \<open>d \<noteq> 0\<close>.\<close>

definition off_grid :: "real \<Rightarrow> real \<Rightarrow> bool" where
  "off_grid t d = (t - d * of_int \<lfloor>t / d\<rfloor> \<noteq> 0)"

definition inter_label :: "string \<Rightarrow> string" where
  "inter_label p = (if butlast p = [] then ''w'' else butlast p)"

text \<open>
  The body of the two part loops: the \<^verbatim>\<open>try\<close> catches \<^verbatim>\<open>KeyError\<close> only, so a
  missing key skips the pair and a column index out of range raises.
\<close>

definition pair_rows ::
  "agg \<Rightarrow> real option list \<Rightarrow> real \<Rightarrow> int \<Rightarrow> int \<Rightarrow> string \<Rightarrow> string \<Rightarrow> error + energy_row list" where
  "pair_rows st cols time resid neib ph pn =
     (case res_to_row st (''LJ'', ph @ str_int resid, pn @ str_int neib) of
        None \<Rightarrow> Inr []
      | Some i \<Rightarrow>
          bind (py_get cols i) (\<lambda>vdw.
            case res_to_row st (''Coul'', ph @ str_int resid, pn @ str_int neib) of
              None \<Rightarrow> Inr []
            | Some j \<Rightarrow>
                bind (py_get cols j) (\<lambda>coul.
                  case (vdw, coul) of
                    (Some v, Some c) \<Rightarrow>
                      Inr [\<lparr> row_time = time, row_host = resid, row_neib = neib,
                             row_molparts = inter_label ph @ ''_'' @ inter_label pn,
                             row_vdw = v, row_coul = c, row_etot = v + c \<rparr>]
                  | _ \<Rightarrow> Inl (ValueError ''could not convert string to float''))))"

definition part_rows ::
  "energy \<Rightarrow> agg \<Rightarrow> real option list \<Rightarrow> real \<Rightarrow> int \<Rightarrow> string \<Rightarrow> int \<Rightarrow> error + energy_row list" where
  "part_rows e st cols time resid residtype neib =
     (case resid_to_lipid (si e) neib of
        None \<Rightarrow> Inl KeyError
      | Some neibtype \<Rightarrow>
          bind (collect (map (\<lambda>ph.
                  bind (collect (map (\<lambda>pn. pair_rows st cols time resid neib ph pn)
                          (part_rounds (neibtype = ''CHL1'') [] 0 (map (drop 6) (molparts e)))))
                    (\<lambda>xs. Inr (concat xs)))
                (part_rounds (residtype = ''CHL1'') [] 0 (map (drop 6) (molparts e)))))
            (\<lambda>xs. Inr (concat xs)))"

text \<open>
  One neighbor of a data line.  For the system \<^verbatim>\<open>dppc_dupc_chol25\<close> the test reads
  \<^verbatim>\<open>int(host)\<close> first: it raises when no legend line has bound \<open>host\<close> yet, and when
  the last host label is not a number.
\<close>

definition neib_rows ::
  "energy \<Rightarrow> agg \<Rightarrow> real option list \<Rightarrow> real \<Rightarrow> int \<Rightarrow> string \<Rightarrow> int \<Rightarrow> error + energy_row list" where
  "neib_rows e st cols time resid residtype neib =
     (if system (si e) = ''dppc_dupc_chol25'' then
        (case host st of
           None \<Rightarrow> Inl NameError
         | Some h \<Rightarrow>
             bind (py_int h) (\<lambda>hi.
               if (hi = 372 \<and> neib = 242) \<or> (hi = 242 \<and> neib = 372) then Inr []
               else part_rows e st cols time resid residtype neib))
      else part_rows e st cols time resid residtype neib)"

definition data_line ::
  "energy \<Rightarrow> int \<Rightarrow> string \<Rightarrow> int list \<Rightarrow> real option list \<Rightarrow> agg \<Rightarrow> error + agg" where
  "data_line e resid residtype ns cols st =
     bind (py_get cols 0) (\<lambda>c0.
       case c0 of
         None \<Rightarrow> Inl (ValueError ''could not convert string to float'')
       | Some time \<Rightarrow>
           if dt (si e) = 0 then Inl ZeroDivisionError
           else if off_grid time (dt (si e)) then Inr st
           else bind (collect (map (neib_rows e st cols time resid residtype) ns)) (\<lambda>xs.
                  Inr (st \<lparr> printed := printed st @ concat xs \<rparr>)))"

fun xvg_lines ::
  "energy \<Rightarrow> int \<Rightarrow> string \<Rightarrow> int list \<Rightarrow> xvgline list \<Rightarrow> agg \<Rightarrow> error + agg" where
  "xvg_lines e resid residtype ns [] st = Inr st"
| "xvg_lines e resid residtype ns (l # ls) st =
     bind (case l of
             Legend cols \<Rightarrow> legend_line cols st
           | Data cols \<Rightarrow> data_line e resid residtype ns cols st
           | Other \<Rightarrow> Inr st)
       (xvg_lines e resid residtype ns ls)"

definition xvgfilename :: "energy \<Rightarrow> int \<Rightarrow> int \<Rightarrow> string" where
  "xvgfilename e resid frag =
     energypath (si e) @ ''/xvgtables/energies_residue'' @ str_int resid @ ''_'' @ str_int frag
       @ part e @ ''.xvg''"

text \<open>
  The loop over the fragments of one residue; \<open>tables\<close> holds the extraction tables on
  disk under the names the code opens them with, a missing one makes \<^verbatim>\<open>open\<close> raise.
\<close>

fun fragment_tables ::
  "energy \<Rightarrow> (string \<rightharpoonup> xvgline list) \<Rightarrow> int \<Rightarrow> string \<Rightarrow> int list \<Rightarrow> int list \<Rightarrow> agg
     \<Rightarrow> error + agg" where
  "fragment_tables e tables resid residtype ns [] st = Inr st"
| "fragment_tables e tables resid residtype ns (frag # frags) st =
     (case tables (xvgfilename e resid frag) of
        None \<Rightarrow> Inl FileNotFoundError
      | Some ls \<Rightarrow>
          bind (xvg_lines e resid residtype ns ls (st \<lparr> res_to_row := Map.empty \<rparr>))
            (fragment_tables e tables resid residtype ns frags))"

text \<open>
  The end-of-residue check.  The expected list holds the neighbor ids themselves
  (Python ints) when there is one part, and strings (part label and id, each
  once per part) when there are several; the processed labels are strings always.
\<close>

datatype pyval = PyInt int | PyStr string

definition expected_neibs :: "energy \<Rightarrow> int list \<Rightarrow> pyval list" where
  "expected_neibs e ns =
     (if length (molparts e) > 1 then
        concat (map (\<lambda>x. replicate (length (molparts e)) x)
          (concat (map (\<lambda>n. map (\<lambda>p. PyStr (concat (py_split ''resid_'' p) @ str_int n))
                                (molparts e)) ns)))
      else map PyInt ns)"

text \<open>\<^verbatim>\<open>for pneib in processed_neibs: all_neibs_of_res.remove(pneib)\<close>.\<close>

fun remove_all :: "pyval list \<Rightarrow> pyval list \<Rightarrow> error + pyval list" where
  "remove_all xs [] = Inr xs"
| "remove_all xs (p # ps) =
     (if p \<in> set xs then remove_all (remove1 p xs) ps
      else Inl (ValueError ''list.remove(x): x not in list''))"

definition cross_check :: "energy \<Rightarrow> int list \<Rightarrow> string list \<Rightarrow> error + unit" where
  "cross_check e ns processed =
     bind (remove_all (expected_neibs e ns) (map PyStr processed)) (\<lambda>left.
       if left \<noteq> [] then Inl (ValueError ''Not all neighbours found in xvgfile'')
       else Inr ())"

definition residue_energies ::
  "energy \<Rightarrow> (string \<rightharpoonup> xvgline list) \<Rightarrow> int \<Rightarrow> agg \<Rightarrow> error + agg" where
  "residue_energies e tables resid st =
     (case resid_to_lipid (si e) resid of
        None \<Rightarrow> Inl KeyError
      | Some residtype \<Rightarrow>
          bind (all_neibs_of_res (neiblist e) resid) (\<lambda>ns.
          bind (number_of_groupfragments (int (length ns)) (denominator e)) (\<lambda>n.
          bind (fragment_tables e tables resid residtype ns (py_range n)
                  (st \<lparr> processed_neibs := [] \<rparr>)) (\<lambda>st'.
          bind (cross_check e ns (processed_neibs st')) (\<lambda>_. Inr st')))))"

fun residues_loop ::
  "energy \<Rightarrow> (string \<rightharpoonup> xvgline list) \<Rightarrow> int list \<Rightarrow> agg \<Rightarrow> error + agg" where
  "residues_loop e tables [] st = Inr st"
| "residues_loop e tables (resid # rs) st =
     bind (residue_energies e tables resid st) (residues_loop e tables rs)"

text \<open>
  \<^verbatim>\<open>write_energyfile\<close>: the rows printed below the header of \<^verbatim>\<open>all_energies\<close>, or
  the exception that ends the call (the rows printed before it stay in the file).
\<close>

definition write_energyfile :: "energy \<Rightarrow> (string \<rightharpoonup> xvgline list) \<Rightarrow> error + energy_row list" where
  "write_energyfile e tables =
     bind (residues_loop e tables (MOLRANGE (si e))
             \<lparr> res_to_row = Map.empty, processed_neibs = [], host = None, printed = [] \<rparr>)
       (\<lambda>st. Inr (printed st))"

section \<open>Files and the external engine\<close>

text \<open>
  The part of the world the code acts on: the text files by path, and the invocations
  of the engine in the order they were made (argument list and standard input).
  Paths that differ only in repeated slashes name the same file, as on the file
  systems the package runs on; directories (\<^verbatim>\<open>os.makedirs\<close>) are not modelled.
\<close>

record world =
  files :: "string \<rightharpoonup> string"
  calls :: "(string list \<times> string option) list"

fun normpath :: "string \<Rightarrow> string" where
  "normpath (a # b # cs) =
     (if a = CHR ''/'' \<and> b = CHR ''/'' then normpath (b # cs) else a # normpath (b # cs))"
| "normpath cs = cs"

definition isfile :: "world \<Rightarrow> string \<Rightarrow> bool" where
  "isfile w p = (files w (normpath p) \<noteq> None)"

definition read_file :: "world \<Rightarrow> string \<Rightarrow> string option" where
  "read_file w p = files w (normpath p)"

definition write_file :: "string \<Rightarrow> string \<Rightarrow> world \<Rightarrow> world" where
  "write_file p c w = w \<lparr> files := (files w)(normpath p \<mapsto> c) \<rparr>"

definition append_file :: "string \<Rightarrow> string \<Rightarrow> world \<Rightarrow> world" where
  "append_file p c w =
     w \<lparr> files := (files w)(normpath p \<mapsto>
            (case files w (normpath p) of None \<Rightarrow> c | Some old \<Rightarrow> old @ c)) \<rparr>"

text \<open>
  Modelled from the spec: \<^verbatim>\<open>common.exec_gromacs\<close> and the engine behind it, which are
  not among the analysed sources.  The execution primitive invokes the engine with an
  argument list and an optional standard input, waits, and returns the captured
  standard output and standard error; the engine writes the files its output options
  name (\<^verbatim>\<open>-o\<close> and \<^verbatim>\<open>-po\<close> of the preprocessing, \<^verbatim>\<open>-e\<close>, \<^verbatim>\<open>-o\<close> and \<^verbatim>\<open>-g\<close> of the
  rerun, \<^verbatim>\<open>-on\<close> and \<^verbatim>\<open>-oi\<close> of the selection, \<^verbatim>\<open>-o\<close> of the others) and no other file.
  What it prints and what it writes there is arbitrary: \<open>produce\<close> gives the new
  content of an output file, or \<open>None\<close> when the engine leaves it as it is.
\<close>

record engine =
  stdout :: "string list \<Rightarrow> string option \<Rightarrow> (string \<rightharpoonup> string) \<Rightarrow> string"
  stderr :: "string list \<Rightarrow> string option \<Rightarrow> (string \<rightharpoonup> string) \<Rightarrow> string"
  produce :: "string list \<Rightarrow> string option \<Rightarrow> (string \<rightharpoonup> string) \<Rightarrow> string \<Rightarrow> string option"

definition output_flags :: "string \<Rightarrow> string list" where
  "output_flags sub =
     (if sub = ''grompp'' then [''-o'', ''-po'']
      else if sub = ''mdrun'' then [''-e'', ''-o'', ''-g'']
      else if sub = ''select'' then [''-on'', ''-oi'']
      else [''-o''])"

text \<open>
  The arguments after the sub-command are read in pairs, an option and its value, which
  is how every command of the package is built.
\<close>

fun flagged :: "string list \<Rightarrow> string list \<Rightarrow> string list" where
  "flagged flags (f # p # rest) =
     (if f \<in> set flags then p # flagged flags rest else flagged flags rest)"
| "flagged flags rest = []"

definition output_targets :: "string list \<Rightarrow> string list" where
  "output_targets cmd =
     (case cmd of g # sub # args \<Rightarrow> flagged (output_flags sub) args | _ \<Rightarrow> [])"

definition engine_writes ::
  "engine \<Rightarrow> string list \<Rightarrow> string option \<Rightarrow> (string \<rightharpoonup> string) \<Rightarrow> string list \<Rightarrow> world \<Rightarrow> world" where
  "engine_writes eng cmd inp before targets w =
     fold (\<lambda>p w'. case produce eng cmd inp before p of
                     None \<Rightarrow> w' | Some c \<Rightarrow> write_file p c w') targets w"

definition exec_gromacs ::
  "engine \<Rightarrow> string list \<Rightarrow> string option \<Rightarrow> world \<Rightarrow> (string \<times> string) \<times> world" where
  "exec_gromacs eng cmd inp w =
     ((stdout eng cmd inp (files w), stderr eng cmd inp (files w)),
      engine_writes eng cmd inp (files w) (output_targets cmd)
        (w \<lparr> calls := calls w @ [(cmd, inp)] \<rparr>))"

subsection \<open>\<^verbatim>\<open>run_calculation\<close> and the steps it runs\<close>

definition GMXNAME :: string where
  "GMXNAME = ''gmx''"

definition raw_mdp :: "string list" where
  "raw_mdp =
     [[],
      ''integrator              = md'',
      ''dt                      = 0.002'',
      ''nsteps                  ='',
      ''nstlog                  = 100000'',
      ''nstxout                 = 0'',
      ''nstvout                 = 0'',
      ''nstfout                 = 0'',
      ''nstcalcenergy           = 1000'',
      ''nstenergy               = 100'',
      ''cutoff-scheme           = Verlet'',
      ''nstlist                 = 20'',
      ''rlist                   = 1.2'',
      ''coulombtype             = pme'',
      ''rcoulomb                = 1.2'',
      ''vdwtype                 = Cut-off'',
      ''vdw-modifier            = Force-switch'',
      ''rvdw_switch             = 1.0'',
      ''rvdw                    = 1.2'',
      ''tcoupl                  = Nose-Hoover'',
      ''tau_t                   = 1.0'',
      ''tc-grps                 = System'',
      ''pcoupl                  = Parrinello-Rahman'',
      ''pcoupltype              = semiisotropic'',
      ''tau_p                   = 5.0'',
      ''compressibility         = 4.5e-5  4.5e-5'',
      ''ref_p                   = 1.0     1.0'',
      ''constraints             = h-bonds'',
      ''constraint_algorithm    = LINCS'',
      ''continuation            = yes'',
      ''nstcomm                 = 100'',
      ''comm_mode               = linear'',
      ''refcoord_scaling        = com'',
      []]"

definition create_MDP :: "energy \<Rightarrow> string \<Rightarrow> string \<Rightarrow> world \<Rightarrow> world" where
  "create_MDP e mdpout energygroups w =
     write_file mdpout
       (py_join [CHR 0x0A]
          (raw_mdp @ [''ref_t = '' @ temperature (si e),
                      ''energygrps'' @ [CHR 0x09, CHR 0x09, CHR 0x09] @ ''='' @ energygroups
                        @ [CHR 0x0A]])
        @ [CHR 0x0A]) w"

definition create_TPR :: "engine \<Rightarrow> energy \<Rightarrow> string \<Rightarrow> string \<Rightarrow> world \<Rightarrow> world" where
  "create_TPR eng e mdpoutfile tprout w =
     (case exec_gromacs eng
             [GMXNAME, ''grompp'', ''-f'', mdpoutfile, ''-p'', toppath (si e), ''-c'',
              gropath (si e), ''-o'', tprout, ''-n'', resindex_all e, ''-po'', mdpoutfile]
             None w of
        ((out, err), w') \<Rightarrow> append_file ''gmx_grompp.log'' (err @ out) w')"

definition do_Energyrun ::
  "engine \<Rightarrow> energy \<Rightarrow> int \<Rightarrow> string \<Rightarrow> string \<Rightarrow> string \<Rightarrow> world \<Rightarrow> world" where
  "do_Energyrun eng e res groupfragment tprrerun_in energyf_out w =
     (let logoutput_file = energypath (si e) @ ''logfiles/'' @ ''mdrerun_resid'' @ str_int res
            @ part e @ ''frag'' @ groupfragment @ ''.log'';
          trajout = ''EMPTY.trr''
      in case exec_gromacs eng
                [GMXNAME, ''mdrun'', ''-s'', tprrerun_in, ''-rerun'', trjpath (si e),
                 ''-e'', energyf_out, ''-o'', trajout, ''-g'', logoutput_file]
                None w of
           ((out, err), w') \<Rightarrow> append_file ''gmx_mdrun.log'' (err @ out) w')"

definition write_XVG ::
  "engine \<Rightarrow> energy \<Rightarrow> string \<Rightarrow> string \<Rightarrow> string \<Rightarrow> string \<Rightarrow> world \<Rightarrow> world" where
  "write_XVG eng e energyf_in tprrerun_in all_relev_energies xvg_out w =
     (case exec_gromacs eng
             [GMXNAME, ''energy'', ''-f'', energyf_in, ''-s'', tprrerun_in, ''-o'', xvg_out]
             (Some all_relev_energies) w of
        ((out, err), w') \<Rightarrow> append_file ''gmx_energy.log'' (err @ out) w')"

text \<open>The file names of one fragment, as the loop body builds them.\<close>

definition g_energy_output :: "energy \<Rightarrow> int \<Rightarrow> int \<Rightarrow> string" where
  "g_energy_output e res frag =
     energypath (si e) @ ''/xvgtables/energies_residue'' @ str_int res @ ''_'' @ str_int frag
       @ part e @ ''.xvg''"

definition mdpout_of :: "energy \<Rightarrow> int \<Rightarrow> int \<Rightarrow> string" where
  "mdpout_of e res frag =
     energypath (si e) @ ''mdpfiles/energy_mdp_recalc_resid'' @ str_int res @ ''_'' @ str_int frag
       @ part e @ ''.mdp''"

definition tprout_of :: "energy \<Rightarrow> int \<Rightarrow> int \<Rightarrow> string" where
  "tprout_of e res frag =
     energypath (si e) @ ''tprfiles/mdrerun_resid'' @ str_int res @ ''_'' @ str_int frag
       @ part e @ ''.tpr''"

definition energyf_output :: "energy \<Rightarrow> int \<Rightarrow> int \<Rightarrow> string" where
  "energyf_output e res frag =
     energypath (si e) @ ''edrfiles/energyfile_resid'' @ str_int res @ (''_'' @ str_int frag)
       @ part e @ ''.edr''"

definition xvg_out_of :: "energy \<Rightarrow> int \<Rightarrow> int \<Rightarrow> string" where
  "xvg_out_of e res frag =
     energypath (si e) @ ''xvgtables/energies_residue'' @ str_int res @ ''_'' @ str_int frag
       @ part e @ ''.xvg''"

text \<open>The rerun step and the extraction step of one fragment, each behind its test.\<close>

definition rerun_step :: "engine \<Rightarrow> energy \<Rightarrow> int \<Rightarrow> int \<Rightarrow> world \<Rightarrow> world" where
  "rerun_step eng e res frag w =
     (if isfile w (energyf_output e res frag) \<and> \<not> overwrite e then w
      else do_Energyrun eng e res (str_int frag) (tprout_of e res frag)
             (energyf_output e res frag) w)"

definition extraction_step :: "engine \<Rightarrow> energy \<Rightarrow> int \<Rightarrow> int \<Rightarrow> string \<Rightarrow> world \<Rightarrow> world" where
  "extraction_step eng e res frag relev_energies w =
     (if isfile w (g_energy_output e res frag) \<and> \<not> overwrite e then w
      else write_XVG eng e (energyf_output e res frag) (tprout_of e res frag) relev_energies
             (xvg_out_of e res frag) w)"

text \<open>The body of the loop over the fragments of \<open>res\<close>.\<close>

definition run_fragment ::
  "lipidmolecules \<Rightarrow> engine \<Rightarrow> int \<Rightarrow> int list \<Rightarrow> int \<Rightarrow> energy \<times> world \<Rightarrow> error + energy \<times> world" where
  "run_fragment lm eng res ns frag ew =
     (case ew of (e0, w) \<Rightarrow>
        let e = e0 \<lparr> groupblocks := Some (frag * denominator e0, (frag + 1) * denominator e0) \<rparr>
        in bind (gather_energygroups lm e res ns) (\<lambda>energygroups.
           bind (get_relev_energies lm e res ns) (\<lambda>relev_energies.
             Inr (e, extraction_step eng e res frag relev_energies
                       (rerun_step eng e res frag
                          (create_TPR eng e (mdpout_of e res frag) (tprout_of e res frag)
                             (create_MDP e (mdpout_of e res frag) energygroups w)))))))"

fun run_fragments ::
  "lipidmolecules \<Rightarrow> engine \<Rightarrow> int \<Rightarrow> int list \<Rightarrow> int list \<Rightarrow> energy \<times> world
     \<Rightarrow> error + energy \<times> world" where
  "run_fragments lm eng res ns [] ew = Inr ew"
| "run_fragments lm eng res ns (frag # frags) ew =
     bind (run_fragment lm eng res ns frag ew) (run_fragments lm eng res ns frags)"

definition run_residue ::
  "lipidmolecules \<Rightarrow> engine \<Rightarrow> int \<Rightarrow> energy \<times> world \<Rightarrow> error + energy \<times> world" where
  "run_residue lm eng res ew =
     bind (all_neibs_of_res (neiblist (fst ew)) res) (\<lambda>ns.
     bind (number_of_groupfragments (int (length ns)) (denominator (fst ew))) (\<lambda>n.
       run_fragments lm eng res ns (py_range n) ew))"

fun run_residues ::
  "lipidmolecules \<Rightarrow> engine \<Rightarrow> int list \<Rightarrow> energy \<times> world \<Rightarrow> error + energy \<times> world" where
  "run_residues lm eng [] ew = Inr ew"
| "run_residues lm eng (res # rs) ew = bind (run_residue lm eng res ew) (run_residues lm eng rs)"

text \<open>\<^verbatim>\<open>run_calculation(resids)\<close>; the source returns 1 after the last residue.\<close>

definition run_calculation ::
  "lipidmolecules \<Rightarrow> engine \<Rightarrow> int list \<Rightarrow> energy \<times> world \<Rightarrow> error + int \<times> energy \<times> world" where
  "run_calculation lm eng resids ew =
     bind (run_residues lm eng resids ew) (\<lambda>ew'. Inr (1, ew'))"

text \<open>
  \<^verbatim>\<open>check_exist_xvgs\<close>: the names of the missing tables, in the order they are written
  to \<^verbatim>\<open>missing_xvgfiles.info\<close>; the call returns whether there is none.
\<close>

definition missing_of_residue :: "energy \<Rightarrow> world \<Rightarrow> int \<Rightarrow> error + string list" where
  "missing_of_residue e w resid =
     bind (groupfragments e resid) (\<lambda>frags.
       Inr (filter (\<lambda>f. \<not> isfile w f) (map (xvgfilename e resid) frags)))"

definition check_exist_xvgs :: "energy \<Rightarrow> world \<Rightarrow> error + bool \<times> string list" where
  "check_exist_xvgs e w =
     bind (collect (map (missing_of_residue e w) (MOLRANGE (si e)))) (\<lambda>ms.
       Inr (concat ms = [], concat ms))"

section \<open>neighbors.py\<close>

subsection \<open>Lines, words and padded columns\<close>

definition whitespace :: "char list" where
  "whitespace = [CHR '' '', CHR 0x09, CHR 0x0A, CHR 0x0B, CHR 0x0C, CHR 0x0D]"

text \<open>\<^verbatim>\<open>line.split()\<close>: the maximal runs of characters that are not whitespace.\<close>

fun words_acc :: "string \<Rightarrow> string \<Rightarrow> string list" where
  "words_acc acc [] = (if acc = [] then [] else [rev acc])"
| "words_acc acc (c # cs) =
     (if c \<in> set whitespace
      then (if acc = [] then words_acc [] cs else rev acc # words_acc [] cs)
      else words_acc (c # acc) cs)"

definition py_words :: "string \<Rightarrow> string list" where
  "py_words s = words_acc [] s"

text \<open>\<^verbatim>\<open>for line in file\<close>: the lines of a text, without their line ends.\<close>

fun lines_acc :: "string \<Rightarrow> string \<Rightarrow> string list" where
  "lines_acc acc [] = (if acc = [] then [] else [rev acc])"
| "lines_acc acc (c # cs) =
     (if c = CHR 0x0A then rev acc # lines_acc [] cs else lines_acc (c # acc) cs)"

definition py_lines :: "string \<Rightarrow> string list" where
  "py_lines s = lines_acc [] s"

text \<open>The format fields \<^verbatim>\<open>{: <n}\<close> and \<^verbatim>\<open>{: >n}\<close>.\<close>

definition ljust :: "nat \<Rightarrow> string \<Rightarrow> string" where
  "ljust n x = x @ replicate (n - length x) CHR '' ''"

definition rjust :: "nat \<Rightarrow> string \<Rightarrow> string" where
  "rjust n x = replicate (n - length x) CHR '' '' @ x"

subsection \<open>\<^verbatim>\<open>Neighbors.create_selectionfile_neighborsearch\<close>\<close>

definition newline :: string where
  "newline = [CHR 0x0A]"

definition tails_lines :: "string \<Rightarrow> string \<Rightarrow> string" where
  "tails_lines name1 name2 =
     ''allOAtoms = resname CHL1 and name O3 and not host;'' @ newline
     @ ''allTail1Atoms = resname DPPC DUPC and name '' @ name1 @ '' and not host;'' @ newline
     @ ''allTail2Atoms = resname DPPC DUPC and name '' @ name2 @ '' and not host;'' @ newline"

definition within_lines :: "string \<Rightarrow> string" where
  "within_lines cutstr =
     ''neibOs = allOAtoms and within '' @ cutstr @ '' of host;'' @ newline
     @ ''neibTail1 = allTail1Atoms and within '' @ cutstr @ '' of host;'' @ newline
     @ ''neibTail2 = allTail2Atoms and within '' @ cutstr @ '' of host;'' @ newline
     @ ''neibs = neibOs or neibTail1 or neibTail2;'' @ newline
     @ ''neibs;''"

definition tailstr_of :: "lipidmolecules \<Rightarrow> string \<Rightarrow> nat \<Rightarrow> error + string" where
  "tailstr_of lm resn tailn =
     bind (tailcarbons_of lm resn) (\<lambda>chains.
     bind (py_get chains (int tailn)) (\<lambda>chain.
       Inr (''tail'' @ str_nat tailn @ ''=(resname '' @ resn @ '' and name ''
            @ py_join '' '' chain @ '');'' @ newline)))"

text \<open>
  What the branch for \<open>refatoms\<close> prints into the selection file (\<^verbatim>\<open>print\<close> ends it
  with a line end), or the exception it raises.
\<close>

definition selection_text ::
  "sysinfo \<Rightarrow> lipidmolecules \<Rightarrow> int \<Rightarrow> string \<Rightarrow> string \<Rightarrow> string \<Rightarrow> error + string" where
  "selection_text s lm resid refatoms hoststring neibstring =
     (if refatoms = ''P'' then
        Inr (''host =  '' @ hoststring @ '';'' @ newline @ ''neibs = '' @ neibstring @ '';'' @ newline
             @ ''neibs;'' @ newline)
      else if refatoms = ''bothtails'' then
        Inr (''host = resid '' @ str_int resid @ '' and name C34 C24 O3;'' @ newline
             @ tails_lines ''C34'' ''C24'' @ within_lines (cutoff s) @ newline)
      else if refatoms = ''glycerol'' then
        Inr (''host = resid '' @ str_int resid @ '' and name C31 C21 O3;'' @ newline
             @ tails_lines ''C31'' ''C21'' @ within_lines (cutoff s) @ newline)
      else if refatoms = ''tails_com'' then
        bind (collect (concat (map (\<lambda>resn. map (tailstr_of lm resn) [0, 1]) (RESNAMES s))))
          (\<lambda>tailstr_l.
            Inr (concat tailstr_l
                 @ ''host1 = (resid '' @ str_int resid @ '' and (tail0 or name O3));'' @ newline
                 @ ''host2 = (resid '' @ str_int resid @ '' and (tail1 or name O3));'' @ newline
                 @ ''allOAtoms = resname CHL1 and name O3 and not (host1 or host2);'' @ newline
                 @ ''neibOs = allOAtoms and (within '' @ cutoff s @ '' of com of host1 or within ''
                 @ cutoff s @ '' of com of host2);'' @ newline
                 @ ''neibTail = (tail0 or tail1) and (within '' @ cutoff s
                 @ '' of com of host1 or within '' @ cutoff s @ '' of com of host2);'' @ newline
                 @ ''neibs = neibOs or neibTail;'' @ newline
                 @ ''neibs;'' @ newline))
      else Inl (ValueError (''Wrong input for refatoms with: '' @ refatoms)))"

definition resname_clause :: "lipidmolecules \<Rightarrow> string \<Rightarrow> error + string" where
  "resname_clause lm i =
     bind (central_atom_of lm i) (\<lambda>a. Inr (''(resname '' @ i @ '' and name '' @ a @ '')''))"

text \<open>
  The call returns the file name, or \<open>None\<close> for a residue whose species is not
  among \<^verbatim>\<open>self.molecules\<close>.  The file is opened for writing before the branch on
  \<open>refatoms\<close> is taken, so an exception raised in the branch leaves it empty.
\<close>

definition create_selectionfile_neighborsearch ::
  "sysinfo \<Rightarrow> lipidmolecules \<Rightarrow> int \<Rightarrow> string \<Rightarrow> world \<Rightarrow> (error + string option) \<times> world" where
  "create_selectionfile_neighborsearch s lm resid refatoms w =
     (let filename = temppath s @ ''/sf'' in
      case resid_to_lipid s resid of
        None \<Rightarrow> (Inl KeyError, w)
      | Some hosttype \<Rightarrow>
          if hosttype \<notin> set (molecules s) then (Inr None, w)
          else
            (case central_atom_of lm hosttype of
               Inl err \<Rightarrow> (Inl err, w)
             | Inr atm \<Rightarrow>
                 (case collect (map (resname_clause lm) (RESNAMES s)) of
                    Inl err \<Rightarrow> (Inl err, w)
                  | Inr clauses \<Rightarrow>
                      (let hoststring = ''resid '' @ str_int resid @ '' and (name '' @ atm @ '')'';
                           neibstring = ''(('' @ py_join '' or '' clauses
                             @ '') and not host) and within '' @ cutoff s @ '' of host''
                       in case selection_text s lm resid refatoms hoststring neibstring of
                            Inl err \<Rightarrow> (Inl err, write_file filename [] w)
                          | Inr txt \<Rightarrow> (Inr (Some filename), write_file filename txt w)))))"

subsection \<open>\<^verbatim>\<open>Neighbors.determine_neighbors\<close>\<close>

text \<open>
  One line of the engine's data file becomes one row of \<^verbatim>\<open>neighbor_info\<close>: the
  fields \<^verbatim>\<open>residue\<close>, \<^verbatim>\<open>time\<close>, \<^verbatim>\<open>nneibs\<close> and \<^verbatim>\<open>residlist\<close> before they are padded.
\<close>

record neighbor_fields =
  f_residue :: int
  f_time :: string
  f_nneibs :: string
  f_residlist :: string

definition lookup :: "('k \<rightharpoonup> 'v) \<Rightarrow> 'k \<Rightarrow> error + 'v" where
  "lookup m k = (case m k of None \<Rightarrow> Inl KeyError | Some v \<Rightarrow> Inr v)"

definition neighbor_row :: "sysinfo \<Rightarrow> int \<Rightarrow> string \<Rightarrow> error + neighbor_fields" where
  "neighbor_row s residue line =
     (case py_words line of
        [] \<Rightarrow> Inl IndexError
      | [time] \<Rightarrow> Inl IndexError
      | time # nneibs # cols \<Rightarrow>
          bind (collect (map py_int cols)) (\<lambda>neibindeces.
          bind (collect (map (lookup (index_to_resid s)) neibindeces)) (\<lambda>neibresid.
            Inr \<lparr> f_residue = residue, f_time = time, f_nneibs = nneibs,
                  f_residlist = py_join '','' (map str_int neibresid) \<rparr>)))"

definition format_row :: "string \<Rightarrow> string \<Rightarrow> string \<Rightarrow> string \<Rightarrow> string" where
  "format_row a b c d = ljust 10 a @ ljust 20 b @ ljust 10 c @ rjust 25 d"

definition print_row :: "neighbor_fields \<Rightarrow> string" where
  "print_row r = format_row (str_int (f_residue r)) (f_time r) (f_nneibs r) (f_residlist r) @ newline"

definition select_neighbors :: "engine \<Rightarrow> sysinfo \<Rightarrow> string \<Rightarrow> string \<Rightarrow> string \<Rightarrow> world \<Rightarrow> world" where
  "select_neighbors eng s selectionfile indexoutput datafileoutput w =
     (case exec_gromacs eng
             [GMXNAME, ''select'', ''-s'', tprpath s, ''-f'', trjpath s, ''-sf'', selectionfile,
              ''-on'', indexoutput, ''-oi'', datafileoutput, ''-b'', t_start s, ''-e'', t_end s,
              ''-dt'', dt_str s]
             None w of
        ((out, err), w') \<Rightarrow> write_file ''gmx_select.log'' (err @ out) w')"

text \<open>The rows of one residue of \<^verbatim>\<open>MOLRANGE\<close>, and the world after its engine run.\<close>

definition residue_neighbors ::
  "engine \<Rightarrow> sysinfo \<Rightarrow> lipidmolecules \<Rightarrow> string \<Rightarrow> bool \<Rightarrow> int \<Rightarrow> world
     \<Rightarrow> error + neighbor_fields list \<times> world" where
  "residue_neighbors eng s lm refatoms ovw residue w =
     (if resid_to_lipid s residue = None then Inr ([], w)
      else
        (case create_selectionfile_neighborsearch s lm residue refatoms w of
           (Inl err, w1) \<Rightarrow> Inl err
         | (Inr None, w1) \<Rightarrow> Inr ([], w1)
         | (Inr (Some selectionfile), w1) \<Rightarrow>
             (let indexoutput = indexpath s @ ''/neighbors_of_residue'' @ str_int residue @ ''.ndx'';
                  datafileoutput = datapath s @ ''/neighborfiles/neighbors_of_residue''
                    @ str_int residue @ ''.dat'';
                  w2 = (if isfile w1 datafileoutput \<and> \<not> ovw then w1
                        else select_neighbors eng s selectionfile indexoutput datafileoutput w1)
              in case read_file w2 datafileoutput of
                   None \<Rightarrow> Inl FileNotFoundError
                 | Some content \<Rightarrow>
                     bind (collect (map (neighbor_row s residue) (py_lines content)))
                       (\<lambda>rows. Inr (rows, w2)))))"

fun neighbors_loop ::
  "engine \<Rightarrow> sysinfo \<Rightarrow> lipidmolecules \<Rightarrow> string \<Rightarrow> bool \<Rightarrow> int list \<Rightarrow> world
     \<Rightarrow> error + neighbor_fields list \<times> world" where
  "neighbors_loop eng s lm refatoms ovw [] w = Inr ([], w)"
| "neighbors_loop eng s lm refatoms ovw (residue # rs) w =
     bind (residue_neighbors eng s lm refatoms ovw residue w) (\<lambda>(rows, w1).
     bind (neighbors_loop eng s lm refatoms ovw rs w1) (\<lambda>(rows', w2).
       Inr (rows @ rows', w2)))"

definition neighbor_header :: string where
  "neighbor_header = format_row ''Resid'' ''Time'' ''Number_of_neighbors'' ''List_of_Neighbors'' @ newline"

text \<open>
  \<^verbatim>\<open>determine_neighbors\<close>: the rows written and the world with \<^verbatim>\<open>neighbor_info\<close> in
  it, or the exception that ends the call.
\<close>

definition determine_neighbors ::
  "engine \<Rightarrow> sysinfo \<Rightarrow> lipidmolecules \<Rightarrow> string \<Rightarrow> bool \<Rightarrow> world
     \<Rightarrow> error + neighbor_fields list \<times> world" where
  "determine_neighbors eng s lm refatoms ovw w =
     bind (neighbors_loop eng s lm refatoms ovw (MOLRANGE s) (write_file ''neighbor_info'' [] w))
       (\<lambda>(rows, w1).
          Inr (rows, write_file ''neighbor_info''
                       (neighbor_header @ concat (map print_row rows)) w1))"

subsection \<open>\<^verbatim>\<open>get_neighbor_dict\<close>\<close>

text \<open>\<^verbatim>\<open>list(set(xs))\<close> and \<^verbatim>\<open>d.update({k: v})\<close> on a dictionary kept in insertion order.\<close>

fun dict_update :: "'k \<Rightarrow> 'v \<Rightarrow> ('k \<times> 'v) list \<Rightarrow> ('k \<times> 'v) list" where
  "dict_update k v [] = [(k, v)]"
| "dict_update k v ((k', v') # kvs) =
     (if k = k' then (k, v) # kvs else (k', v') # dict_update k v kvs)"

text \<open>
  One row of the table.  \<open>float_of\<close> stands for \<^verbatim>\<open>float()\<close>.  Only \<^verbatim>\<open>IndexError\<close> (a
  row without a fourth column) is caught.
\<close>

definition neighbor_dict_row ::
  "(string \<Rightarrow> error + real) \<Rightarrow> string \<Rightarrow> neibdict \<Rightarrow> error + neibdict" where
  "neighbor_dict_row float_of line neibdict =
     (let cols = py_words line in
      bind (py_get cols 0) (\<lambda>c0.
      bind (py_int c0) (\<lambda>resid.
      bind (py_get cols 1) (\<lambda>c1.
      bind (float_of c1) (\<lambda>time.
        let inner = (case neibdict resid of None \<Rightarrow> [] | Some tm \<Rightarrow> tm) in
        case py_get cols 3 of
          Inl err \<Rightarrow> Inr (neibdict(resid \<mapsto> dict_update time [] inner))
        | Inr c3 \<Rightarrow>
            bind (collect (map py_int (py_split '','' c3))) (\<lambda>neiblist.
              Inr (neibdict(resid \<mapsto> dict_update time (remdups neiblist) inner))))))))"

fun neighbor_dict_rows ::
  "(string \<Rightarrow> error + real) \<Rightarrow> string list \<Rightarrow> neibdict \<Rightarrow> error + neibdict" where
  "neighbor_dict_rows float_of [] neibdict = Inr neibdict"
| "neighbor_dict_rows float_of (line # ls) neibdict =
     bind (neighbor_dict_row float_of line neibdict) (neighbor_dict_rows float_of ls)"

definition get_neighbor_dict ::
  "(string \<Rightarrow> error + real) \<Rightarrow> world \<Rightarrow> string \<Rightarrow> error + neibdict" where
  "get_neighbor_dict float_of w neighbor_filename =
     (case read_file w neighbor_filename of
        None \<Rightarrow> Inl FileNotFoundError
      | Some content \<Rightarrow> neighbor_dict_rows float_of (tl (py_lines content)) Map.empty)"

section \<open>leaflets.py\<close>

subsection \<open>The orientation of a molecule\<close>

text \<open>
  Positions are numpy arrays of three coordinates.  The arithmetic is modelled on the
  real numbers; the one place where numpy leaves them is the division, which gives
  \<^verbatim>\<open>nan\<close> for \<open>0/0\<close> and an infinity for \<open>x/0\<close>, and a comparison with \<^verbatim>\<open>nan\<close> is false.
\<close>

type_synonym vec = "real \<times> real \<times> real"

datatype npfloat = Num real | PosInf | NegInf | NaN

definition vsub :: "vec \<Rightarrow> vec \<Rightarrow> vec" where
  "vsub a b = (case a of (a1, a2, a3) \<Rightarrow> case b of (b1, b2, b3) \<Rightarrow> (a1 - b1, a2 - b2, a3 - b3))"

definition dot :: "vec \<Rightarrow> vec \<Rightarrow> real" where
  "dot a b = (case a of (a1, a2, a3) \<Rightarrow> case b of (b1, b2, b3) \<Rightarrow> a1 * b1 + a2 * b2 + a3 * b3)"

definition norm3 :: "vec \<Rightarrow> real" where
  "norm3 a = (case a of (a1, a2, a3) \<Rightarrow> sqrt (a1 * a1 + a2 * a2 + a3 * a3))"

definition np_divide :: "real \<Rightarrow> real \<Rightarrow> npfloat" where
  "np_divide x y =
     (if y \<noteq> 0 then Num (x / y)
      else if x = 0 then NaN else if 0 < x then PosInf else NegInf)"

definition le_zero :: "npfloat \<Rightarrow> bool" where
  "le_zero c = (case c of Num x \<Rightarrow> x \<le> 0 | NegInf \<Rightarrow> True | PosInf \<Rightarrow> False | NaN \<Rightarrow> False)"

definition z_axis :: vec where
  "z_axis = (0, 0, 1)"

text \<open>\<^verbatim>\<open>cos = np.dot(new_coords, axis) / np.linalg.norm(new_coords)\<close>.\<close>

definition cosine :: "vec \<Rightarrow> vec \<Rightarrow> vec \<Rightarrow> npfloat" where
  "cosine atompos1 atompos2 axis =
     (let new_coords = vsub atompos1 atompos2
      in np_divide (dot new_coords axis) (norm3 new_coords))"

definition molecule_leaflet_orientation :: "vec \<Rightarrow> vec \<Rightarrow> nat" where
  "molecule_leaflet_orientation atompos1 atompos2 =
     (if le_zero (cosine atompos1 atompos2 z_axis) then 0 else 1)"

subsection \<open>\<^verbatim>\<open>create_leaflet_assignment_file\<close>\<close>

text \<open>
  A line of the coordinate file that the regular expression matches, by the groups
  the code reads: residue id, residue name (in upper case), atom name, coordinates.
\<close>

record gro_atom =
  a_resid :: int
  a_resname :: string
  a_atomname :: string
  a_coords :: vec

record assignment =
  old_resid :: int
  coord_head :: "vec option"
  coord_base :: "vec option"
  sum_upper :: nat
  sum_lower :: nat
  written :: "(int \<times> nat) list"

text \<open>\<^verbatim>\<open>scd_tail_atoms_of(resname)[0][-1]\<close>.\<close>

definition last_tail_atm_of :: "lipidmolecules \<Rightarrow> string \<Rightarrow> error + string" where
  "last_tail_atm_of lm resname =
     bind (scd_tail_atoms_of lm resname) (\<lambda>chains.
     bind (py_get chains 0) (\<lambda>chain. py_get chain (- 1)))"

text \<open>
  The block that closes a residue when the next one starts; subtracting with a
  position that is still \<^verbatim>\<open>None\<close> raises \<^verbatim>\<open>TypeError\<close>.
\<close>

definition close_residue :: "int \<Rightarrow> assignment \<Rightarrow> error + assignment" where
  "close_residue resid st =
     (case (coord_head st, coord_base st) of
        (Some h, Some b) \<Rightarrow>
          (let leaflet = molecule_leaflet_orientation h b
           in Inr (st \<lparr> sum_lower := (if leaflet \<noteq> 0 then sum_lower st + 1 else sum_lower st),
                         sum_upper := (if leaflet \<noteq> 0 then sum_upper st else sum_upper st + 1),
                         written := written st @ [(old_resid st, leaflet)],
                         old_resid := resid, coord_head := None, coord_base := None \<rparr>))
      | _ \<Rightarrow> Inl TypeError)"

definition gro_line :: "sysinfo \<Rightarrow> lipidmolecules \<Rightarrow> gro_atom \<Rightarrow> assignment \<Rightarrow> error + assignment" where
  "gro_line s lm a st0 =
     (let st = (if old_resid st0 = 0 then st0 \<lparr> old_resid := a_resid a \<rparr> else st0) in
      if a_resname a \<notin> set (molecules s) then Inr st
      else
        bind (last_tail_atm_of lm (a_resname a)) (\<lambda>last_tail_atm.
        bind (central_atom_of lm (a_resname a)) (\<lambda>head_atm.
        bind (if old_resid st \<noteq> a_resid a then close_residue (a_resid a) st else Inr st) (\<lambda>st1.
          let st2 = (if a_atomname a = head_atm then st1 \<lparr> coord_head := Some (a_coords a) \<rparr>
                     else st1)
          in Inr (if a_atomname a = last_tail_atm then st2 \<lparr> coord_base := Some (a_coords a) \<rparr>
                  else st2)))))"

fun gro_lines :: "sysinfo \<Rightarrow> lipidmolecules \<Rightarrow> gro_atom list \<Rightarrow> assignment \<Rightarrow> error + assignment" where
  "gro_lines s lm [] st = Inr st"
| "gro_lines s lm (a # as) st = bind (gro_line s lm a st) (gro_lines s lm as)"

text \<open>The block after the loop, for the last residue of the file.\<close>

definition last_residue :: "assignment \<Rightarrow> assignment" where
  "last_residue st =
     (case (coord_base st, coord_head st) of
        (Some b, Some h) \<Rightarrow>
          (if le_zero (cosine h b (0, 0, 1))
           then st \<lparr> sum_upper := sum_upper st + 1, written := written st @ [(old_resid st, 0)] \<rparr>
           else st \<lparr> sum_lower := sum_lower st + 1, written := written st @ [(old_resid st, 1)] \<rparr>)
      | _ \<Rightarrow> st)"

definition create_leaflet_assignment_file ::
  "sysinfo \<Rightarrow> lipidmolecules \<Rightarrow> gro_atom list \<Rightarrow> error + assignment" where
  "create_leaflet_assignment_file s lm matched =
     bind (gro_lines s lm matched
             \<lparr> old_resid = 0, coord_head = None, coord_base = None, sum_upper = 0,
               sum_lower = 0, written = [] \<rparr>)
       (\<lambda>st. Inr (last_residue st))"

subsection \<open>\<^verbatim>\<open>get_flipflop_events\<close>\<close>

text \<open>A row of \<^verbatim>\<open>leaflet_trajectory.csv\<close>.\<close>

record sample =
  s_resid :: int
  s_resname :: string
  s_leaflet :: int
  s_time :: real

text \<open>
  \<^verbatim>\<open>fr[fr.leaflet.diff().fillna(0) != 0]\<close>: the rows whose leaflet differs from the
  row before; the first row has no row before and is never one of them.
\<close>

fun changes :: "sample \<Rightarrow> sample list \<Rightarrow> sample list" where
  "changes prev [] = []"
| "changes prev (x # xs) =
     (if s_leaflet x - s_leaflet prev \<noteq> 0 then x # changes x xs else changes x xs)"

definition events_of :: "sample list \<Rightarrow> sample list" where
  "events_of fr = (case fr of [] \<Rightarrow> [] | x # xs \<Rightarrow> changes x xs)"

text \<open>
  \<^verbatim>\<open>ev[ev.time.diff().fillna(d) > thr]\<close>: the rows later than the row before by more
  than \<open>thr\<close>, the first row taken with the difference \<open>d\<close>.
\<close>

fun later_than :: "real \<Rightarrow> sample \<Rightarrow> sample list \<Rightarrow> sample list" where
  "later_than thr prev [] = []"
| "later_than thr prev (x # xs) =
     (if s_time x - s_time prev > thr then x # later_than thr x xs else later_than thr x xs)"

definition time_diff_filter :: "real \<Rightarrow> real \<Rightarrow> sample list \<Rightarrow> sample list" where
  "time_diff_filter thr d ev =
     (case ev of [] \<Rightarrow> []
      | x # xs \<Rightarrow> (if d > thr then x # later_than thr x xs else later_than thr x xs))"

definition split_times :: "sample list \<Rightarrow> real list" where
  "split_times ev = 0 # map s_time (time_diff_filter 10000 0 ev)"

text \<open>
  The loop over \<^verbatim>\<open>enumerate(split_times)\<close>: the events from \<open>left_val\<close> on, up to the
  next split time when there is one.
\<close>

fun windows :: "real list \<Rightarrow> sample list \<Rightarrow> sample list list" where
  "windows [] ev = []"
| "windows [left_val] ev = [filter (\<lambda>x. s_time x \<ge> left_val) ev]"
| "windows (left_val # right_val # rest) ev =
     filter (\<lambda>x. s_time x \<ge> left_val \<and> s_time x < right_val) ev # windows (right_val # rest) ev"

text \<open>
  \<^verbatim>\<open>dat.iloc[0]\<close> and \<^verbatim>\<open>dat.iloc[-1]\<close> raise \<^verbatim>\<open>IndexError\<close> on an empty frame; the pair is
  kept when both rows carry the same leaflet.
\<close>

definition round_trip :: "sample list \<Rightarrow> error + (sample \<times> sample) list" where
  "round_trip seg =
     (case seg of
        [] \<Rightarrow> Inl IndexError
      | x # xs \<Rightarrow>
          (let start = x; end_row = last (x # xs)
           in Inr (if s_leaflet start = s_leaflet end_row then [(start, end_row)] else [])))"

definition segments_of :: "sample list \<Rightarrow> sample list list" where
  "segments_of ev = windows (split_times ev) ev"

text \<open>One residue: its rows for \<^verbatim>\<open>frames1\<close> and its pairs for \<^verbatim>\<open>frames2\<close>.\<close>

definition residue_events ::
  "sample list \<Rightarrow> error + (sample list list \<times> (sample \<times> sample) list)" where
  "residue_events fr =
     (let ev = events_of fr in
      if ev = [] then Inr ([], [])
      else bind (collect (map round_trip (segments_of ev))) (\<lambda>pairs.
             Inr ([time_diff_filter 1000 1001 ev], concat pairs)))"

text \<open>\<^verbatim>\<open>dat.groupby("resid")\<close>: the groups by ascending key, the rows in file order.\<close>

definition groupby_resid :: "sample list \<Rightarrow> (int \<times> sample list) list" where
  "groupby_resid dat =
     map (\<lambda>r. (r, filter (\<lambda>x. s_resid x = r) dat)) (sort (remdups (map s_resid dat)))"

record round_trip_row =
  c_resid :: int
  c_resname :: string
  c_t_start :: real
  c_t_end :: real
  c_leaflet :: int

definition complete_row :: "sample \<times> sample \<Rightarrow> round_trip_row" where
  "complete_row l =
     \<lparr> c_resid = s_resid (fst l), c_resname = s_resname (fst l), c_t_start = s_time (fst l),
       c_t_end = s_time (snd l), c_leaflet = s_leaflet (snd l) \<rparr>"

text \<open>
  \<^verbatim>\<open>get_flipflop_events\<close>: the rows of \<^verbatim>\<open>flipflop_events.csv\<close> and of
  \<^verbatim>\<open>flipflop_complete.csv\<close>.  \<^verbatim>\<open>pd.concat\<close> raises on an empty list of frames, that
  is when no residue has an event.
\<close>

definition get_flipflop_events :: "sample list \<Rightarrow> error + sample list \<times> round_trip_row list" where
  "get_flipflop_events dat =
     bind (collect (map (\<lambda>g. residue_events (snd g)) (groupby_resid dat))) (\<lambda>rs.
       let frames1 = concat (map fst rs); frames2 = concat (map snd rs) in
       if frames1 = [] then Inl (ValueError ''No objects to concatenate'')
       else Inr (concat frames1, map complete_row frames2))"

section \<open>A small system to run the model on\<close>

text \<open>
  Four residues: two phospholipids (5 and 7), a cholesterol (8) and a valine of a
  protein (9).  Residue 5 has the neighbors 7 and 8 at time 0 and 8 and 9 at time 10.
\<close>

definition demo_sys :: sysinfo where
  "demo_sys =
     \<lparr> energypath = ''en/'', temppath = ''tmp'', indexpath = ''ndx'', datapath = ''dat'',
       toppath = ''topol.top'', gropath = ''conf.gro'', trjpath = ''traj.xtc'',
       tprpath = ''topol.tpr'',
       resid_to_lipid = [5 \<mapsto> ''DPPC'', 7 \<mapsto> ''DPPC'', 8 \<mapsto> ''CHL1'', 9 \<mapsto> ''VAL''],
       index_to_resid = [10 \<mapsto> 3, 11 \<mapsto> 3, 20 \<mapsto> 4],
       MOLRANGE = [5], molecules = [''DPPC'', ''CHL1''], RESNAMES = [''DPPC'', ''CHL1''],
       system = ''dppc_chol'', dt = 10, t_start = ''0'', t_end = ''100'', dt_str = ''10'',
       temperature = ''300'', cutoff = ''1.0'' \<rparr>"

definition demo_lm :: lipidmolecules where
  "demo_lm =
     \<lparr> STEROLS = [''CHL1'', ''ERG''], PROTEINS = [''VAL'', ''GLY''],
       central_atom_of = (\<lambda>r. Inr (if r = ''CHL1'' then ''O3'' else ''P'')),
       tailcarbons_of = (\<lambda>r. Inr [[''C22'', ''C23''], [''C32'', ''C33'']]),
       scd_tail_atoms_of = (\<lambda>r. Inr [[''C21'', ''C22''], [''C31'', ''C32'']]) \<rparr>"

definition demo_neibs :: neibdict where
  "demo_neibs = [5 \<mapsto> [(0, [7, 8]), (10, [8, 9])]]"

definition demo_init :: "string \<Rightarrow> error + energy" where
  "demo_init part_kw =
     Energy_init part_kw ''neighbor_info'' ''resindex_all'' False (Inr demo_sys) (Inr demo_neibs)"

text \<open>The instance \<^verbatim>\<open>Energy("carbons", overwrite=False)\<close> of this system.\<close>

definition demo_carbons :: energy where
  "demo_carbons =
     \<lparr> si = demo_sys, neiblist = demo_neibs, resindex_all = ''resindex_all'', overwrite = False,
       groupblocks = None, part = ''carbons'',
       molparts = [''resid_C0_'', ''resid_C1_'', ''resid_C2_'', ''resid_C3_'', ''resid_C4_'',
                   ''resid_C5_'', ''resid_C6_''],
       molparts_short = [''C0_'', ''C1_'', ''C2_'', ''C3_'', ''C4_'', ''C5_'', ''C6_''],
       denominator = 4, all_energies = ''all_energies_carbons.dat'' \<rparr>"

text \<open>The state after a file whose last residue, 5, has its head one unit above its tail end.\<close>

definition demo_last :: assignment where
  "demo_last =
     \<lparr> old_resid = 5, coord_head = Some (0, 0, 1), coord_base = Some (0, 0, 0), sum_upper = 0,
       sum_lower = 0, written = [] \<rparr>"

text \<open>
  The segmentation in the words of the specification: the change points in their
  order, cut between two consecutive ones whose times are more than 10000 apart.
\<close>

fun cut_gaps :: "sample list \<Rightarrow> sample list list" where
  "cut_gaps [] = []"
| "cut_gaps [x] = [[x]]"
| "cut_gaps (x # y # ys) =
     (if s_time y - s_time x > 10000 then [x] # cut_gaps (y # ys)
      else (x # hd (cut_gaps (y # ys))) # tl (cut_gaps (y # ys)))"

text \<open>The pairs the specification records: first and last change point of a segment with equal leaflets.\<close>

definition same_leaflet_ends :: "sample list list \<Rightarrow> (sample \<times> sample) list" where
  "same_leaflet_ends segs =
     concat (map (\<lambda>seg. if s_leaflet (hd seg) = s_leaflet (last seg) then [(hd seg, last seg)]
                         else []) segs)"

text \<open>
  The samples of one residue: leaflet 0 at time 0, a change to 1 at 100, back to 0 at
  200 and to 1 again at 15000.
\<close>

definition smp :: "real \<Rightarrow> int \<Rightarrow> sample" where
  "smp t l = \<lparr> s_resid = 1, s_resname = ''DPPC'', s_leaflet = l, s_time = t \<rparr>"

definition demo_samples :: "sample list" where
  "demo_samples = [smp 0 0, smp 100 1, smp 200 0, smp 15000 1]"

text \<open>An engine that prints nothing and fills every output file with the name of its sub-command.\<close>

definition demo_eng :: engine where
  "demo_eng =
     \<lparr> stdout = (\<lambda>cmd inp fs. []), stderr = (\<lambda>cmd inp fs. []),
       produce = (\<lambda>cmd inp fs p. Some (''written by '' @ cmd ! 1)) \<rparr>"

definition empty_world :: world where
  "empty_world = \<lparr> files = Map.empty, calls = [] \<rparr>"

definition known_refatoms :: "string list" where
  "known_refatoms = [''P'', ''bothtails'', ''glycerol'', ''tails_com'']"

text \<open>
  The invocations of the engine that name the file \<open>P\<close> among their output files, and
  what it means for a step from \<open>w\<close> to \<open>w'\<close> to leave \<open>P\<close> alone: the same content,
  and no new invocation that writes it.
\<close>

definition writers :: "string \<Rightarrow> world \<Rightarrow> (string list \<times> string option) list" where
  "writers P w = filter (\<lambda>c. normpath P \<in> set (map normpath (output_targets (fst c)))) (calls w)"

definition keeps :: "string \<Rightarrow> world \<Rightarrow> world \<Rightarrow> bool" where
  "keeps P w w' = (read_file w' P = read_file w P \<and> writers P w' = writers P w)"

text \<open>The instance \<^verbatim>\<open>Energy("complete", overwrite=False)\<close> of the small system.\<close>

definition demo_complete :: energy where
  "demo_complete =
     \<lparr> si = demo_sys, neiblist = demo_neibs, resindex_all = ''resindex_all'', overwrite = False,
       groupblocks = None, part = [], molparts = [''resid_''], molparts_short = [[]],
       denominator = 40, all_energies = ''all_energies.dat'' \<rparr>"

text \<open>A world in which the trace and the table of fragment 0 of residue 5 are there already.\<close>

definition demo_world :: world where
  "demo_world =
     \<lparr> files = [''en/edrfiles/energyfile_resid5_0.edr'' \<mapsto> ''first trace'',
                ''en/xvgtables/energies_residue5_0.xvg'' \<mapsto> ''first table''],
       calls = [] \<rparr>"

text \<open>
  A trajectory of two residues, frame by frame: residue 1 stays in leaflet 0 until it
  changes at 100, 200 and 15000; residue 2 never changes.
\<close>

definition smp2 :: "real \<Rightarrow> int \<Rightarrow> sample" where
  "smp2 t l = \<lparr> s_resid = 2, s_resname = ''CHL1'', s_leaflet = l, s_time = t \<rparr>"

definition demo_trajectory :: "sample list" where
  "demo_trajectory =
     [smp 0 0, smp2 0 1, smp 50 0, smp2 50 1, smp 100 1, smp2 100 1, smp 200 0, smp 15000 1]"

text \<open>Samples that start before time 0: a change at -200 and a change back at 100.\<close>

definition early_samples :: "sample list" where
  "early_samples = [smp (- 300) 0, smp (- 200) 1, smp 100 0]"

section \<open>The legends of an extraction table\<close>

text \<open>
  The line in the head of an extraction table that carries the \<open>k\<close>-th requested energy
  term: \<^verbatim>\<open>@ s<k> legend "<term>"\<close>, split at white space.  This is the form
  \<^verbatim>\<open>write_energyfile\<close> reads: it takes the number after the \<^verbatim>\<open>s\<close> of the second column
  and strips the quotes of the fourth.
\<close>

definition dq :: char where
  "dq = CHR 0x22"

definition legend_cols :: "nat \<Rightarrow> string \<Rightarrow> string list" where
  "legend_cols k term_label = [''@'', CHR ''s'' # str_nat k, ''legend'', dq # term_label @ [dq]]"

definition legend_of :: "nat \<Rightarrow> entry \<Rightarrow> xvgline" where
  "legend_of k x = Legend (legend_cols k (render x))"

text \<open>The energy type, host label and neighbor label that \<^verbatim>\<open>write_energyfile\<close> reads from the legend of an entry.\<close>

definition energytype_of :: "entry \<Rightarrow> string" where
  "energytype_of x = takeWhile (\<lambda>c. c \<noteq> CHR ''-'') (interaction x)"

definition host_label :: "entry \<Rightarrow> string" where
  "host_label x = drop 6 (parthost x) @ str_int (host_id x)"

definition neib_label :: "entry \<Rightarrow> string" where
  "neib_label x = drop 6 (partneib x) @ str_int (neib_id x)"

section \<open>Extraction tables of the small system\<close>

text \<open>
  Tables of residue 5 of the small system, whose neighbors of all times are 7, 8 and 9.
  In mode \<^verbatim>\<open>complete\<close>, a table that holds the terms of the neighbors 7 and 8 and
  none of neighbor 9:
\<close>

definition omitting_table :: "xvgline list" where
  "omitting_table =
     [Other,
      Legend (legend_cols 0 ''Coul-SR:resid_5-resid_7''),
      Legend (legend_cols 1 ''Coul-SR:resid_5-resid_8''),
      Legend (legend_cols 2 ''LJ-SR:resid_5-resid_7''),
      Legend (legend_cols 3 ''LJ-SR:resid_5-resid_8''),
      Data [Some 0, Some (-11), Some (-12), Some (-21), Some (-22)]]"

definition omitting_tables :: "string \<rightharpoonup> xvgline list" where
  "omitting_tables = [''en//xvgtables/energies_residue5_0.xvg'' \<mapsto> omitting_table]"

text \<open>The instance \<^verbatim>\<open>Energy("head-tail", overwrite=False)\<close> of the small system.\<close>

definition demo_headtail :: energy where
  "demo_headtail =
     \<lparr> si = demo_sys, neiblist = demo_neibs, resindex_all = ''resindex_all'', overwrite = False,
       groupblocks = None, part = ''head-tail'', molparts = [''resid_h_'', ''resid_t_''],
       molparts_short = [''h_'', ''t_''], denominator = 20,
       all_energies = ''all_energies_headtail.dat'' \<rparr>"

text \<open>
  The terms \<^verbatim>\<open>get_relev_energies\<close> requests for residue 5 in that mode, and the table
  with all of them, in the order of the request, and one line of values.
\<close>

definition headtail_terms :: "string list" where
  "headtail_terms =
     [''Coul-SR:resid_h_5-resid_h_7'',
      ''Coul-SR:resid_h_5-resid_t_7'',
      ''Coul-SR:resid_h_5-resid_8'',
      ''Coul-SR:resid_h_5-resid_9'',
      ''Coul-SR:resid_t_5-resid_h_7'',
      ''Coul-SR:resid_t_5-resid_t_7'',
      ''Coul-SR:resid_t_5-resid_8'',
      ''Coul-SR:resid_t_5-resid_9'',
      ''LJ-SR:resid_h_5-resid_h_7'',
      ''LJ-SR:resid_h_5-resid_t_7'',
      ''LJ-SR:resid_h_5-resid_8'',
      ''LJ-SR:resid_h_5-resid_9'',
      ''LJ-SR:resid_t_5-resid_h_7'',
      ''LJ-SR:resid_t_5-resid_t_7'',
      ''LJ-SR:resid_t_5-resid_8'',
      ''LJ-SR:resid_t_5-resid_9'']"

definition headtail_table :: "xvgline list" where
  "headtail_table =
     [Other,
      Legend (legend_cols 0 ''Coul-SR:resid_h_5-resid_h_7''),
      Legend (legend_cols 1 ''Coul-SR:resid_h_5-resid_t_7''),
      Legend (legend_cols 2 ''Coul-SR:resid_h_5-resid_8''),
      Legend (legend_cols 3 ''Coul-SR:resid_h_5-resid_9''),
      Legend (legend_cols 4 ''Coul-SR:resid_t_5-resid_h_7''),
      Legend (legend_cols 5 ''Coul-SR:resid_t_5-resid_t_7''),
      Legend (legend_cols 6 ''Coul-SR:resid_t_5-resid_8''),
      Legend (legend_cols 7 ''Coul-SR:resid_t_5-resid_9''),
      Legend (legend_cols 8 ''LJ-SR:resid_h_5-resid_h_7''),
      Legend (legend_cols 9 ''LJ-SR:resid_h_5-resid_t_7''),
      Legend (legend_cols 10 ''LJ-SR:resid_h_5-resid_8''),
      Legend (legend_cols 11 ''LJ-SR:resid_h_5-resid_9''),
      Legend (legend_cols 12 ''LJ-SR:resid_t_5-resid_h_7''),
      Legend (legend_cols 13 ''LJ-SR:resid_t_5-resid_t_7''),
      Legend (legend_cols 14 ''LJ-SR:resid_t_5-resid_8''),
      Legend (legend_cols 15 ''LJ-SR:resid_t_5-resid_9''),
      Data [Some 0, Some (- 1), Some (- 2), Some (- 3), Some (- 4), Some (- 5), Some (- 6), Some (- 7), Some (- 8), Some (- 9), Some (- 10), Some (- 11), Some (- 12), Some (- 13), Some (- 14), Some (- 15), Some (- 16)]]"

definition headtail_tables :: "string \<rightharpoonup> xvgline list" where
  "headtail_tables = [''en//xvgtables/energies_residue5_0head-tail.xvg'' \<mapsto> headtail_table]"

definition no_rows :: agg where
  "no_rows = \<lparr> res_to_row = Map.empty, processed_neibs = [], host = None, printed = [] \<rparr>"

text \<open>
  In mode \<^verbatim>\<open>complete\<close>, the table of residue 5 with the terms of all its neighbors, in the
  order of the request, and one line of values.
\<close>

definition complete_head :: "xvgline list" where
  "complete_head =
     [Other,
      Legend (legend_cols 0 ''Coul-SR:resid_5-resid_7''),
      Legend (legend_cols 1 ''Coul-SR:resid_5-resid_8''),
      Legend (legend_cols 2 ''Coul-SR:resid_5-resid_9''),
      Legend (legend_cols 3 ''LJ-SR:resid_5-resid_7''),
      Legend (legend_cols 4 ''LJ-SR:resid_5-resid_8''),
      Legend (legend_cols 5 ''LJ-SR:resid_5-resid_9'')]"

definition complete_table :: "xvgline list" where
  "complete_table =
     complete_head
       @ [Data [Some 0, Some (-11), Some (-12), Some (-13), Some (-21), Some (-22), Some (-23)]]"

definition complete_tables :: "string \<rightharpoonup> xvgline list" where
  "complete_tables = [''en//xvgtables/energies_residue5_0.xvg'' \<mapsto> complete_table]"

text \<open>The same table with its line of values cut short after the second column.\<close>

definition cut_table :: "xvgline list" where
  "cut_table = complete_head @ [Data [Some 0, Some (-11)]]"

definition cut_tables :: "string \<rightharpoonup> xvgline list" where
  "cut_tables = [''en//xvgtables/energies_residue5_0.xvg'' \<mapsto> cut_table]"

text \<open>The entries that \<^verbatim>\<open>get_relev_energies\<close> builds for residue 5 in the two modes.\<close>

definition term5 :: "string \<Rightarrow> string \<Rightarrow> string \<Rightarrow> int \<Rightarrow> entry" where
  "term5 ia ph pn n = \<lparr> interaction = ia, parthost = ph, host_id = 5, partneib = pn, neib_id = n \<rparr>"

definition complete_request :: "entry list" where
  "complete_request =
     [term5 ''Coul-SR:'' ''resid_'' ''resid_'' 7,
      term5 ''Coul-SR:'' ''resid_'' ''resid_'' 8,
      term5 ''Coul-SR:'' ''resid_'' ''resid_'' 9,
      term5 ''LJ-SR:'' ''resid_'' ''resid_'' 7,
      term5 ''LJ-SR:'' ''resid_'' ''resid_'' 8,
      term5 ''LJ-SR:'' ''resid_'' ''resid_'' 9]"

definition headtail_request_entries :: "entry list" where
  "headtail_request_entries =
     [term5 ''Coul-SR:'' ''resid_h_'' ''resid_h_'' 7,
      term5 ''Coul-SR:'' ''resid_h_'' ''resid_t_'' 7,
      term5 ''Coul-SR:'' ''resid_h_'' ''resid_'' 8,
      term5 ''Coul-SR:'' ''resid_h_'' ''resid_'' 9,
      term5 ''Coul-SR:'' ''resid_t_'' ''resid_h_'' 7,
      term5 ''Coul-SR:'' ''resid_t_'' ''resid_t_'' 7,
      term5 ''Coul-SR:'' ''resid_t_'' ''resid_'' 8,
      term5 ''Coul-SR:'' ''resid_t_'' ''resid_'' 9,
      term5 ''LJ-SR:'' ''resid_h_'' ''resid_h_'' 7,
      term5 ''LJ-SR:'' ''resid_h_'' ''resid_t_'' 7,
      term5 ''LJ-SR:'' ''resid_h_'' ''resid_'' 8,
      term5 ''LJ-SR:'' ''resid_h_'' ''resid_'' 9,
      term5 ''LJ-SR:'' ''resid_t_'' ''resid_h_'' 7,
      term5 ''LJ-SR:'' ''resid_t_'' ''resid_t_'' 7,
      term5 ''LJ-SR:'' ''resid_t_'' ''resid_'' 8,
      term5 ''LJ-SR:'' ''resid_t_'' ''resid_'' 9]"

section \<open>Exceptions in sequence\<close>

lemma bind_Inr [simp]: "bind (Inr x) f = f x"
  by (simp add: bind_def)

lemma bind_Inl [simp]: "bind (Inl x) f = Inl x"
  by (simp add: bind_def)

lemma bind_eq_Inr: "bind m f = Inr y \<longleftrightarrow> (\<exists>x. m = Inr x \<and> f x = Inr y)"
  by (cases m) simp_all

lemma bind_eq_Inl: "bind m f = Inl err \<longleftrightarrow> m = Inl err \<or> (\<exists>x. m = Inr x \<and> f x = Inl err)"
  by (cases m) simp_all

lemma collect_map_Inr [simp]: "collect (map Inr xs) = Inr xs"
  by (induction xs) simp_all

lemma collect_eq_Inr:
  "collect ms = Inr xs \<longleftrightarrow> ms = map Inr xs"
proof (induction ms arbitrary: xs)
  case Nil
  show ?case by auto
next
  case (Cons m ms)
  show ?case
  proof (cases m)
    case (Inl err)
    then show ?thesis by auto
  next
    case (Inr x)
    show ?thesis
    proof (cases "collect ms")
      case (Inl err)
      with Cons [of "[]"] Cons Inr show ?thesis
        by (cases xs) (auto simp: Cons)
    next
      case r: (Inr ys)
      with Cons [of ys] Inr show ?thesis by (cases xs) (auto simp: Cons)
    qed
  qed
qed

section \<open>The constructor and the fragment count\<close>

lemma number_of_groupfragments_ceiling:
  assumes "0 < D"
  shows "number_of_groupfragments N D = Inr \<lceil>real_of_int N / real_of_int D\<rceil>"
proof -
  have "\<lceil>real_of_int N / real_of_int D\<rceil> = - (- N div D)"
    by (rule ceiling_divide_eq_div)
  also have "\<dots> = (if N mod D = 0 then N div D else N div D + 1)"
    using assms by (simp add: zdiv_zminus1_eq_if)
  finally show ?thesis using assms by (simp add: number_of_groupfragments_def)
qed

text \<open>What the constructor leaves in the instance.\<close>

lemma Energy_init_Inr:
  assumes "Energy_init part_kw nf ri ovw sys_init nd = Inr e"
  obtains s nl where "sys_init = Inr s" "nd = Inr nl" "part_kw \<in> set knownparts"
    "si e = s" "neiblist e = nl" "overwrite e = ovw" "resindex_all e = ri"
proof -
  from assms obtain s where s: "sys_init = Inr s"
    by (cases sys_init) (simp_all add: Energy_init_def)
  from assms s have k: "part_kw \<in> set knownparts"
    by (simp add: Energy_init_def split: if_splits)
  from assms s k obtain nl where nl: "nd = Inr nl"
    by (cases nd) (simp_all add: Energy_init_def)
  from assms s k nl have "si e = s \<and> neiblist e = nl \<and> overwrite e = ovw \<and> resindex_all e = ri"
    by (simp add: Energy_init_def Let_def split: if_splits) (erule subst, simp)+
  with s nl k that show ?thesis by blast
qed

lemma Energy_init_modes:
  assumes "Energy_init part_kw nf ri ovw sys_init nd = Inr e"
  shows "part_kw = ''complete'' \<and> molparts e = [''resid_''] \<and> denominator e = 40 \<and> part e = []
       \<or> part_kw = ''head-tail'' \<and> molparts e = [''resid_h_'', ''resid_t_'']
            \<and> denominator e = 20 \<and> part e = ''head-tail''
       \<or> part_kw = ''head-tailhalfs'' \<and> molparts e = [''resid_h_'', ''resid_t12_'', ''resid_t22_'']
            \<and> denominator e = 10 \<and> part e = ''head-tailhalfs''
       \<or> part_kw = ''carbons'' \<and> molparts e = map (\<lambda>i. ''resid_C'' @ str_nat i @ ''_'') [0..<7]
            \<and> denominator e = 4 \<and> part e = ''carbons''"
proof -
  from assms obtain s where s: "sys_init = Inr s"
    by (cases sys_init) (simp_all add: Energy_init_def)
  from assms s have k: "part_kw \<in> set knownparts"
    by (simp add: Energy_init_def split: if_splits)
  from assms s k obtain nl where nl: "nd = Inr nl"
    by (cases nd) (simp_all add: Energy_init_def)
  consider "part_kw = ''complete''" | "part_kw = ''head-tail''" | "part_kw = ''head-tailhalfs''"
    | "part_kw = ''carbons''"
    using k by (auto simp: knownparts_def)
  then show ?thesis
  proof cases
    case 1
    with assms s k nl show ?thesis
      by (simp add: Energy_init_def DENOMINATOR_def Let_def) (erule subst, simp)
  next
    case 2
    with assms s k nl show ?thesis
      by (simp add: Energy_init_def DENOMINATOR_def Let_def) (erule subst, simp)
  next
    case 3
    with assms s k nl show ?thesis
      by (simp add: Energy_init_def DENOMINATOR_def Let_def) (erule subst, simp)
  next
    case 4
    with assms s k nl show ?thesis
      by (simp add: Energy_init_def DENOMINATOR_def Let_def del: upt.simps map_append)
        (erule subst, simp del: upt.simps)
  qed
qed

lemma Energy_init_denominator:
  assumes "Energy_init part_kw nf ri ovw sys_init nd = Inr e"
  shows "0 < denominator e"
  using Energy_init_modes [OF assms] by auto

lemma str_nat_digit: "n < 10 \<Longrightarrow> str_nat n = [digit_char n]"
  by (simp add: str_nat.simps)

lemma demo_init_carbons: "demo_init ''carbons'' = Inr demo_carbons"
  by (simp add: demo_init_def Energy_init_def knownparts_def Let_def DENOMINATOR_def upt_rec
      demo_carbons_def str_nat_digit digit_char_def)

lemma demo_all_neibs: "all_neibs_of_res demo_neibs 5 = Inr [7, 8, 9]"
  by (simp add: all_neibs_of_res_def demo_neibs_def)

text \<open>
  C2 (as amended).  For an instance that \<^verbatim>\<open>Energy.__init__\<close> built and a residue with the
  all-time neighbor list \<open>ns\<close> (without repetition), the fragment indices that
  \<^verbatim>\<open>run_calculation\<close>, \<^verbatim>\<open>write_energyfile\<close> and \<^verbatim>\<open>check_exist_xvgs\<close> loop over are
  \<open>0, \<dots>, n - 1\<close> with \<open>n\<close> the ceiling of \<open>length ns / denominator\<close>; 85 neighbors with
  denominator 40 give 3 fragments, and no neighbor gives no fragment at all.
\<close>

theorem fragment_count_ceiling:
  assumes "Energy_init part_kw nf ri ovw sys_init nd = Inr e"
      and "all_neibs_of_res (neiblist e) res = Inr ns"
  shows "groupfragments e res
           = Inr (py_range \<lceil>real (length ns) / real_of_int (denominator e)\<rceil>)
       \<and> number_of_groupfragments 85 40 = Inr 3
       \<and> number_of_groupfragments 0 (denominator e) = Inr 0"
proof -
  have D: "0 < denominator e" by (rule Energy_init_denominator [OF assms(1)])
  have "number_of_groupfragments (int (length ns)) (denominator e)
          = Inr \<lceil>real (length ns) / real_of_int (denominator e)\<rceil>"
    using number_of_groupfragments_ceiling [OF D, of "int (length ns)"] by simp
  then have "groupfragments e res
           = Inr (py_range \<lceil>real (length ns) / real_of_int (denominator e)\<rceil>)"
    using assms(2) by (simp add: groupfragments_def)
  moreover have "number_of_groupfragments 85 40 = Inr 3"
    by (simp add: number_of_groupfragments_def)
  moreover have "number_of_groupfragments 0 (denominator e) = Inr 0"
    using D by (simp add: number_of_groupfragments_def)
  ultimately show ?thesis by simp
qed

text \<open>Residue 5 of the small system in mode \<^verbatim>\<open>carbons\<close>: three neighbors, one fragment.\<close>

theorem fragment_count_ceiling_witness:
  "demo_init ''carbons'' = Inr demo_carbons
   \<and> all_neibs_of_res (neiblist demo_carbons) 5 = Inr [7, 8, 9]
   \<and> groupfragments demo_carbons 5 = Inr [0]"
proof -
  have i: "Energy_init ''carbons'' ''neighbor_info'' ''resindex_all'' False (Inr demo_sys)
             (Inr demo_neibs) = Inr demo_carbons"
    using demo_init_carbons by (simp add: demo_init_def)
  have n: "all_neibs_of_res (neiblist demo_carbons) 5 = Inr [7, 8, 9]"
    using demo_all_neibs by (simp add: demo_carbons_def)
  have "\<lceil>real (length [7::int, 8, 9]) / real_of_int (denominator demo_carbons)\<rceil> = 1"
    by (simp add: demo_carbons_def)
  with fragment_count_ceiling [OF i n] have "groupfragments demo_carbons 5 = Inr (py_range 1)"
    by simp
  then show ?thesis using demo_init_carbons n by (simp add: py_range_def)
qed

text \<open>
  The claim as written gives a residue without neighbors one fragment; the code gives
  it none: \<open>0 mod 40 = 0\<close>, so the count is \<open>0 div 40\<close>.
\<close>

theorem fragment_count_empty_counterexample:
  "number_of_groupfragments 0 40 = Inr 0 \<and> number_of_groupfragments 0 40 \<noteq> Inr 1
   \<and> py_range 0 = []"
  by (simp add: number_of_groupfragments_def py_range_def)

section \<open>The orientation rule\<close>

lemma norm3_nonneg: "0 \<le> norm3 v"
  by (cases v) (simp add: norm3_def)

lemma norm3_eq_0: "norm3 (a, b, c) = 0 \<longleftrightarrow> a = 0 \<and> b = 0 \<and> c = 0"
proof -
  have "a * a + b * b + c * c = 0 \<longleftrightarrow> a = 0 \<and> b = 0 \<and> c = 0"
    by (smt (verit) mult_eq_0_iff zero_le_square)
  then show ?thesis by (simp add: norm3_def)
qed

lemma vsub_zero: "vsub h t = (0, 0, 0) \<longleftrightarrow> h = t"
  by (cases h, cases t) (simp add: vsub_def)

lemma dot_z_axis: "dot (vsub h t) z_axis = snd (snd h) - snd (snd t)"
  by (cases h, cases t) (simp add: vsub_def dot_def z_axis_def)

lemma cosine_same: "cosine h h z_axis = NaN"
proof -
  have "vsub h h = (0, 0, 0)" by (simp add: vsub_zero)
  then show ?thesis by (simp add: cosine_def Let_def dot_def z_axis_def norm3_def np_divide_def)
qed

lemma cosine_apart:
  assumes "h \<noteq> t"
  shows "cosine h t z_axis = Num ((snd (snd h) - snd (snd t)) / norm3 (vsub h t))"
    and "0 < norm3 (vsub h t)"
proof -
  obtain a b c where v: "vsub h t = (a, b, c)" by (cases "vsub h t")
  with assms have "\<not> (a = 0 \<and> b = 0 \<and> c = 0)" using vsub_zero [of h t] by auto
  then have "norm3 (vsub h t) \<noteq> 0" using v norm3_eq_0 [of a b c] by simp
  then show pos: "0 < norm3 (vsub h t)" using norm3_nonneg [of "vsub h t"] by simp
  then show "cosine h t z_axis = Num ((snd (snd h) - snd (snd t)) / norm3 (vsub h t))"
    by (simp add: cosine_def Let_def np_divide_def dot_z_axis)
qed

lemma orientation_by_height:
  "molecule_leaflet_orientation h t = (if h \<noteq> t \<and> snd (snd h) \<le> snd (snd t) then 0 else 1)"
proof (cases "h = t")
  case True
  then show ?thesis by (simp add: molecule_leaflet_orientation_def cosine_same le_zero_def)
next
  case False
  from cosine_apart [OF False]
  have "le_zero (cosine h t z_axis) \<longleftrightarrow> snd (snd h) - snd (snd t) \<le> 0"
    by (simp add: le_zero_def divide_le_0_iff)
  with False show ?thesis by (simp add: molecule_leaflet_orientation_def)
qed

lemma last_residue_orientation:
  assumes "coord_head st = Some h" "coord_base st = Some b"
  shows "written (last_residue st) = written st @ [(old_resid st, molecule_leaflet_orientation h b)]"
  using assms by (simp add: last_residue_def molecule_leaflet_orientation_def z_axis_def)

text \<open>
  C1 (as amended).  \<^verbatim>\<open>molecule_leaflet_orientation\<close> takes the cosine of head - tail with
  the axis (0,0,1) and returns 0 when the cosine is at most 0 and 1 otherwise (also
  when the cosine is \<^verbatim>\<open>nan\<close>): a vector with positive z-component gives 1, a cosine of
  exactly 0 gives 0.  The block that closes the last residue in
  \<^verbatim>\<open>create_leaflet_assignment_file\<close> writes the same label.
\<close>

theorem orientation_rule:
  "molecule_leaflet_orientation h t = (if le_zero (cosine h t z_axis) then 0 else 1)
   \<and> (snd (snd t) < snd (snd h) \<longrightarrow> molecule_leaflet_orientation h t = 1)
   \<and> (cosine h t z_axis = Num 0 \<longrightarrow> molecule_leaflet_orientation h t = 0)
   \<and> (coord_head st = Some h \<and> coord_base st = Some t \<longrightarrow>
        written (last_residue st) = written st @ [(old_resid st, molecule_leaflet_orientation h t)])"
proof -
  have "snd (snd t) < snd (snd h) \<longrightarrow> molecule_leaflet_orientation h t = 1"
    by (simp add: orientation_by_height)
  moreover have "cosine h t z_axis = Num 0 \<longrightarrow> molecule_leaflet_orientation h t = 0"
    by (simp add: molecule_leaflet_orientation_def le_zero_def)
  moreover have "molecule_leaflet_orientation h t = (if le_zero (cosine h t z_axis) then 0 else 1)"
    by (simp add: molecule_leaflet_orientation_def)
  ultimately show ?thesis using last_residue_orientation by blast
qed

lemma cosine_up: "cosine (0, 0, 1) (0, 0, 0) z_axis = Num 1"
  by (simp add: cosine_def vsub_def dot_def norm3_def np_divide_def z_axis_def)

lemma cosine_flat: "cosine (1, 0, 0) (0, 0, 0) z_axis = Num 0"
  by (simp add: cosine_def vsub_def dot_def norm3_def np_divide_def z_axis_def)

text \<open>Head above tail gives 1, head beside tail gives 0, and the last row of a file.\<close>

theorem orientation_rule_witness:
  "molecule_leaflet_orientation (0, 0, 1) (0, 0, 0) = 1
   \<and> cosine (1, 0, 0) (0, 0, 0) z_axis = Num 0
   \<and> molecule_leaflet_orientation (1, 0, 0) (0, 0, 0) = 0
   \<and> written (last_residue demo_last) = [(5, 1)]"
proof -
  have "molecule_leaflet_orientation (0, 0, 1) (0, 0, 0) = 1"
    using orientation_rule [of "(0, 0, 1)" "(0, 0, 0)" demo_last] by simp
  moreover have "molecule_leaflet_orientation (1, 0, 0) (0, 0, 0) = 0"
    using orientation_rule [of "(1, 0, 0)" "(0, 0, 0)" demo_last] cosine_flat by simp
  moreover have "written (last_residue demo_last)
      = written demo_last @ [(old_resid demo_last, molecule_leaflet_orientation (0, 0, 1) (0, 0, 0))]"
    using orientation_rule [of "(0, 0, 1)" "(0, 0, 0)" demo_last] by (simp add: demo_last_def)
  ultimately show ?thesis using cosine_flat by (simp add: demo_last_def)
qed

text \<open>
  The claim as written has the labels the other way round: it gives 0 to a vector that
  points up and 1 to a cosine of 0.
\<close>

theorem orientation_rule_counterexample:
  "molecule_leaflet_orientation (0, 0, 1) (0, 0, 0) \<noteq> 0
   \<and> cosine (1, 0, 0) (0, 0, 0) z_axis = Num 0
   \<and> molecule_leaflet_orientation (1, 0, 0) (0, 0, 0) \<noteq> 1"
  by (simp add: molecule_leaflet_orientation_def cosine_up cosine_flat le_zero_def)

section \<open>Flip-flop events\<close>

lemma cut_gaps_nonempty: "cut_gaps (x # xs) \<noteq> []"
  by (cases xs) simp_all

lemma cut_gaps_no_empty_segment: "[] \<notin> set (cut_gaps xs)"
proof (induction xs rule: cut_gaps.induct)
  case (3 x y ys)
  then show ?case
    using cut_gaps_nonempty [of y ys] by (auto dest: list.set_sel(2))
qed simp_all

lemma windows_last: "windows [l] ev = [filter (\<lambda>x. s_time x \<ge> l) ev]"
  by simp

lemma windows_step:
  "windows (l # r # rest) ev
     = filter (\<lambda>x. s_time x \<ge> l \<and> s_time x < r) ev # windows (r # rest) ev"
  by simp

text \<open>
  The windows of the code against the cuts of the specification, with the events before
  the current window (\<open>pre\<close>) and the part of the current segment already passed
  (\<open>cur\<close>) made explicit.
\<close>

lemma windows_cut_gaps:
  assumes "sorted (map s_time (pre @ cur @ x # xs))"
      and "\<forall>p \<in> set pre. s_time p < l"
      and "\<forall>c \<in> set cur. l \<le> s_time c"
      and "l \<le> s_time x"
  shows "windows (l # map s_time (later_than 10000 x xs)) (pre @ cur @ x # xs)
           = (cur @ hd (cut_gaps (x # xs))) # tl (cut_gaps (x # xs))"
  using assms
proof (induction xs arbitrary: pre cur x l)
  case Nil
  have "filter (\<lambda>y. l \<le> s_time y) pre = []" using Nil.prems(2) by (auto simp: filter_empty_conv)
  moreover have "filter (\<lambda>y. l \<le> s_time y) cur = cur" using Nil.prems(3) by (auto simp: filter_id_conv)
  ultimately show ?case using Nil.prems(4) by simp
next
  case (Cons y ys)
  have srt: "sorted (map s_time (pre @ cur @ x # y # ys))" using Cons.prems(1) .
  have xy: "s_time x \<le> s_time y" using srt by (simp add: sorted_append)
  have cur_le: "\<forall>c \<in> set cur. s_time c \<le> s_time x" using srt by (auto simp: sorted_append)
  have rest_ge: "\<forall>z \<in> set ys. s_time y \<le> s_time z" using srt by (auto simp: sorted_append)
  show ?case
  proof (cases "s_time y - s_time x > 10000")
    case True
    let ?full = "pre @ cur @ x # y # ys"
    have f1: "filter (\<lambda>z. l \<le> s_time z \<and> s_time z < s_time y) pre = []"
      using Cons.prems(2) by (auto simp: filter_empty_conv)
    have f2: "filter (\<lambda>z. l \<le> s_time z \<and> s_time z < s_time y) cur = cur"
      using Cons.prems(3) cur_le True by (auto simp: filter_id_conv)
    have f3: "filter (\<lambda>z. l \<le> s_time z \<and> s_time z < s_time y) ys = []"
      using rest_ge by (auto simp: filter_empty_conv)
    have first: "filter (\<lambda>z. l \<le> s_time z \<and> s_time z < s_time y) ?full = cur @ [x]"
      using f1 f2 f3 Cons.prems(4) True by simp
    have pre': "\<forall>p \<in> set (pre @ cur @ [x]). s_time p < s_time y"
      using Cons.prems(2,4) cur_le True by fastforce
    have "windows (s_time y # map s_time (later_than 10000 y ys)) ((pre @ cur @ [x]) @ [] @ y # ys)
            = ([] @ hd (cut_gaps (y # ys))) # tl (cut_gaps (y # ys))"
      by (rule Cons.IH) (use srt pre' in simp_all)
    then have rest: "windows (s_time y # map s_time (later_than 10000 y ys)) ?full = cut_gaps (y # ys)"
      using cut_gaps_nonempty [of y ys] by simp
    have "windows (l # map s_time (later_than 10000 x (y # ys))) ?full
            = (cur @ [x]) # cut_gaps (y # ys)"
      using True first rest by (simp del: windows.simps add: windows_step)
    then show ?thesis using True by simp
  next
    case False
    have cur': "\<forall>c \<in> set (cur @ [x]). l \<le> s_time c" using Cons.prems(3,4) by simp
    have "l \<le> s_time y" using Cons.prems(4) xy by simp
    with cur' srt Cons.prems(2)
    have "windows (l # map s_time (later_than 10000 y ys)) (pre @ (cur @ [x]) @ y # ys)
            = ((cur @ [x]) @ hd (cut_gaps (y # ys))) # tl (cut_gaps (y # ys))"
      by (intro Cons.IH) simp_all
    then show ?thesis using False by simp
  qed
qed

lemma segments_of_cut_gaps:
  assumes "sorted (map s_time ev)" and "\<forall>x \<in> set ev. 0 \<le> s_time x" and "ev \<noteq> []"
  shows "segments_of ev = cut_gaps ev"
proof -
  from assms(3) obtain x xs where ev: "ev = x # xs" by (cases ev) auto
  have "windows (0 # map s_time (later_than 10000 x xs)) ([] @ [] @ x # xs)
          = ([] @ hd (cut_gaps (x # xs))) # tl (cut_gaps (x # xs))"
    by (rule windows_cut_gaps) (use assms ev in simp_all)
  then show ?thesis
    using cut_gaps_nonempty [of x xs] by (simp add: ev segments_of_def split_times_def time_diff_filter_def)
qed

lemma changes_subset: "set (changes p xs) \<subseteq> set xs"
  by (induction xs arbitrary: p) auto

lemma changes_sorted:
  "sorted (map s_time (p # xs)) \<Longrightarrow> sorted (map s_time (changes p xs))"
proof (induction xs arbitrary: p)
  case Nil
  show ?case by simp
next
  case (Cons x xs)
  have "sorted (map s_time (x # xs))" using Cons.prems by simp
  then have ih: "sorted (map s_time (changes x xs))" by (rule Cons.IH)
  have "\<forall>y \<in> set (changes x xs). s_time x \<le> s_time y"
    using Cons.prems changes_subset [of x xs] by auto
  with ih show ?case by simp
qed

lemma events_of_sorted:
  assumes "sorted (map s_time fr)"
  shows "sorted (map s_time (events_of fr))" and "set (events_of fr) \<subseteq> set fr"
proof -
  show "sorted (map s_time (events_of fr))"
    using assms changes_sorted by (cases fr) (simp_all add: events_of_def)
  show "set (events_of fr) \<subseteq> set fr"
    using changes_subset by (cases fr) (auto simp: events_of_def)
qed

lemma round_trip_nonempty:
  "seg \<noteq> [] \<Longrightarrow> round_trip seg
     = Inr (if s_leaflet (hd seg) = s_leaflet (last seg) then [(hd seg, last seg)] else [])"
  by (cases seg) (simp_all add: round_trip_def Let_def)

lemma collect_round_trips:
  assumes "[] \<notin> set segs"
  shows "collect (map round_trip segs)
           = Inr (map (\<lambda>seg. if s_leaflet (hd seg) = s_leaflet (last seg) then [(hd seg, last seg)]
                               else []) segs)"
  using assms
proof (induction segs)
  case Nil
  show ?case by simp
next
  case (Cons seg segs)
  then have "seg \<noteq> []" "[] \<notin> set segs" by auto
  with Cons.IH show ?case by (simp add: round_trip_nonempty)
qed

text \<open>
  One residue whose samples are in time order, with no negative time: the pairs kept
  are the first and last change point of the gap-cut segments with equal leaflets.
\<close>

lemma residue_events_segmentation:
  assumes "sorted (map s_time fr)" and "\<forall>x \<in> set fr. 0 \<le> s_time x"
  shows "residue_events fr
           = Inr (if events_of fr = [] then [] else [time_diff_filter 1000 1001 (events_of fr)],
                  same_leaflet_ends (cut_gaps (events_of fr)))"
proof (cases "events_of fr = []")
  case True
  then show ?thesis by (simp add: residue_events_def same_leaflet_ends_def)
next
  case False
  let ?ev = "events_of fr"
  have "sorted (map s_time ?ev)" using assms(1) by (rule events_of_sorted)
  moreover have "\<forall>x \<in> set ?ev. 0 \<le> s_time x"
    using assms(1,2) events_of_sorted(2) by blast
  ultimately have seg: "segments_of ?ev = cut_gaps ?ev"
    using False by (rule segments_of_cut_gaps)
  have "collect (map round_trip (cut_gaps ?ev))
          = Inr (map (\<lambda>seg. if s_leaflet (hd seg) = s_leaflet (last seg) then [(hd seg, last seg)]
                              else []) (cut_gaps ?ev))"
    by (rule collect_round_trips) (rule cut_gaps_no_empty_segment)
  then show ?thesis
    using False seg by (simp add: residue_events_def Let_def same_leaflet_ends_def)
qed

lemma demo_events: "events_of demo_samples = [smp 100 1, smp 200 0, smp 15000 1]"
  by (simp add: events_of_def demo_samples_def smp_def)

lemma demo_cut_gaps:
  "cut_gaps [smp 100 1, smp 200 0, smp 15000 1] = [[smp 100 1, smp 200 0], [smp 15000 1]]"
  by (simp add: smp_def)

text \<open>
  C10.  Whenever \<^verbatim>\<open>get_flipflop_events\<close> returns, every segment of a residue that holds
  exactly one change point is a row of the round-trip table, with the time of that
  change point as start and as end.
\<close>

theorem single_change_recorded:
  assumes "get_flipflop_events dat = Inr (final1, final2)"
      and "g \<in> set (groupby_resid dat)"
      and "[x] \<in> set (segments_of (events_of (snd g)))"
  shows "\<lparr> c_resid = s_resid x, c_resname = s_resname x, c_t_start = s_time x,
           c_t_end = s_time x, c_leaflet = s_leaflet x \<rparr> \<in> set final2"
proof -
  from assms(1) obtain rs where
    rs: "collect (map (\<lambda>g. residue_events (snd g)) (groupby_resid dat)) = Inr rs"
    and fin: "final2 = map complete_row (concat (map snd rs))"
    by (auto simp: get_flipflop_events_def bind_eq_Inr Let_def split: if_splits)
  from rs have m: "map (\<lambda>g. residue_events (snd g)) (groupby_resid dat) = map Inr rs"
    by (simp add: collect_eq_Inr)
  have "residue_events (snd g) \<in> set (map (\<lambda>g. residue_events (snd g)) (groupby_resid dat))"
    using assms(2) by auto
  with m obtain r where r: "r \<in> set rs" "residue_events (snd g) = Inr r" by auto
  let ?ev = "events_of (snd g)"
  have ev: "?ev \<noteq> []"
  proof
    assume "?ev = []"
    with assms(3) show False by (simp add: segments_of_def split_times_def time_diff_filter_def)
  qed
  with r(2) obtain pairs where
    pairs: "collect (map round_trip (segments_of ?ev)) = Inr pairs" and sr: "snd r = concat pairs"
    by (auto simp: residue_events_def Let_def bind_eq_Inr)
  from pairs have "map round_trip (segments_of ?ev) = map Inr pairs" by (simp add: collect_eq_Inr)
  moreover have "round_trip [x] \<in> set (map round_trip (segments_of ?ev))"
    using assms(3) by auto
  ultimately have "round_trip [x] \<in> set (map Inr pairs)" by simp
  then have "[(x, x)] \<in> set pairs" by (auto simp: round_trip_def)
  then have "(x, x) \<in> set (concat pairs)"
    unfolding set_concat by (intro UN_I [of "[(x, x)]"]) simp_all
  then have "(x, x) \<in> set (snd r)" using sr by simp
  with r(1) have "(x, x) \<in> set (concat (map snd rs))" by auto
  then have "complete_row (x, x) \<in> set final2" using fin by auto
  then show ?thesis by (simp add: complete_row_def)
qed

text \<open>
  The residue of the example: its last change, at 15000, is a segment of its own and is
  written as a round trip from 15000 to 15000.
\<close>

theorem single_change_recorded_witness:
  "get_flipflop_events demo_samples
     = Inr ([smp 100 1, smp 15000 1],
            [\<lparr> c_resid = 1, c_resname = ''DPPC'', c_t_start = 15000, c_t_end = 15000,
               c_leaflet = 1 \<rparr>])
   \<and> (1, demo_samples) \<in> set (groupby_resid demo_samples)
   \<and> [smp 15000 1] \<in> set (segments_of (events_of (snd (1 :: int, demo_samples))))
   \<and> \<lparr> c_resid = s_resid (smp 15000 1), c_resname = s_resname (smp 15000 1),
        c_t_start = s_time (smp 15000 1), c_t_end = s_time (smp 15000 1),
        c_leaflet = s_leaflet (smp 15000 1) \<rparr>
       \<in> set [\<lparr> c_resid = 1, c_resname = ''DPPC'', c_t_start = 15000, c_t_end = 15000,
                c_leaflet = 1 \<rparr>]"
proof -
  have g: "groupby_resid demo_samples = [(1, demo_samples)]"
    by (simp add: groupby_resid_def demo_samples_def smp_def)
  have sg: "segments_of [smp 100 1, smp 200 0, smp 15000 1] = [[smp 100 1, smp 200 0], [smp 15000 1]]"
    by (simp add: segments_of_def split_times_def time_diff_filter_def smp_def)
  have re: "residue_events demo_samples = Inr ([[smp 100 1, smp 15000 1]], [(smp 15000 1, smp 15000 1)])"
    by (simp add: residue_events_def demo_events sg) (simp add: round_trip_def time_diff_filter_def smp_def Let_def)
  have run: "get_flipflop_events demo_samples
     = Inr ([smp 100 1, smp 15000 1],
            [\<lparr> c_resid = 1, c_resname = ''DPPC'', c_t_start = 15000, c_t_end = 15000,
               c_leaflet = 1 \<rparr>])"
    by (simp add: get_flipflop_events_def g re) (simp add: complete_row_def smp_def)
  have mem: "(1, demo_samples) \<in> set (groupby_resid demo_samples)" by (simp add: g)
  have seg: "[smp 15000 1] \<in> set (segments_of (events_of (snd (1 :: int, demo_samples))))"
    by (simp add: demo_events sg)
  from single_change_recorded [OF run mem seg] run mem seg show ?thesis by simp
qed

section \<open>Validation of the part keyword and of the reference strategy\<close>

lemma selection_text_unknown:
  assumes "refatoms \<notin> set known_refatoms"
  shows "selection_text s lm resid refatoms hs ns
           = Inl (ValueError (''Wrong input for refatoms with: '' @ refatoms))"
  using assms by (simp add: selection_text_def known_refatoms_def)

lemma create_selectionfile_unknown:
  assumes "refatoms \<notin> set known_refatoms"
      and "resid_to_lipid s resid = Some hosttype" and "hosttype \<in> set (molecules s)"
  shows "\<exists>err. fst (create_selectionfile_neighborsearch s lm resid refatoms w) = Inl err"
proof (cases "central_atom_of lm hosttype")
  case (Inl err)
  with assms show ?thesis by (simp add: create_selectionfile_neighborsearch_def)
next
  case atm: (Inr atm)
  show ?thesis
  proof (cases "collect (map (resname_clause lm) (RESNAMES s))")
    case (Inl err)
    with assms atm show ?thesis by (simp add: create_selectionfile_neighborsearch_def)
  next
    case (Inr clauses)
    with assms atm show ?thesis
      by (simp add: create_selectionfile_neighborsearch_def Let_def selection_text_unknown)
  qed
qed

lemma create_selectionfile_unknown_ValueError:
  assumes "refatoms \<notin> set known_refatoms"
      and "resid_to_lipid s resid = Some hosttype" and "hosttype \<in> set (molecules s)"
      and "central_atom_of lm hosttype = Inr atm"
      and "collect (map (resname_clause lm) (RESNAMES s)) = Inr clauses"
  shows "create_selectionfile_neighborsearch s lm resid refatoms w
           = (Inl (ValueError (''Wrong input for refatoms with: '' @ refatoms)),
              write_file (temppath s @ ''/sf'') [] w)"
  using assms by (simp add: create_selectionfile_neighborsearch_def Let_def selection_text_unknown)

lemma residue_neighbors_unknown:
  assumes "refatoms \<notin> set known_refatoms"
      and "resid_to_lipid s resid = Some hosttype" and "hosttype \<in> set (molecules s)"
  shows "\<exists>err. residue_neighbors eng s lm refatoms ovw resid w = Inl err"
proof -
  obtain r w1 where rw: "create_selectionfile_neighborsearch s lm resid refatoms w = (r, w1)"
    by (cases "create_selectionfile_neighborsearch s lm resid refatoms w")
  with create_selectionfile_unknown [OF assms, of lm w] obtain err where "r = Inl err" by auto
  with rw assms(2) show ?thesis by (simp add: residue_neighbors_def)
qed

lemma neighbors_loop_unknown:
  assumes "refatoms \<notin> set known_refatoms"
      and "resid_to_lipid s resid = Some hosttype" and "hosttype \<in> set (molecules s)"
      and "resid \<in> set rs"
  shows "\<exists>err. neighbors_loop eng s lm refatoms ovw rs w = Inl err"
  using assms(4)
proof (induction rs arbitrary: w)
  case Nil
  then show ?case by simp
next
  case (Cons r rs)
  show ?case
  proof (cases "residue_neighbors eng s lm refatoms ovw r w")
    case (Inl err)
    then show ?thesis by simp
  next
    case (Inr rw)
    obtain rows w1 where rw: "rw = (rows, w1)" by (cases rw)
    have "r \<noteq> resid" using residue_neighbors_unknown [OF assms(1-3), where eng = eng and lm = lm and ovw = ovw and w = w] Inr by auto
    with Cons.prems have "resid \<in> set rs" by simp
    then obtain err where "neighbors_loop eng s lm refatoms ovw rs w1 = Inl err"
      using Cons.IH by blast
    with Inr rw show ?thesis by simp
  qed
qed

text \<open>
  C9 (as amended).  A part keyword outside the four known ones makes \<^verbatim>\<open>Energy.__init__\<close>
  raise: the \<^verbatim>\<open>ValueError\<close> of the check once the inherited configuration is loaded, and
  no instance in any case.  A reference strategy outside the four known ones makes
  \<^verbatim>\<open>create_selectionfile_neighborsearch\<close> raise for a residue whose species is among the
  configured molecules: the \<^verbatim>\<open>ValueError\<close> of the last branch once the reference atoms
  have been looked up, leaving the selection file empty; and \<^verbatim>\<open>determine_neighbors\<close>
  over a range that holds such a residue ends with an exception.
\<close>

theorem invalid_input_raises:
  assumes "part_kw \<notin> set knownparts"
      and "refatoms \<notin> set known_refatoms"
      and "resid_to_lipid s resid = Some hosttype" and "hosttype \<in> set (molecules s)"
  shows "Energy_init part_kw nf ri ovw (Inr s0) nd
           = Inl (ValueError ''Part keyword specified is not known.'')
       \<and> (\<exists>err. Energy_init part_kw nf ri ovw sys_init nd = Inl err)
       \<and> (\<exists>err. fst (create_selectionfile_neighborsearch s lm resid refatoms w) = Inl err)
       \<and> (central_atom_of lm hosttype = Inr atm
            \<and> collect (map (resname_clause lm) (RESNAMES s)) = Inr clauses
          \<longrightarrow> create_selectionfile_neighborsearch s lm resid refatoms w
                = (Inl (ValueError (''Wrong input for refatoms with: '' @ refatoms)),
                   write_file (temppath s @ ''/sf'') [] w))
       \<and> (resid \<in> set (MOLRANGE s)
          \<longrightarrow> (\<exists>err. determine_neighbors eng s lm refatoms ovw w = Inl err))"
proof -
  have a: "Energy_init part_kw nf ri ovw (Inr s0) nd
           = Inl (ValueError ''Part keyword specified is not known.'')"
    using assms(1) by (simp add: Energy_init_def)
  have b: "\<exists>err. Energy_init part_kw nf ri ovw sys_init nd = Inl err"
    using assms(1) by (cases sys_init) (simp_all add: Energy_init_def)
  have c: "\<exists>err. fst (create_selectionfile_neighborsearch s lm resid refatoms w) = Inl err"
    by (rule create_selectionfile_unknown [OF assms(2-4)])
  have d: "central_atom_of lm hosttype = Inr atm
            \<and> collect (map (resname_clause lm) (RESNAMES s)) = Inr clauses
          \<longrightarrow> create_selectionfile_neighborsearch s lm resid refatoms w
                = (Inl (ValueError (''Wrong input for refatoms with: '' @ refatoms)),
                   write_file (temppath s @ ''/sf'') [] w)"
    using create_selectionfile_unknown_ValueError [OF assms(2-4)] by blast
  have e: "resid \<in> set (MOLRANGE s)
          \<longrightarrow> (\<exists>err. determine_neighbors eng s lm refatoms ovw w = Inl err)"
  proof
    assume "resid \<in> set (MOLRANGE s)"
    from neighbors_loop_unknown [OF assms(2-4) this]
    obtain err where "neighbors_loop eng s lm refatoms ovw (MOLRANGE s)
        (write_file ''neighbor_info'' [] w) = Inl err" by blast
    then show "\<exists>err. determine_neighbors eng s lm refatoms ovw w = Inl err"
      by (simp add: determine_neighbors_def)
  qed
  from a b c d e show ?thesis by blast
qed

lemma demo_clauses:
  "collect (map (resname_clause demo_lm) (RESNAMES demo_sys))
     = Inr [''(resname DPPC and name P)'', ''(resname CHL1 and name O3)'']"
  by (simp add: demo_sys_def demo_lm_def resname_clause_def)

text \<open>
  The part \<^verbatim>\<open>tails\<close> and the strategy \<^verbatim>\<open>COM\<close> for residue 5 of the small system, a
  phospholipid.
\<close>

theorem invalid_input_raises_witness:
  "''tails'' \<notin> set knownparts \<and> ''COM'' \<notin> set known_refatoms
   \<and> resid_to_lipid demo_sys 5 = Some ''DPPC'' \<and> ''DPPC'' \<in> set (molecules demo_sys)
   \<and> demo_init ''tails'' = Inl (ValueError ''Part keyword specified is not known.'')
   \<and> create_selectionfile_neighborsearch demo_sys demo_lm 5 ''COM'' empty_world
        = (Inl (ValueError ''Wrong input for refatoms with: COM''),
           write_file ''tmp/sf'' [] empty_world)
   \<and> (\<exists>err. determine_neighbors demo_eng demo_sys demo_lm ''COM'' False empty_world = Inl err)"
proof -
  have 1: "''tails'' \<notin> set knownparts" by (simp add: knownparts_def)
  have 2: "''COM'' \<notin> set known_refatoms" by (simp add: known_refatoms_def)
  have 3: "resid_to_lipid demo_sys 5 = Some ''DPPC''" by (simp add: demo_sys_def)
  have 4: "''DPPC'' \<in> set (molecules demo_sys)" by (simp add: demo_sys_def)
  have 5: "central_atom_of demo_lm ''DPPC'' = Inr ''P''" by (simp add: demo_lm_def)
  have 6: "5 \<in> set (MOLRANGE demo_sys)" by (simp add: demo_sys_def)
  have 7: "temppath demo_sys = ''tmp''" by (simp add: demo_sys_def)
  from invalid_input_raises [OF 1 2 3 4, where nf = "''neighbor_info''"
      and ri = "''resindex_all''" and ovw = False and ?s0.0 = demo_sys and nd = "Inr demo_neibs"
      and sys_init = "Inr demo_sys" and lm = demo_lm and w = empty_world and atm = "''P''"
      and clauses = "[''(resname DPPC and name P)'', ''(resname CHL1 and name O3)'']"
      and eng = demo_eng]
    1 2 3 4 5 6 7 demo_clauses
  show ?thesis by (simp add: demo_init_def)
qed

text \<open>
  The claim as written has every unknown strategy raise.  For residue 9 of the small
  system, whose species is not among the configured molecules, the call returns
  \<^verbatim>\<open>None\<close> whatever the strategy, and a run over that residue alone ends without an
  exception and with the header as its only output.
\<close>

theorem unknown_refatoms_counterexample:
  "''COM'' \<notin> set known_refatoms
   \<and> create_selectionfile_neighborsearch demo_sys demo_lm 9 ''COM'' empty_world
        = (Inr None, empty_world)
   \<and> determine_neighbors demo_eng (demo_sys \<lparr> MOLRANGE := [9] \<rparr>) demo_lm ''COM'' True empty_world
        = Inr ([], write_file ''neighbor_info'' neighbor_header empty_world)"
proof -
  have a: "''COM'' \<notin> set known_refatoms" by (simp add: known_refatoms_def)
  have b: "create_selectionfile_neighborsearch (demo_sys \<lparr> MOLRANGE := rs \<rparr>) demo_lm 9 ''COM'' w
        = (Inr None, w)" for rs w
    by (simp add: create_selectionfile_neighborsearch_def demo_sys_def)
  have c: "create_selectionfile_neighborsearch demo_sys demo_lm 9 ''COM'' w = (Inr None, w)" for w
    by (simp add: create_selectionfile_neighborsearch_def demo_sys_def)
  have d: "resid_to_lipid (demo_sys \<lparr> MOLRANGE := [9] \<rparr>) 9 \<noteq> None" by (simp add: demo_sys_def)
  have e: "residue_neighbors demo_eng (demo_sys \<lparr> MOLRANGE := [9] \<rparr>) demo_lm ''COM'' True 9 w
             = Inr ([], w)" for w
    using d by (simp add: residue_neighbors_def b)
  have f: "write_file ''neighbor_info'' c' (write_file ''neighbor_info'' c0 empty_world)
             = write_file ''neighbor_info'' c' empty_world" for c' c0
    by (simp add: write_file_def empty_world_def)
  have "determine_neighbors demo_eng (demo_sys \<lparr> MOLRANGE := [9] \<rparr>) demo_lm ''COM'' True empty_world
        = Inr ([], write_file ''neighbor_info'' neighbor_header empty_world)"
    by (simp add: determine_neighbors_def e f)
  with a c show ?thesis by simp
qed

section \<open>Numbers as text, joining and splitting\<close>

lemma digit_cases:
  assumes "d < 10"
  obtains "d = 0" | "d = 1" | "d = 2" | "d = 3" | "d = 4" | "d = 5" | "d = 6" | "d = 7"
    | "d = 8" | "d = (9::nat)"
  using assms by atomize_elim arith

lemma digit_val_digit_char: "d < 10 \<Longrightarrow> digit_val (digit_char d) = Some d"
  by (erule digit_cases) (simp_all add: digit_val_def digit_char_def)

lemma digit_char_in: "d < 10 \<Longrightarrow> digit_char d \<in> set ''0123456789''"
  by (erule digit_cases) (simp_all add: digit_char_def)

lemma str_nat_chars: "set (str_nat n) \<subseteq> set ''0123456789''"
proof (induction n rule: str_nat.induct)
  case (1 n)
  show ?case
  proof (cases "n < 10")
    case True
    then show ?thesis using digit_char_in [of n] by (simp add: str_nat.simps [of n])
  next
    case False
    have "n mod 10 < 10" by simp
    then have "digit_char (n mod 10) \<in> set ''0123456789''" by (rule digit_char_in)
    with False 1 show ?thesis by (simp add: str_nat.simps [of n])
  qed
qed

lemma str_nat_nonempty: "str_nat n \<noteq> []"
  by (simp add: str_nat.simps [of n])

lemma str_int_chars: "set (str_int i) \<subseteq> set ''-0123456789''"
proof -
  have sub: "set (str_nat n) \<subseteq> set ''-0123456789''" for n
    using str_nat_chars [of n] set_subset_Cons [of "''0123456789''" "CHR ''-''"]
    by (rule subset_trans)
  show ?thesis
  proof (cases "i < 0")
    case True
    then have "set (str_int i) = insert CHR ''-'' (set (str_nat (nat (- i))))"
      by (simp add: str_int_def)
    also have "\<dots> \<subseteq> set ''-0123456789''"
      using sub [of "nat (- i)"] by (simp only: insert_subset list.set_intros(1) simp_thms)
    finally show ?thesis .
  next
    case False
    then show ?thesis using sub [of "nat i"] by (simp only: str_int_def if_False)
  qed
qed

lemma str_int_nonempty: "str_int i \<noteq> []"
  by (simp add: str_int_def str_nat_nonempty)

lemma parse_acc_append:
  "parse_acc a (xs @ ys) = (case parse_acc a xs of None \<Rightarrow> None | Some b \<Rightarrow> parse_acc b ys)"
  by (induction xs arbitrary: a) (simp_all split: option.splits)

lemma parse_acc_str_nat: "parse_acc 0 (str_nat n) = Some n"
proof (induction n rule: str_nat.induct)
  case (1 n)
  show ?case
  proof (cases "n < 10")
    case True
    then show ?thesis by (simp add: str_nat.simps [of n] digit_val_digit_char)
  next
    case False
    have "parse_acc 0 (str_nat n) = parse_acc (n div 10) [digit_char (n mod 10)]"
      using False 1 by (simp add: str_nat.simps [of n] parse_acc_append)
    also have "\<dots> = Some (10 * (n div 10) + n mod 10)"
      by (simp add: digit_val_digit_char)
    finally show ?thesis by simp
  qed
qed

lemma parse_nat_str_nat: "parse_nat (str_nat n) = Some n"
  by (simp add: parse_nat_def str_nat_nonempty parse_acc_str_nat)

text \<open>\<^verbatim>\<open>int(str(i)) == i\<close>.\<close>

lemma py_int_str_int: "py_int (str_int i) = Inr i"
proof (cases "i < 0")
  case True
  then show ?thesis by (simp add: py_int_def str_int_def parse_nat_str_nat)
next
  case False
  obtain c r where cr: "str_nat (nat i) = c # r"
    using str_nat_nonempty [of "nat i"] by (cases "str_nat (nat i)") auto
  have "c \<in> set ''0123456789''" using str_nat_chars [of "nat i"] cr by auto
  then have "c \<noteq> CHR ''-''" "c \<noteq> CHR ''+''" by auto
  moreover have "parse_nat (c # r) = Some (nat i)" using parse_nat_str_nat [of "nat i"] cr by simp
  ultimately show ?thesis using False cr by (simp add: py_int_def str_int_def)
qed

lemma collect_py_int_str_int: "collect (map py_int (map str_int xs)) = Inr xs"
  by (induction xs) (simp_all add: py_int_str_int)

lemma collect_py_int_o_str_int: "collect (map (py_int \<circ> str_int) xs) = Inr xs"
  by (induction xs) (simp_all add: py_int_str_int)

text \<open>Splitting where the first character of the separator does not occur in a piece.\<close>

lemma split_acc_plain:
  assumes "sep \<noteq> []" and "hd sep \<notin> set s"
  shows "split_acc sep acc s = [rev acc @ s]"
  using assms(2)
proof (induction s arbitrary: acc)
  case Nil
  show ?case by simp
next
  case (Cons a s)
  then have "\<not> prefix sep (a # s)" using assms(1) by (cases sep) auto
  with Cons show ?case by simp
qed

lemma split_acc_piece:
  assumes "sep \<noteq> []" and "hd sep \<notin> set s"
  shows "split_acc sep acc (s @ sep @ rest) = (rev acc @ s) # split_acc sep [] rest"
  using assms(2)
proof (induction s arbitrary: acc)
  case Nil
  obtain c cs where sep: "sep = c # cs" using assms(1) by (cases sep) auto
  then show ?case by simp
next
  case (Cons a s)
  then have "\<not> prefix sep (a # s @ sep @ rest)" using assms(1) by (cases sep) auto
  with Cons show ?case by simp
qed

lemma py_split_py_join:
  assumes "sep \<noteq> []" and "\<forall>x \<in> set xs. hd sep \<notin> set x" and "xs \<noteq> []"
  shows "py_split sep (py_join sep xs) = xs"
  using assms(2,3)
proof (induction xs)
  case Nil
  then show ?case by simp
next
  case (Cons x xs)
  have x: "hd sep \<notin> set x" using Cons.prems by simp
  show ?case
  proof (cases xs)
    case Nil
    then show ?thesis using split_acc_plain [OF assms(1) x, of "[]"] by (simp add: py_split_def)
  next
    case (Cons y ys)
    with Cons.IH Cons.prems have ih: "split_acc sep [] (py_join sep (y # ys)) = y # ys"
      by (simp add: py_split_def)
    have "py_join sep (x # xs) = x @ sep @ py_join sep (y # ys)" using Cons by simp
    then show ?thesis
      using split_acc_piece [OF assms(1) x, of "[]" "py_join sep (y # ys)"] ih Cons
      by (simp add: py_split_def)
  qed
qed

lemma length_py_split_join_str_int:
  assumes "ns \<noteq> []"
  shows "py_split '','' (py_join '','' (map str_int ns)) = map str_int ns"
proof (rule py_split_py_join)
  show "\<forall>x \<in> set (map str_int ns). hd '','' \<notin> set x"
    using str_int_chars by auto
qed (use assms in simp_all)

section \<open>The rows of the neighbor table\<close>

lemma map_lookup_Inr:
  "map (lookup m) ks = map Inr vs \<longleftrightarrow> map m ks = map Some vs"
proof (induction ks arbitrary: vs)
  case Nil
  show ?case by auto
next
  case (Cons k ks)
  show ?case
  proof (cases vs)
    case Nil
    then show ?thesis by simp
  next
    case (Cons v vs')
    have "lookup m k = Inr v \<longleftrightarrow> m k = Some v"
      by (cases "m k") (simp_all add: lookup_def)
    with Cons.IH [of vs'] Cons show ?thesis by simp
  qed
qed

lemma lookup_collect:
  "collect (map (lookup m) ks) = Inr vs \<longleftrightarrow> map m ks = map Some vs"
  by (simp add: collect_eq_Inr map_lookup_Inr)

text \<open>
  C6 (as amended).  A row that \<^verbatim>\<open>determine_neighbors\<close> writes for a line of the engine's
  data file holds, comma-joined, the residue id of every atom index of the line, in the
  order of the line and one for each index: reading the field back with \<^verbatim>\<open>split(',')\<close>
  and \<^verbatim>\<open>int\<close> gives the translated list itself, repetitions included.
\<close>

theorem neighbor_row_residlist:
  assumes "neighbor_row s residue line = Inr r"
      and "py_words line = time # nneibs # cols"
  shows "\<exists>idx resids.
           collect (map py_int cols) = Inr idx
         \<and> map (index_to_resid s) idx = map Some resids
         \<and> f_residlist r = py_join '','' (map str_int resids)
         \<and> length resids = length cols
         \<and> (resids \<noteq> [] \<longrightarrow> collect (map py_int (py_split '','' (f_residlist r))) = Inr resids)"
proof -
  from assms obtain idx resids where
    idx: "collect (map py_int cols) = Inr idx"
    and res: "collect (map (lookup (index_to_resid s)) idx) = Inr resids"
    and r: "r = \<lparr> f_residue = residue, f_time = time, f_nneibs = nneibs,
                   f_residlist = py_join '','' (map str_int resids) \<rparr>"
    by (auto simp: neighbor_row_def bind_eq_Inr)
  from res have m: "map (index_to_resid s) idx = map Some resids" by (simp add: lookup_collect)
  from idx have "map py_int cols = map Inr idx" by (simp add: collect_eq_Inr)
  then have "length (map py_int cols) = length (map Inr idx)" by simp
  then have l1: "length cols = length idx" by simp
  from m have "length (map (index_to_resid s) idx) = length (map Some resids)" by simp
  then have l2: "length idx = length resids" by simp
  from l1 l2 have len: "length resids = length cols" by simp
  have rd: "resids \<noteq> [] \<longrightarrow> collect (map py_int (py_split '','' (f_residlist r))) = Inr resids"
    using r by (simp add: length_py_split_join_str_int collect_py_int_o_str_int)
  from idx m r len rd show ?thesis by auto
qed

lemma words_demo_line: "py_words ''0.000 2 10 11'' = [''0.000'', ''2'', ''10'', ''11'']"
  by (simp add: py_words_def whitespace_def)

lemma py_int_10: "py_int ''10'' = Inr 10" and py_int_11: "py_int ''11'' = Inr 11"
  by (simp_all add: py_int_def parse_nat_def digit_val_def)

lemma str_int_3: "str_int 3 = ''3''"
  by (simp add: str_int_def str_nat_digit digit_char_def)

lemma demo_neighbor_row:
  "neighbor_row demo_sys 5 ''0.000 2 10 11''
     = Inr \<lparr> f_residue = 5, f_time = ''0.000'', f_nneibs = ''2'', f_residlist = ''3,3'' \<rparr>"
  by (simp add: neighbor_row_def words_demo_line py_int_10 py_int_11 lookup_def demo_sys_def
      str_int_3)

text \<open>
  A line of the data file with the atoms 10 and 11, both of residue 3: the row names
  residue 3 twice.
\<close>

theorem neighbor_row_residlist_witness:
  "neighbor_row demo_sys 5 ''0.000 2 10 11''
     = Inr \<lparr> f_residue = 5, f_time = ''0.000'', f_nneibs = ''2'', f_residlist = ''3,3'' \<rparr>
   \<and> py_words ''0.000 2 10 11'' = ''0.000'' # ''2'' # [''10'', ''11'']
   \<and> collect (map py_int [''10'', ''11'']) = Inr [10, 11]
   \<and> map (index_to_resid demo_sys) [10, 11] = map Some [3, 3]
   \<and> collect (map py_int (py_split '','' ''3,3'')) = Inr [3, 3]"
proof -
  have w: "py_words ''0.000 2 10 11'' = ''0.000'' # ''2'' # [''10'', ''11'']"
    by (simp add: words_demo_line)
  from neighbor_row_residlist [OF demo_neighbor_row w] obtain idx resids where
    a: "collect (map py_int [''10'', ''11'']) = Inr idx"
    and b: "map (index_to_resid demo_sys) idx = map Some resids"
    and c: "resids \<noteq> [] \<longrightarrow> collect (map py_int (py_split '','' ''3,3'')) = Inr resids"
    by auto
  from a have idx: "idx = [10, 11]" by (simp add: py_int_10 py_int_11)
  with b have "resids = [3, 3]" by (auto simp: demo_sys_def)
  with a b c idx demo_neighbor_row w show ?thesis by simp
qed

text \<open>The claim as written has no residue id twice in a row; the row above has.\<close>

theorem neighbor_row_duplicate_counterexample:
  "neighbor_row demo_sys 5 ''0.000 2 10 11''
     = Inr \<lparr> f_residue = 5, f_time = ''0.000'', f_nneibs = ''2'', f_residlist = ''3,3'' \<rparr>
   \<and> py_split '','' ''3,3'' = [''3'', ''3'']
   \<and> \<not> distinct (py_split '','' ''3,3'')"
  using demo_neighbor_row by (simp add: py_split_def)

section \<open>Files that a run leaves alone\<close>

lemma normpath_no_slash: "CHR ''/'' \<notin> set t \<Longrightarrow> normpath t = t"
  by (induction t rule: normpath.induct) auto

lemma normpath_append:
  assumes "c \<noteq> CHR ''/''"
  shows "normpath (s @ c # t) = normpath s @ normpath (c # t)"
proof (induction s rule: normpath.induct)
  case (1 a b cs)
  then show ?case by simp
qed (use assms in simp_all)

lemma normpath_slash_end:
  "normpath (s @ ''/'') = (if s \<noteq> [] \<and> last s = CHR ''/'' then normpath s else normpath s @ ''/'')"
proof (induction s rule: normpath.induct)
  case (1 a b cs)
  then show ?case by simp
qed simp_all

lemma normpath_suffix:
  assumes "CHR ''/'' \<notin> set (c # t)"
  shows "normpath (s @ c # t) = normpath s @ c # t"
proof -
  have "c \<noteq> CHR ''/''" using assms by auto
  then have "normpath (s @ c # t) = normpath s @ normpath (c # t)" by (rule normpath_append)
  also have "normpath (c # t) = c # t" using assms by (rule normpath_no_slash)
  finally show ?thesis .
qed

text \<open>Two names that end differently, in endings of one length, are two files.\<close>

lemma suffix_differs:
  assumes "normpath P = u @ a" and "normpath Q = v @ b" and "length a = length b" and "a \<noteq> b"
  shows "normpath Q \<noteq> normpath P"
  using assms by auto

lemma keeps_refl: "keeps P w w"
  by (simp add: keeps_def)

lemma keeps_trans: "keeps P w w1 \<Longrightarrow> keeps P w1 w2 \<Longrightarrow> keeps P w w2"
  by (simp add: keeps_def)

lemma keeps_isfile: "keeps P w w' \<Longrightarrow> isfile w' P = isfile w P"
  by (simp add: keeps_def isfile_def read_file_def)

lemma keeps_write_file: "normpath Q \<noteq> normpath P \<Longrightarrow> keeps P w (write_file Q c w)"
  by (simp add: keeps_def write_file_def read_file_def writers_def)

lemma keeps_append_file: "normpath Q \<noteq> normpath P \<Longrightarrow> keeps P w (append_file Q c w)"
  by (simp add: keeps_def append_file_def read_file_def writers_def)

lemma keeps_engine_writes:
  assumes "normpath P \<notin> set (map normpath targets)"
  shows "keeps P w (engine_writes eng cmd inp before targets w)"
  using assms
proof (induction targets arbitrary: w)
  case Nil
  show ?case by (simp add: engine_writes_def keeps_refl)
next
  case (Cons q qs)
  let ?w1 = "case produce eng cmd inp before q of None \<Rightarrow> w | Some c \<Rightarrow> write_file q c w"
  have "normpath q \<noteq> normpath P" using Cons.prems by auto
  then have k1: "keeps P w ?w1" by (cases "produce eng cmd inp before q") (simp_all add: keeps_refl keeps_write_file)
  have "keeps P ?w1 (engine_writes eng cmd inp before qs ?w1)"
    using Cons.prems by (intro Cons.IH) simp
  with k1 have "keeps P w (engine_writes eng cmd inp before qs ?w1)" by (rule keeps_trans)
  then show ?case by (simp add: engine_writes_def)
qed

lemma keeps_exec_gromacs:
  assumes "normpath P \<notin> set (map normpath (output_targets cmd))"
  shows "keeps P w (snd (exec_gromacs eng cmd inp w))"
proof -
  let ?w0 = "w \<lparr> calls := calls w @ [(cmd, inp)] \<rparr>"
  have "keeps P w ?w0" using assms by (simp add: keeps_def read_file_def writers_def)
  moreover have "keeps P ?w0 (engine_writes eng cmd inp (files w) (output_targets cmd) ?w0)"
    using assms by (rule keeps_engine_writes)
  ultimately show ?thesis by (simp add: exec_gromacs_def) (rule keeps_trans)
qed

text \<open>The endings of the names one fragment works with.\<close>

lemma ending:
  assumes "CHR ''/'' \<notin> set (c # t)"
  shows "suffix (c # t) (normpath (s @ c # t))"
  using normpath_suffix [OF assms, of s] by (simp add: suffix_def)

lemma mdpout_ending: "suffix ''.mdp'' (normpath (mdpout_of e r f))"
  using ending [of "CHR ''.''" "''mdp''"
      "energypath (si e) @ ''mdpfiles/energy_mdp_recalc_resid'' @ str_int r @ ''_'' @ str_int f @ part e"]
  by (simp add: mdpout_of_def)

lemma tprout_ending: "suffix ''.tpr'' (normpath (tprout_of e r f))"
  using ending [of "CHR ''.''" "''tpr''"
      "energypath (si e) @ ''tprfiles/mdrerun_resid'' @ str_int r @ ''_'' @ str_int f @ part e"]
  by (simp add: tprout_of_def)

lemma edr_ending: "suffix ''.edr'' (normpath (energyf_output e r f))"
  using ending [of "CHR ''.''" "''edr''"
      "energypath (si e) @ ''edrfiles/energyfile_resid'' @ str_int r @ ''_'' @ str_int f @ part e"]
  by (simp add: energyf_output_def)

lemma xvg_out_ending: "suffix ''.xvg'' (normpath (xvg_out_of e r f))"
  using ending [of "CHR ''.''" "''xvg''"
      "energypath (si e) @ ''xvgtables/energies_residue'' @ str_int r @ ''_'' @ str_int f @ part e"]
  by (simp add: xvg_out_of_def)

lemma g_energy_ending: "suffix ''.xvg'' (normpath (g_energy_output e r f))"
  using ending [of "CHR ''.''" "''xvg''"
      "energypath (si e) @ ''/xvgtables/energies_residue'' @ str_int r @ ''_'' @ str_int f @ part e"]
  by (simp add: g_energy_output_def)

lemma log_ending: "suffix ''.log'' (normpath (s @ ''.log''))"
  by (rule ending) simp

lemma other_ending:
  assumes "suffix a (normpath P)" and "suffix b (normpath Q)" and "length a = length b" and "a \<noteq> b"
  shows "normpath Q \<noteq> normpath P"
  using assms by (auto simp: suffix_def)

lemma keeps_create_MDP:
  assumes "suffix a (normpath P)" and "a = ''.edr'' \<or> a = ''.xvg''"
  shows "keeps P w (create_MDP e (mdpout_of e r f) groups w)"
proof -
  have "normpath (mdpout_of e r f) \<noteq> normpath P"
    using assms(1) mdpout_ending by (rule other_ending) (use assms(2) in auto)
  then show ?thesis by (simp add: create_MDP_def keeps_write_file)
qed

lemma grompp_targets:
  "output_targets [GMXNAME, ''grompp'', ''-f'', m, ''-p'', t, ''-c'', g, ''-o'', tp, ''-n'', n, ''-po'', m]
     = [tp, m]"
  by (simp add: output_targets_def output_flags_def)

lemma mdrun_targets:
  "output_targets [GMXNAME, ''mdrun'', ''-s'', t, ''-rerun'', x, ''-e'', en, ''-o'', tr, ''-g'', lg]
     = [en, tr, lg]"
  by (simp add: output_targets_def output_flags_def)

lemma energy_targets:
  "output_targets [GMXNAME, ''energy'', ''-f'', en, ''-s'', t, ''-o'', out] = [out]"
  by (simp add: output_targets_def output_flags_def)

lemma keeps_logged_call:
  assumes "normpath P \<notin> set (map normpath (output_targets cmd))"
      and "normpath lg \<noteq> normpath P"
  shows "keeps P w (case exec_gromacs eng cmd inp w of ((out, err), w') \<Rightarrow>
                      append_file lg (err @ out) w')"
proof -
  obtain oe w1 where x: "exec_gromacs eng cmd inp w = (oe, w1)"
    by (cases "exec_gromacs eng cmd inp w")
  obtain out err where oe: "oe = (out, err)" by (cases oe)
  have "keeps P w (snd (exec_gromacs eng cmd inp w))"
    using assms(1) by (rule keeps_exec_gromacs)
  then have k1: "keeps P w w1" using x by simp
  have k2: "keeps P w1 (append_file lg (err @ out) w1)"
    using assms(2) by (rule keeps_append_file)
  from k1 k2 have "keeps P w (append_file lg (err @ out) w1)" by (rule keeps_trans)
  then show ?thesis using x oe by simp
qed

lemma keeps_create_TPR:
  assumes "suffix a (normpath P)" and "a = ''.edr'' \<or> a = ''.xvg''"
  shows "keeps P w (create_TPR eng e (mdpout_of e r f) (tprout_of e r f) w)"
proof -
  let ?cmd = "[GMXNAME, ''grompp'', ''-f'', mdpout_of e r f, ''-p'', toppath (si e), ''-c'',
              gropath (si e), ''-o'', tprout_of e r f, ''-n'', resindex_all e, ''-po'',
              mdpout_of e r f]"
  have m: "normpath (mdpout_of e r f) \<noteq> normpath P"
    using assms(1) mdpout_ending by (rule other_ending) (use assms(2) in auto)
  have t: "normpath (tprout_of e r f) \<noteq> normpath P"
    using assms(1) tprout_ending by (rule other_ending) (use assms(2) in auto)
  have "suffix ''.log'' (normpath ''gmx_grompp.log'')"
    using log_ending [of "''gmx_grompp''"] by simp
  with assms(1) have l: "normpath ''gmx_grompp.log'' \<noteq> normpath P"
    by (rule other_ending) (use assms(2) in auto)
  have "normpath P \<notin> set (map normpath (output_targets ?cmd))"
    using m t by (simp add: grompp_targets)
  then show ?thesis
    unfolding create_TPR_def using l by (rule keeps_logged_call)
qed

lemma keeps_do_Energyrun:
  assumes "suffix a (normpath P)" and "a = ''.edr'' \<or> a = ''.xvg''"
      and "normpath en \<noteq> normpath P"
  shows "keeps P w (do_Energyrun eng e r gf t en w)"
proof -
  let ?lg = "energypath (si e) @ ''logfiles/'' @ ''mdrerun_resid'' @ str_int r @ part e @ ''frag''
               @ gf @ ''.log''"
  let ?cmd = "[GMXNAME, ''mdrun'', ''-s'', t, ''-rerun'', trjpath (si e), ''-e'', en, ''-o'',
               ''EMPTY.trr'', ''-g'', ?lg]"
  have "suffix ''.trr'' (normpath ''EMPTY.trr'')"
    using ending [of "CHR ''.''" "''trr''" "''EMPTY''"] by simp
  with assms(1) have tr: "normpath ''EMPTY.trr'' \<noteq> normpath P"
    by (rule other_ending) (use assms(2) in auto)
  have "suffix ''.log'' (normpath ?lg)"
    using log_ending [of "energypath (si e) @ ''logfiles/'' @ ''mdrerun_resid'' @ str_int r
        @ part e @ ''frag'' @ gf"] by simp
  with assms(1) have lg: "normpath ?lg \<noteq> normpath P"
    by (rule other_ending) (use assms(2) in auto)
  have "suffix ''.log'' (normpath ''gmx_mdrun.log'')"
    using log_ending [of "''gmx_mdrun''"] by simp
  with assms(1) have l: "normpath ''gmx_mdrun.log'' \<noteq> normpath P"
    by (rule other_ending) (use assms(2) in auto)
  have "normpath P \<notin> set (map normpath (output_targets ?cmd))"
    using tr lg assms(3) by (simp add: mdrun_targets)
  then show ?thesis
    unfolding do_Energyrun_def Let_def using l by (rule keeps_logged_call)
qed

lemma keeps_write_XVG:
  assumes "suffix a (normpath P)" and "a = ''.edr'' \<or> a = ''.xvg''"
      and "normpath out \<noteq> normpath P"
  shows "keeps P w (write_XVG eng e en t relev out w)"
proof -
  let ?cmd = "[GMXNAME, ''energy'', ''-f'', en, ''-s'', t, ''-o'', out]"
  have "suffix ''.log'' (normpath ''gmx_energy.log'')"
    using log_ending [of "''gmx_energy''"] by simp
  with assms(1) have l: "normpath ''gmx_energy.log'' \<noteq> normpath P"
    by (rule other_ending) (use assms(2) in auto)
  have "normpath P \<notin> set (map normpath (output_targets ?cmd))"
    using assms(3) by (simp add: energy_targets)
  then show ?thesis
    unfolding write_XVG_def using l by (rule keeps_logged_call)
qed

lemma keeps_rerun_step:
  assumes "\<not> overwrite e" and "isfile w P" and "suffix a (normpath P)"
      and "a = ''.edr'' \<or> a = ''.xvg''"
  shows "keeps P w (rerun_step eng e r f w)"
proof (cases "isfile w (energyf_output e r f)")
  case True
  with assms(1) show ?thesis by (simp add: rerun_step_def keeps_refl)
next
  case False
  with assms(2) have "normpath (energyf_output e r f) \<noteq> normpath P"
    by (auto simp: isfile_def)
  with assms(3,4) have "keeps P w (do_Energyrun eng e r (str_int f) (tprout_of e r f)
      (energyf_output e r f) w)"
    by (rule keeps_do_Energyrun)
  with False show ?thesis by (simp add: rerun_step_def)
qed

lemma keeps_extraction_step_edr:
  assumes "suffix ''.edr'' (normpath P)"
  shows "keeps P w (extraction_step eng e r f relev w)"
proof -
  have "normpath (xvg_out_of e r f) \<noteq> normpath P"
    using assms xvg_out_ending by (rule other_ending) simp_all
  with assms have "keeps P w (write_XVG eng e (energyf_output e r f) (tprout_of e r f) relev
      (xvg_out_of e r f) w)"
    by (intro keeps_write_XVG [where a = "''.edr''"]) simp_all
  then show ?thesis by (simp add: extraction_step_def keeps_refl)
qed

text \<open>
  The name the extraction step tests (with a slash after \<^verbatim>\<open>energypath\<close>) and the name it
  writes (without): one file when \<^verbatim>\<open>energypath\<close> ends in a slash, and in any case the
  tested names of two fragments differ when their written names do.
\<close>

lemma normpath_first: "c \<noteq> CHR ''/'' \<Longrightarrow> \<exists>u. normpath (c # t) = c # u"
  by (cases t) simp_all

lemma xvg_names:
  assumes "si e' = si e" and "part e' = part e"
      and "normpath (g_energy_output e' r f) \<noteq> normpath (g_energy_output e r0 f0)"
  shows "normpath (xvg_out_of e' r f) \<noteq> normpath (xvg_out_of e r0 f0)"
    and "normpath (xvg_out_of e' r f) \<noteq> normpath (g_energy_output e r0 f0)"
proof -
  define E where "E = energypath (si e)"
  define t where "t = ''vgtables/energies_residue'' @ str_int r @ ''_'' @ str_int f @ part e @ ''.xvg''"
  define t0 where "t0 = ''vgtables/energies_residue'' @ str_int r0 @ ''_'' @ str_int f0 @ part e @ ''.xvg''"
  have x: "CHR ''x'' \<noteq> CHR ''/''" by simp
  have out: "normpath (xvg_out_of e' r f) = normpath E @ normpath (CHR ''x'' # t)"
    using normpath_append [OF x, of E t] assms(1,2) by (simp add: xvg_out_of_def E_def t_def)
  have out0: "normpath (xvg_out_of e r0 f0) = normpath E @ normpath (CHR ''x'' # t0)"
    using normpath_append [OF x, of E t0] by (simp add: xvg_out_of_def E_def t0_def)
  have g: "normpath (g_energy_output e' r f) = normpath (E @ ''/'') @ normpath (CHR ''x'' # t)"
    using normpath_append [OF x, of "E @ ''/''" t] assms(1,2)
    by (simp add: g_energy_output_def E_def t_def)
  have g0: "normpath (g_energy_output e r0 f0) = normpath (E @ ''/'') @ normpath (CHR ''x'' # t0)"
    using normpath_append [OF x, of "E @ ''/''" t0] by (simp add: g_energy_output_def E_def t0_def)
  from assms(3) g g0 have ne: "normpath (CHR ''x'' # t) \<noteq> normpath (CHR ''x'' # t0)" by auto
  then show "normpath (xvg_out_of e' r f) \<noteq> normpath (xvg_out_of e r0 f0)"
    using out out0 by simp
  show "normpath (xvg_out_of e' r f) \<noteq> normpath (g_energy_output e r0 f0)"
  proof (cases "E \<noteq> [] \<and> last E = CHR ''/''")
    case True
    then have "normpath (E @ ''/'') = normpath E" by (simp add: normpath_slash_end)
    with ne out g0 show ?thesis by simp
  next
    case False
    then have "normpath (E @ ''/'') = normpath E @ ''/''" by (simp add: normpath_slash_end)
    moreover obtain u where "normpath (CHR ''x'' # t) = CHR ''x'' # u"
      using normpath_first [OF x, of t] by blast
    ultimately show ?thesis using out g0 by simp
  qed
qed

lemma same_file_with_slash:
  assumes "energypath (si e) = p @ ''/''"
  shows "normpath (g_energy_output e r f) = normpath (xvg_out_of e r f)"
proof -
  have "normpath (q @ ''//'' @ t) = normpath (q @ ''/'' @ t)" for q t
    by (induction q rule: normpath.induct) simp_all
  from this [of p "''xvgtables/energies_residue'' @ str_int r @ ''_'' @ str_int f @ part e @ ''.xvg''"]
  show ?thesis using assms by (simp add: g_energy_output_def xvg_out_of_def)
qed

lemma keeps_extraction_step_xvg:
  assumes "\<not> overwrite e'" and "si e' = si e" and "part e' = part e"
      and "isfile w (g_energy_output e r0 f0)"
  shows "keeps (g_energy_output e r0 f0) w (extraction_step eng e' r f relev w)"
    and "keeps (xvg_out_of e r0 f0) w (extraction_step eng e' r f relev w)"
proof -
  show "keeps (g_energy_output e r0 f0) w (extraction_step eng e' r f relev w)"
  proof (cases "isfile w (g_energy_output e' r f)")
    case True
    with assms(1) show ?thesis by (simp add: extraction_step_def keeps_refl)
  next
    case False
    with assms(4) have "normpath (g_energy_output e' r f) \<noteq> normpath (g_energy_output e r0 f0)"
      by (auto simp: isfile_def)
    with assms(2,3) have "normpath (xvg_out_of e' r f) \<noteq> normpath (g_energy_output e r0 f0)"
      by (rule xvg_names)
    with g_energy_ending [of e r0 f0]
    have "keeps (g_energy_output e r0 f0) w (write_XVG eng e' (energyf_output e' r f)
        (tprout_of e' r f) relev (xvg_out_of e' r f) w)"
      by (intro keeps_write_XVG [where a = "''.xvg''"]) simp_all
    with False show ?thesis by (simp add: extraction_step_def)
  qed
  show "keeps (xvg_out_of e r0 f0) w (extraction_step eng e' r f relev w)"
  proof (cases "isfile w (g_energy_output e' r f)")
    case True
    with assms(1) show ?thesis by (simp add: extraction_step_def keeps_refl)
  next
    case False
    with assms(4) have "normpath (g_energy_output e' r f) \<noteq> normpath (g_energy_output e r0 f0)"
      by (auto simp: isfile_def)
    with assms(2,3) have "normpath (xvg_out_of e' r f) \<noteq> normpath (xvg_out_of e r0 f0)"
      by (rule xvg_names)
    with xvg_out_ending [of e r0 f0]
    have "keeps (xvg_out_of e r0 f0) w (write_XVG eng e' (energyf_output e' r f)
        (tprout_of e' r f) relev (xvg_out_of e' r f) w)"
      by (intro keeps_write_XVG [where a = "''.xvg''"]) simp_all
    with False show ?thesis by (simp add: extraction_step_def)
  qed
qed

lemma keeps_rerun_step_xvg:
  assumes "suffix ''.xvg'' (normpath P)"
  shows "keeps P w (rerun_step eng e r f w)"
proof -
  have "normpath (energyf_output e r f) \<noteq> normpath P"
    using assms edr_ending by (rule other_ending) simp_all
  with assms have "keeps P w (do_Energyrun eng e r (str_int f) (tprout_of e r f)
      (energyf_output e r f) w)"
    by (intro keeps_do_Energyrun [where a = "''.xvg''"]) simp_all
  then show ?thesis by (simp add: rerun_step_def keeps_refl)
qed

text \<open>The body of the fragment loop changes \<^verbatim>\<open>groupblocks\<close> and nothing else of the instance.\<close>

lemma run_fragment_Inr:
  assumes "run_fragment lm eng r ns f (e, w) = Inr (e', w')"
  obtains relev groups where
    "e' = e \<lparr> groupblocks := Some (f * denominator e, (f + 1) * denominator e) \<rparr>"
    "w' = extraction_step eng e' r f relev
            (rerun_step eng e' r f
               (create_TPR eng e' (mdpout_of e' r f) (tprout_of e' r f)
                  (create_MDP e' (mdpout_of e' r f) groups w)))"
  using assms by (auto simp: run_fragment_def Let_def bind_eq_Inr)

lemma paths_same_cfg:
  assumes "si e' = si e" and "part e' = part e"
  shows "energyf_output e' = energyf_output e" and "g_energy_output e' = g_energy_output e"
    and "xvg_out_of e' = xvg_out_of e"
  using assms by (simp_all add: fun_eq_iff energyf_output_def g_energy_output_def xvg_out_of_def)

lemma run_fragment_keeps_edr:
  assumes "run_fragment lm eng r ns f (e, w) = Inr (e', w')"
      and "\<not> overwrite e" and "isfile w P" and "suffix ''.edr'' (normpath P)"
  shows "keeps P w w'"
proof -
  from assms(1) obtain relev groups where
    e': "e' = e \<lparr> groupblocks := Some (f * denominator e, (f + 1) * denominator e) \<rparr>"
    and w': "w' = extraction_step eng e' r f relev
            (rerun_step eng e' r f
               (create_TPR eng e' (mdpout_of e' r f) (tprout_of e' r f)
                  (create_MDP e' (mdpout_of e' r f) groups w)))"
    by (rule run_fragment_Inr)
  let ?w1 = "create_MDP e' (mdpout_of e' r f) groups w"
  let ?w2 = "create_TPR eng e' (mdpout_of e' r f) (tprout_of e' r f) ?w1"
  let ?w3 = "rerun_step eng e' r f ?w2"
  have ov: "\<not> overwrite e'" using assms(2) e' by simp
  have k1: "keeps P w ?w1" using assms(4) by (rule keeps_create_MDP) simp
  have "keeps P ?w1 ?w2" using assms(4) by (rule keeps_create_TPR) simp
  with k1 have k2: "keeps P w ?w2" by (rule keeps_trans)
  then have "isfile ?w2 P" using assms(3) by (simp add: keeps_isfile)
  with ov have "keeps P ?w2 ?w3" using assms(4) by (rule keeps_rerun_step) simp
  with k2 have k3: "keeps P w ?w3" by (rule keeps_trans)
  have "keeps P ?w3 (extraction_step eng e' r f relev ?w3)"
    using assms(4) by (rule keeps_extraction_step_edr)
  with k3 show ?thesis unfolding w' by (rule keeps_trans)
qed

lemma run_fragment_keeps_xvg:
  assumes "run_fragment lm eng r ns f (e, w) = Inr (e', w')"
      and "\<not> overwrite e" and "si e = si e0" and "part e = part e0"
      and "isfile w (g_energy_output e0 r0 f0)"
  shows "keeps (g_energy_output e0 r0 f0) w w' \<and> keeps (xvg_out_of e0 r0 f0) w w'"
proof -
  from assms(1) obtain relev groups where
    e': "e' = e \<lparr> groupblocks := Some (f * denominator e, (f + 1) * denominator e) \<rparr>"
    and w': "w' = extraction_step eng e' r f relev
            (rerun_step eng e' r f
               (create_TPR eng e' (mdpout_of e' r f) (tprout_of e' r f)
                  (create_MDP e' (mdpout_of e' r f) groups w)))"
    by (rule run_fragment_Inr)
  let ?w1 = "create_MDP e' (mdpout_of e' r f) groups w"
  let ?w2 = "create_TPR eng e' (mdpout_of e' r f) (tprout_of e' r f) ?w1"
  let ?w3 = "rerun_step eng e' r f ?w2"
  have cfg: "\<not> overwrite e'" "si e' = si e0" "part e' = part e0" using assms(2-4) e' by simp_all
  have three: "keeps P w ?w3" if "suffix ''.xvg'' (normpath P)" for P
  proof -
    have k1: "keeps P w ?w1" using that by (rule keeps_create_MDP) simp
    have "keeps P ?w1 ?w2" using that by (rule keeps_create_TPR) simp
    with k1 have k2: "keeps P w ?w2" by (rule keeps_trans)
    have "keeps P ?w2 ?w3" using that by (rule keeps_rerun_step_xvg)
    with k2 show ?thesis by (rule keeps_trans)
  qed
  have g3: "keeps (g_energy_output e0 r0 f0) w ?w3" by (rule three) (rule g_energy_ending)
  have o3: "keeps (xvg_out_of e0 r0 f0) w ?w3" by (rule three) (rule xvg_out_ending)
  from g3 assms(5) have here: "isfile ?w3 (g_energy_output e0 r0 f0)" by (simp add: keeps_isfile)
  have "keeps (g_energy_output e0 r0 f0) ?w3 (extraction_step eng e' r f relev ?w3)"
    using cfg here by (rule keeps_extraction_step_xvg)
  with g3 have g4: "keeps (g_energy_output e0 r0 f0) w w'" unfolding w' by (rule keeps_trans)
  have "keeps (xvg_out_of e0 r0 f0) ?w3 (extraction_step eng e' r f relev ?w3)"
    using cfg here by (rule keeps_extraction_step_xvg)
  with o3 have "keeps (xvg_out_of e0 r0 f0) w w'" unfolding w' by (rule keeps_trans)
  with g4 show ?thesis by simp
qed

text \<open>
  The three loops of \<^verbatim>\<open>run_calculation\<close>, for any invariant \<open>I\<close> of instance and world
  and any relation \<open>K\<close> between worlds that the body of the innermost loop respects.
\<close>

lemma run_fragments_invariant:
  assumes step: "\<And>f e w e' w'. I e w \<Longrightarrow> run_fragment lm eng r ns f (e, w) = Inr (e', w')
                   \<Longrightarrow> I e' w' \<and> K w w'"
      and refl: "\<And>w. K w w" and trans: "\<And>w w1 w2. K w w1 \<Longrightarrow> K w1 w2 \<Longrightarrow> K w w2"
      and "I e w" and "run_fragments lm eng r ns frags (e, w) = Inr (e', w')"
  shows "I e' w' \<and> K w w'"
  using assms(4,5)
proof (induction frags arbitrary: e w)
  case Nil
  then show ?case using refl by simp
next
  case (Cons f frags)
  from Cons.prems(2) obtain e1 w1 where
    one: "run_fragment lm eng r ns f (e, w) = Inr (e1, w1)"
    and rest: "run_fragments lm eng r ns frags (e1, w1) = Inr (e', w')"
    by (auto simp: bind_eq_Inr)
  from step [OF Cons.prems(1) one] have i1: "I e1 w1" and k1: "K w w1" by simp_all
  from Cons.IH [OF i1 rest] have "I e' w'" and "K w1 w'" by simp_all
  with k1 show ?case using trans by blast
qed

lemma run_residues_invariant:
  assumes step: "\<And>r ns f e w e' w'. I e w \<Longrightarrow> run_fragment lm eng r ns f (e, w) = Inr (e', w')
                   \<Longrightarrow> I e' w' \<and> K w w'"
      and refl: "\<And>w. K w w" and trans: "\<And>w w1 w2. K w w1 \<Longrightarrow> K w1 w2 \<Longrightarrow> K w w2"
      and "I e w" and "run_residues lm eng rs (e, w) = Inr (e', w')"
  shows "I e' w' \<and> K w w'"
  using assms(4,5)
proof (induction rs arbitrary: e w)
  case Nil
  then show ?case using refl by simp
next
  case (Cons r rs)
  from Cons.prems(2) obtain e1 w1 where
    one: "run_residue lm eng r (e, w) = Inr (e1, w1)"
    and rest: "run_residues lm eng rs (e1, w1) = Inr (e', w')"
    by (auto simp: bind_eq_Inr)
  from one obtain ns n where
    "run_fragments lm eng r ns (py_range n) (e, w) = Inr (e1, w1)"
    by (auto simp: run_residue_def bind_eq_Inr)
  with step refl trans Cons.prems(1) have "I e1 w1 \<and> K w w1"
    by (rule run_fragments_invariant [where I = I and K = K])
  then have i1: "I e1 w1" and k1: "K w w1" by simp_all
  from Cons.IH [OF i1 rest] have "I e' w'" and "K w1 w'" by simp_all
  with k1 show ?case using trans by blast
qed

lemma run_fragment_cfg:
  assumes "run_fragment lm eng r ns f (e, w) = Inr (e', w')"
  shows "overwrite e' = overwrite e" and "si e' = si e" and "part e' = part e"
  using assms by (auto elim!: run_fragment_Inr)

lemma run_calculation_keeps_edr:
  assumes "\<not> overwrite e0" and "run_calculation lm eng resids (e0, w) = Inr (k, e, w')"
      and "isfile w P" and "suffix ''.edr'' (normpath P)"
  shows "keeps P w w'"
proof -
  from assms(2) have run: "run_residues lm eng resids (e0, w) = Inr (e, w')"
    by (auto simp: run_calculation_def bind_eq_Inr)
  have "(\<not> overwrite e \<and> isfile w' P) \<and> keeps P w w'"
  proof (rule run_residues_invariant [where I = "\<lambda>e w. \<not> overwrite e \<and> isfile w P"
        and K = "keeps P", OF _ _ _ _ run])
    fix r ns f e1 w1 e2 w2
    assume i: "\<not> overwrite e1 \<and> isfile w1 P"
      and one: "run_fragment lm eng r ns f (e1, w1) = Inr (e2, w2)"
    have "keeps P w1 w2" using run_fragment_keeps_edr [OF one _ _ assms(4)] i by simp
    moreover from this i have "isfile w2 P" by (simp add: keeps_isfile)
    moreover have "\<not> overwrite e2" using run_fragment_cfg(1) [OF one] i by simp
    ultimately show "(\<not> overwrite e2 \<and> isfile w2 P) \<and> keeps P w1 w2" by simp
  next
    show "keeps P w1 w1" for w1 by (rule keeps_refl)
  next
    show "keeps P w1 w2 \<Longrightarrow> keeps P w2 w3 \<Longrightarrow> keeps P w1 w3" for w1 w2 w3 by (rule keeps_trans)
  next
    show "\<not> overwrite e0 \<and> isfile w P" using assms(1,3) by simp
  qed
  then show ?thesis by simp
qed

lemma run_calculation_keeps_xvg:
  assumes "\<not> overwrite e0" and "run_calculation lm eng resids (e0, w) = Inr (k, e, w')"
      and "isfile w (g_energy_output e0 r0 f0)"
  shows "keeps (g_energy_output e0 r0 f0) w w' \<and> keeps (xvg_out_of e0 r0 f0) w w'"
proof -
  let ?G = "g_energy_output e0 r0 f0" and ?O = "xvg_out_of e0 r0 f0"
  let ?I = "\<lambda>e w. \<not> overwrite e \<and> si e = si e0 \<and> part e = part e0 \<and> isfile w ?G"
  let ?K = "\<lambda>w w'. keeps ?G w w' \<and> keeps ?O w w'"
  from assms(2) have run: "run_residues lm eng resids (e0, w) = Inr (e, w')"
    by (auto simp: run_calculation_def bind_eq_Inr)
  have "?I e w' \<and> ?K w w'"
  proof (rule run_residues_invariant [where I = ?I and K = ?K, OF _ _ _ _ run])
    fix r ns f e1 w1 e2 w2
    assume i: "?I e1 w1" and one: "run_fragment lm eng r ns f (e1, w1) = Inr (e2, w2)"
    have k: "?K w1 w2" using run_fragment_keeps_xvg [OF one, of e0 r0 f0] i by simp
    moreover from k i have "isfile w2 ?G" using keeps_isfile [of ?G w1 w2] by simp
    moreover have "\<not> overwrite e2 \<and> si e2 = si e0 \<and> part e2 = part e0"
      using run_fragment_cfg [OF one] i by simp
    ultimately show "?I e2 w2 \<and> ?K w1 w2" by simp
  next
    show "?K w1 w1" for w1 by (simp add: keeps_refl)
  next
    show "?K w1 w2 \<Longrightarrow> ?K w2 w3 \<Longrightarrow> ?K w1 w3" for w1 w2 w3 by (blast intro: keeps_trans)
  next
    show "?I e0 w" using assms(1,3) by simp
  qed
  then show ?thesis by simp
qed

text \<open>
  C8.  With overwrite disabled: a rerun step whose trace is there, and an extraction
  step whose table is there, leave the world as it is (no invocation, no write); and
  over a whole call of \<^verbatim>\<open>run_calculation\<close> that returns, the trace and the table of any
  residue and fragment that were there before the call keep their content, and no
  invocation of the engine made during the call names them as an output.  The table is
  tested under its name with one more slash after \<^verbatim>\<open>energypath\<close>, which is the file the
  step writes when \<^verbatim>\<open>energypath\<close> ends in a slash.
\<close>

theorem idempotent_skip:
  assumes "\<not> overwrite e0" and "run_calculation lm eng resids (e0, w) = Inr (k, e, w')"
  shows "(isfile w (energyf_output e0 res frag) \<longrightarrow>
            rerun_step eng e0 res frag w = w
          \<and> read_file w' (energyf_output e0 res frag) = read_file w (energyf_output e0 res frag)
          \<and> writers (energyf_output e0 res frag) w' = writers (energyf_output e0 res frag) w)
       \<and> (isfile w (g_energy_output e0 res frag) \<longrightarrow>
            extraction_step eng e0 res frag relev w = w
          \<and> read_file w' (g_energy_output e0 res frag) = read_file w (g_energy_output e0 res frag)
          \<and> writers (g_energy_output e0 res frag) w' = writers (g_energy_output e0 res frag) w
          \<and> read_file w' (xvg_out_of e0 res frag) = read_file w (xvg_out_of e0 res frag)
          \<and> writers (xvg_out_of e0 res frag) w' = writers (xvg_out_of e0 res frag) w)
       \<and> ((\<exists>p. energypath (si e0) = p @ ''/'') \<longrightarrow>
            normpath (g_energy_output e0 res frag) = normpath (xvg_out_of e0 res frag))"
proof -
  have a: "isfile w (energyf_output e0 res frag) \<longrightarrow>
            rerun_step eng e0 res frag w = w
          \<and> read_file w' (energyf_output e0 res frag) = read_file w (energyf_output e0 res frag)
          \<and> writers (energyf_output e0 res frag) w' = writers (energyf_output e0 res frag) w"
  proof
    assume here: "isfile w (energyf_output e0 res frag)"
    with assms have "keeps (energyf_output e0 res frag) w w'"
      by (rule run_calculation_keeps_edr) (rule edr_ending)
    with here assms(1) show "rerun_step eng e0 res frag w = w
          \<and> read_file w' (energyf_output e0 res frag) = read_file w (energyf_output e0 res frag)
          \<and> writers (energyf_output e0 res frag) w' = writers (energyf_output e0 res frag) w"
      by (simp add: keeps_def rerun_step_def)
  qed
  have b: "isfile w (g_energy_output e0 res frag) \<longrightarrow>
            extraction_step eng e0 res frag relev w = w
          \<and> read_file w' (g_energy_output e0 res frag) = read_file w (g_energy_output e0 res frag)
          \<and> writers (g_energy_output e0 res frag) w' = writers (g_energy_output e0 res frag) w
          \<and> read_file w' (xvg_out_of e0 res frag) = read_file w (xvg_out_of e0 res frag)
          \<and> writers (xvg_out_of e0 res frag) w' = writers (xvg_out_of e0 res frag) w"
  proof
    assume here: "isfile w (g_energy_output e0 res frag)"
    with assms have "keeps (g_energy_output e0 res frag) w w' \<and> keeps (xvg_out_of e0 res frag) w w'"
      by (rule run_calculation_keeps_xvg)
    with here assms(1) show "extraction_step eng e0 res frag relev w = w
          \<and> read_file w' (g_energy_output e0 res frag) = read_file w (g_energy_output e0 res frag)
          \<and> writers (g_energy_output e0 res frag) w' = writers (g_energy_output e0 res frag) w
          \<and> read_file w' (xvg_out_of e0 res frag) = read_file w (xvg_out_of e0 res frag)
          \<and> writers (xvg_out_of e0 res frag) w' = writers (xvg_out_of e0 res frag) w"
      by (simp add: keeps_def extraction_step_def)
  qed
  have c: "(\<exists>p. energypath (si e0) = p @ ''/'') \<longrightarrow>
            normpath (g_energy_output e0 res frag) = normpath (xvg_out_of e0 res frag)"
    using same_file_with_slash by blast
  from a b c show ?thesis by blast
qed

lemma calls_engine_writes: "calls (engine_writes eng cmd inp before targets w) = calls w"
proof -
  have "calls (fold (\<lambda>p w'. case produce eng cmd inp before p of
                     None \<Rightarrow> w' | Some c \<Rightarrow> write_file p c w') targets w) = calls w"
    by (induction targets arbitrary: w) (simp_all add: write_file_def split: option.splits)
  then show ?thesis by (simp add: engine_writes_def)
qed

lemma calls_create_MDP: "calls (create_MDP e m g w) = calls w"
  by (simp add: create_MDP_def write_file_def)

lemma calls_create_TPR:
  "map (\<lambda>c. fst c ! 1) (calls (create_TPR eng e m t w)) = map (\<lambda>c. fst c ! 1) (calls w) @ [''grompp'']"
  by (simp add: create_TPR_def exec_gromacs_def append_file_def calls_engine_writes)

lemma str_int_5: "str_int 5 = ''5''" and str_int_0: "str_int 0 = ''0''"
  by (simp_all add: str_int_def str_nat_digit digit_char_def)

lemma demo_edr_name: "energyf_output demo_complete 5 0 = ''en/edrfiles/energyfile_resid5_0.edr''"
  by (simp add: energyf_output_def demo_complete_def demo_sys_def str_int_5 str_int_0)

lemma demo_g_name: "g_energy_output demo_complete 5 0 = ''en//xvgtables/energies_residue5_0.xvg''"
  by (simp add: g_energy_output_def demo_complete_def demo_sys_def str_int_5 str_int_0)

lemma demo_xvg_name: "xvg_out_of demo_complete 5 0 = ''en/xvgtables/energies_residue5_0.xvg''"
  by (simp add: xvg_out_of_def demo_complete_def demo_sys_def str_int_5 str_int_0)

lemma demo_edr_there: "isfile demo_world (energyf_output demo_complete 5 0)"
  by (simp add: demo_edr_name isfile_def demo_world_def)

lemma demo_g_there: "isfile demo_world (g_energy_output demo_complete 5 0)"
  by (simp add: demo_g_name isfile_def demo_world_def)

lemma demo_groups:
  "\<exists>g. gather_energygroups demo_lm (demo_complete \<lparr> groupblocks := Some (0, 40) \<rparr>) 5 [7, 8, 9] = Inr g"
  by (simp add: gather_energygroups_def energygroup_list_def fragment_slice_def py_slice_def
      clip_def groups_of_index_def is_whole_def demo_complete_def demo_sys_def demo_lm_def)

lemma demo_relev:
  "\<exists>x. get_relev_energies demo_lm (demo_complete \<lparr> groupblocks := Some (0, 40) \<rparr>) 5 [7, 8, 9] = Inr x"
  by (simp add: get_relev_energies_def energyselection_def host_entries_def neib_entries_def
      Etypes_def fragment_slice_def py_slice_def clip_def is_whole_def demo_complete_def
      demo_sys_def demo_lm_def)

lemma demo_run_fragment:
  "\<exists>e w'. run_fragment demo_lm demo_eng 5 [7, 8, 9] 0 (demo_complete, demo_world) = Inr (e, w')"
proof -
  have d: "denominator demo_complete = 40" by (simp add: demo_complete_def)
  obtain g where g: "gather_energygroups demo_lm (demo_complete \<lparr> groupblocks := Some (0, 40) \<rparr>)
      5 [7, 8, 9] = Inr g"
    using demo_groups by blast
  obtain x where x: "get_relev_energies demo_lm (demo_complete \<lparr> groupblocks := Some (0, 40) \<rparr>)
      5 [7, 8, 9] = Inr x"
    using demo_relev by blast
  show ?thesis by (simp add: run_fragment_def d g x Let_def)
qed

lemma demo_run:
  "\<exists>e w'. run_calculation demo_lm demo_eng [5] (demo_complete, demo_world) = Inr (1, e, w')
          \<and> run_fragment demo_lm demo_eng 5 [7, 8, 9] 0 (demo_complete, demo_world) = Inr (e, w')"
proof -
  obtain e w' where f: "run_fragment demo_lm demo_eng 5 [7, 8, 9] 0 (demo_complete, demo_world)
      = Inr (e, w')"
    using demo_run_fragment by blast
  have n: "neiblist demo_complete = demo_neibs" "denominator demo_complete = 40"
    by (simp_all add: demo_complete_def)
  have "number_of_groupfragments 3 40 = Inr 1" by (simp add: number_of_groupfragments_def)
  then have "run_calculation demo_lm demo_eng [5] (demo_complete, demo_world) = Inr (1, e, w')"
    by (simp add: run_calculation_def run_residue_def n demo_all_neibs py_range_def f)
  with f show ?thesis by blast
qed

text \<open>
  A second call for residue 5 of the small system, whose only fragment has its trace
  and its table already: the call makes one invocation, the preprocessing, and both
  files are as they were.
\<close>

theorem idempotent_skip_witness:
  "\<not> overwrite demo_complete
   \<and> isfile demo_world (energyf_output demo_complete 5 0)
   \<and> isfile demo_world (g_energy_output demo_complete 5 0)
   \<and> energypath (si demo_complete) = ''en'' @ ''/''
   \<and> (\<exists>e w'. run_calculation demo_lm demo_eng [5] (demo_complete, demo_world) = Inr (1, e, w')
         \<and> read_file w' ''en/edrfiles/energyfile_resid5_0.edr'' = Some ''first trace''
         \<and> read_file w' ''en/xvgtables/energies_residue5_0.xvg'' = Some ''first table''
         \<and> writers ''en/edrfiles/energyfile_resid5_0.edr'' w' = []
         \<and> writers ''en/xvgtables/energies_residue5_0.xvg'' w' = []
         \<and> map (\<lambda>c. fst c ! 1) (calls w') = [''grompp''])"
proof -
  have ov: "\<not> overwrite demo_complete" by (simp add: demo_complete_def)
  have sl: "energypath (si demo_complete) = ''en'' @ ''/''"
    by (simp add: demo_complete_def demo_sys_def)
  obtain e w' where run: "run_calculation demo_lm demo_eng [5] (demo_complete, demo_world)
      = Inr (1, e, w')"
    and frag: "run_fragment demo_lm demo_eng 5 [7, 8, 9] 0 (demo_complete, demo_world) = Inr (e, w')"
    using demo_run by blast
  note skip = idempotent_skip [OF ov run, where res = 5 and frag = 0]
  have r0: "read_file demo_world ''en/edrfiles/energyfile_resid5_0.edr'' = Some ''first trace''"
    "read_file demo_world ''en/xvgtables/energies_residue5_0.xvg'' = Some ''first table''"
    "writers ''en/edrfiles/energyfile_resid5_0.edr'' demo_world = []"
    "writers ''en/xvgtables/energies_residue5_0.xvg'' demo_world = []"
    by (simp_all add: read_file_def writers_def demo_world_def)
  from skip demo_edr_there have
    a: "read_file w' ''en/edrfiles/energyfile_resid5_0.edr'' = Some ''first trace''"
       "writers ''en/edrfiles/energyfile_resid5_0.edr'' w' = []"
    using r0 by (simp_all add: demo_edr_name)
  from skip demo_g_there have
    b: "read_file w' ''en/xvgtables/energies_residue5_0.xvg'' = Some ''first table''"
       "writers ''en/xvgtables/energies_residue5_0.xvg'' w' = []"
    using r0 by (simp_all add: demo_xvg_name)
  have c: "map (\<lambda>c. fst c ! 1) (calls w') = [''grompp'']"
  proof -
    from frag obtain relev groups where
      e: "e = demo_complete \<lparr> groupblocks := Some (0 * denominator demo_complete,
            (0 + 1) * denominator demo_complete) \<rparr>"
      and w': "w' = extraction_step demo_eng e 5 0 relev
            (rerun_step demo_eng e 5 0
               (create_TPR demo_eng e (mdpout_of e 5 0) (tprout_of e 5 0)
                  (create_MDP e (mdpout_of e 5 0) groups demo_world)))"
      by (rule run_fragment_Inr)
    let ?w2 = "create_TPR demo_eng e (mdpout_of e 5 0) (tprout_of e 5 0)
                  (create_MDP e (mdpout_of e 5 0) groups demo_world)"
    have names: "energyf_output e = energyf_output demo_complete"
      "g_energy_output e = g_energy_output demo_complete"
      by (rule paths_same_cfg; simp add: e)+
    have ove: "\<not> overwrite e" using ov e by simp
    have k: "keeps P demo_world ?w2" if "suffix a (normpath P)" "a = ''.edr'' \<or> a = ''.xvg''" for P a
      using keeps_create_MDP [OF that] keeps_create_TPR [OF that] keeps_trans by blast
    have "keeps (energyf_output demo_complete 5 0) demo_world ?w2"
      by (rule k [OF edr_ending]) simp
    then have i1: "isfile ?w2 (energyf_output e 5 0)"
      using demo_edr_there keeps_isfile names by simp
    have "keeps (g_energy_output demo_complete 5 0) demo_world ?w2"
      by (rule k [OF g_energy_ending]) simp
    then have i2: "isfile ?w2 (g_energy_output e 5 0)"
      using demo_g_there keeps_isfile names by simp
    from i1 ove have "rerun_step demo_eng e 5 0 ?w2 = ?w2" by (simp add: rerun_step_def)
    moreover from i2 ove have "extraction_step demo_eng e 5 0 relev ?w2 = ?w2"
      by (simp add: extraction_step_def)
    ultimately have "w' = ?w2" using w' by simp
    moreover have "calls demo_world = []" by (simp add: demo_world_def)
    ultimately show ?thesis
      by (simp only: calls_create_TPR calls_create_MDP list.map append_Nil)
  qed
  have "\<exists>e w'. run_calculation demo_lm demo_eng [5] (demo_complete, demo_world) = Inr (1, e, w')
         \<and> read_file w' ''en/edrfiles/energyfile_resid5_0.edr'' = Some ''first trace''
         \<and> read_file w' ''en/xvgtables/energies_residue5_0.xvg'' = Some ''first table''
         \<and> writers ''en/edrfiles/energyfile_resid5_0.edr'' w' = []
         \<and> writers ''en/xvgtables/energies_residue5_0.xvg'' w' = []
         \<and> map (\<lambda>c. fst c ! 1) (calls w') = [''grompp'']"
    by (rule exI [of _ e], rule exI [of _ w']) (intro conjI run a b c)
  with ov demo_edr_there demo_g_there sl show ?thesis by (intro conjI)
qed

section \<open>The round-trip table\<close>

lemma groupby_resid_rows:
  assumes "g \<in> set (groupby_resid dat)"
  shows "snd g = filter (\<lambda>x. s_resid x = fst g) dat"
  using assms by (auto simp: groupby_resid_def)

lemma frames1_concat:
  assumes "F [] = []"
  shows "concat (concat (map (\<lambda>g. if E g = [] then [] else [F (E g)]) gs))
           = concat (map (\<lambda>g. F (E g)) gs)"
  using assms by (induction gs) simp_all

lemma frames1_empty:
  "concat (map (\<lambda>g. if E g = [] then [] else [F (E g)]) gs) = [] \<longleftrightarrow> (\<forall>g \<in> set gs. E g = [])"
  by (induction gs) simp_all

text \<open>
  C7 (as amended).  For a table in which the samples of every residue are in time order
  and no time is negative, and in which some residue has a change point:
  \<^verbatim>\<open>get_flipflop_events\<close> returns, the segments it forms for a residue are its change
  points cut wherever two consecutive ones are more than 10000 apart, and the round-trip
  table holds, residue by residue, one row for exactly those segments whose first and
  last change point report the same leaflet, from the first to the last.
\<close>

theorem flipflop_segmentation:
  assumes "\<forall>r. sorted (map s_time (filter (\<lambda>x. s_resid x = r) dat))"
      and "\<forall>x \<in> set dat. 0 \<le> s_time x"
      and "\<exists>g \<in> set (groupby_resid dat). events_of (snd g) \<noteq> []"
  shows "get_flipflop_events dat
           = Inr (concat (map (\<lambda>g. time_diff_filter 1000 1001 (events_of (snd g)))
                            (groupby_resid dat)),
                  map complete_row
                    (concat (map (\<lambda>g. same_leaflet_ends (cut_gaps (events_of (snd g))))
                               (groupby_resid dat))))
       \<and> (\<forall>g \<in> set (groupby_resid dat).
             events_of (snd g) \<noteq> [] \<longrightarrow>
             segments_of (events_of (snd g)) = cut_gaps (events_of (snd g)))"
proof -
  let ?gs = "groupby_resid dat"
  let ?E = "\<lambda>g. events_of (snd g)"
  let ?F = "time_diff_filter 1000 1001"
  let ?spec = "\<lambda>g. (if ?E g = [] then [] else [?F (?E g)], same_leaflet_ends (cut_gaps (?E g)))"
  have grp: "sorted (map s_time (snd g)) \<and> (\<forall>x \<in> set (snd g). 0 \<le> s_time x)"
    if "g \<in> set ?gs" for g
  proof -
    have "snd g = filter (\<lambda>x. s_resid x = fst g) dat" using that by (rule groupby_resid_rows)
    then show ?thesis using assms(1,2) by auto
  qed
  have "residue_events (snd g) = Inr (?spec g)" if "g \<in> set ?gs" for g
    using grp [OF that] by (intro residue_events_segmentation) simp_all
  then have "map (\<lambda>g. residue_events (snd g)) ?gs = map Inr (map ?spec ?gs)" by simp
  then have col: "collect (map (\<lambda>g. residue_events (snd g)) ?gs) = Inr (map ?spec ?gs)"
    by (simp only: collect_map_Inr)
  have f1: "concat (map fst (map ?spec ?gs)) = concat (map (\<lambda>g. if ?E g = [] then [] else [?F (?E g)]) ?gs)"
    by (simp add: comp_def)
  have f2: "concat (map snd (map ?spec ?gs)) = concat (map (\<lambda>g. same_leaflet_ends (cut_gaps (?E g))) ?gs)"
    by (simp add: comp_def)
  have ne: "concat (map fst (map ?spec ?gs)) \<noteq> []"
    unfolding f1 using frames1_empty [of ?E ?F ?gs] assms(3) by blast
  have F0: "?F [] = []" by (simp add: time_diff_filter_def)
  have f3: "concat (concat (map fst (map ?spec ?gs))) = concat (map (\<lambda>g. ?F (?E g)) ?gs)"
    unfolding f1 using F0 by (rule frames1_concat)
  have run: "get_flipflop_events dat
           = Inr (concat (map (\<lambda>g. ?F (?E g)) ?gs),
                  map complete_row (concat (map (\<lambda>g. same_leaflet_ends (cut_gaps (?E g))) ?gs)))"
    using ne by (simp only: get_flipflop_events_def col bind_Inr Let_def f2 f3 if_False)
  have seg: "\<forall>g \<in> set ?gs. ?E g \<noteq> [] \<longrightarrow> segments_of (?E g) = cut_gaps (?E g)"
  proof (intro ballI impI)
    fix g assume g: "g \<in> set ?gs" and e: "?E g \<noteq> []"
    have "sorted (map s_time (?E g))" using grp [OF g] events_of_sorted(1) by blast
    moreover have "\<forall>x \<in> set (?E g). 0 \<le> s_time x"
      using grp [OF g] events_of_sorted(2) by blast
    ultimately show "segments_of (?E g) = cut_gaps (?E g)" using e by (rule segments_of_cut_gaps)
  qed
  from run seg show ?thesis by simp
qed

lemma demo_trajectory_groups:
  "groupby_resid demo_trajectory
     = [(1, [smp 0 0, smp 50 0, smp 100 1, smp 200 0, smp 15000 1]),
        (2, [smp2 0 1, smp2 50 1, smp2 100 1])]"
  by (simp add: groupby_resid_def demo_trajectory_def smp_def smp2_def)

lemma demo_trajectory_events:
  "events_of [smp 0 0, smp 50 0, smp 100 1, smp 200 0, smp 15000 1]
     = [smp 100 1, smp 200 0, smp 15000 1]"
  "events_of [smp2 0 1, smp2 50 1, smp2 100 1] = []"
  by (simp_all add: events_of_def smp_def smp2_def)

text \<open>
  The example of the claim, with samples that are no change points and a second residue
  that never changes: the changes at 100 and 200 form one segment, whose ends differ and
  which is not in the table; the change at 15000 starts a new segment.
\<close>

theorem flipflop_segmentation_witness:
  "sorted (map s_time demo_trajectory) \<and> list_all (\<lambda>x. 0 \<le> s_time x) demo_trajectory
   \<and> segments_of (events_of [smp 0 0, smp 50 0, smp 100 1, smp 200 0, smp 15000 1])
        = [[smp 100 1, smp 200 0], [smp 15000 1]]
   \<and> s_leaflet (smp 100 1) \<noteq> s_leaflet (smp 200 0)
   \<and> get_flipflop_events demo_trajectory
        = Inr ([smp 100 1, smp 15000 1],
               [\<lparr> c_resid = 1, c_resname = ''DPPC'', c_t_start = 15000, c_t_end = 15000,
                  c_leaflet = 1 \<rparr>])"
proof -
  have s: "sorted (map s_time demo_trajectory)"
    by (simp add: demo_trajectory_def smp_def smp2_def)
  then have a1: "\<forall>r. sorted (map s_time (filter (\<lambda>x. s_resid x = r) demo_trajectory))"
    by (simp add: sorted_filter)
  have a2: "\<forall>x \<in> set demo_trajectory. 0 \<le> s_time x"
    by (simp add: demo_trajectory_def smp_def smp2_def)
  have a3: "\<exists>g \<in> set (groupby_resid demo_trajectory). events_of (snd g) \<noteq> []"
    by (simp add: demo_trajectory_groups demo_trajectory_events)
  have p: "list_all (\<lambda>x. 0 \<le> s_time x) demo_trajectory" using a2 by (simp add: list_all_iff)
  have ends: "same_leaflet_ends [[smp 100 1, smp 200 0], [smp 15000 1]] = [(smp 15000 1, smp 15000 1)]"
    by (simp add: same_leaflet_ends_def smp_def)
  have f: "time_diff_filter 1000 1001 [smp 100 1, smp 200 0, smp 15000 1] = [smp 100 1, smp 15000 1]"
    by (simp add: time_diff_filter_def smp_def)
  have f0: "time_diff_filter 1000 1001 [] = []" "same_leaflet_ends [] = []"
    by (simp_all add: time_diff_filter_def same_leaflet_ends_def)
  have row: "complete_row (smp 15000 1, smp 15000 1)
      = \<lparr> c_resid = 1, c_resname = ''DPPC'', c_t_start = 15000, c_t_end = 15000, c_leaflet = 1 \<rparr>"
    by (simp add: complete_row_def smp_def)
  have l: "s_leaflet (smp 100 1) \<noteq> s_leaflet (smp 200 0)" by (simp add: smp_def)
  note main = flipflop_segmentation [OF a1 a2 a3]
  from main have run: "get_flipflop_events demo_trajectory
        = Inr ([smp 100 1, smp 15000 1],
               [\<lparr> c_resid = 1, c_resname = ''DPPC'', c_t_start = 15000, c_t_end = 15000,
                  c_leaflet = 1 \<rparr>])"
    by (simp add: demo_trajectory_groups demo_trajectory_events demo_cut_gaps ends f f0 row
        del: cut_gaps.simps(3))
  from main have seg: "segments_of (events_of [smp 0 0, smp 50 0, smp 100 1, smp 200 0, smp 15000 1])
        = [[smp 100 1, smp 200 0], [smp 15000 1]]"
    by (simp add: demo_trajectory_groups demo_trajectory_events demo_cut_gaps del: cut_gaps.simps(3))
  from s p seg l run show ?thesis by (intro conjI)
qed

lemma early_events: "events_of early_samples = [smp (- 200) 1, smp 100 0]"
  by (simp add: events_of_def early_samples_def smp_def)

text \<open>
  The claim as written holds for any times.  With a change point before time 0 the code
  differs: the changes at -200 and 100 are 300 apart, one segment by the rule, with
  different leaflets at its ends; the code's first window starts at time 0, holds the
  change at 100 alone, and writes it to the round-trip table.
\<close>

theorem flipflop_negative_time_counterexample:
  "events_of early_samples = [smp (- 200) 1, smp 100 0]
   \<and> cut_gaps (events_of early_samples) = [[smp (- 200) 1, smp 100 0]]
   \<and> s_leaflet (smp (- 200) 1) \<noteq> s_leaflet (smp 100 0)
   \<and> segments_of (events_of early_samples) = [[smp 100 0]]
   \<and> get_flipflop_events early_samples
        = Inr ([smp (- 200) 1],
               [\<lparr> c_resid = 1, c_resname = ''DPPC'', c_t_start = 100, c_t_end = 100,
                  c_leaflet = 0 \<rparr>])"
proof -
  have c: "cut_gaps [smp (- 200) 1, smp 100 0] = [[smp (- 200) 1, smp 100 0]]"
    by (simp add: smp_def)
  have l: "s_leaflet (smp (- 200) 1) \<noteq> s_leaflet (smp 100 0)" by (simp add: smp_def)
  have sg: "segments_of [smp (- 200) 1, smp 100 0] = [[smp 100 0]]"
    by (simp add: segments_of_def split_times_def time_diff_filter_def smp_def)
  have g: "groupby_resid early_samples = [(1, early_samples)]"
    by (simp add: groupby_resid_def early_samples_def smp_def)
  have re: "residue_events early_samples = Inr ([[smp (- 200) 1]], [(smp 100 0, smp 100 0)])"
    by (simp add: residue_events_def early_events sg)
      (simp add: round_trip_def time_diff_filter_def smp_def Let_def)
  have run: "get_flipflop_events early_samples
        = Inr ([smp (- 200) 1],
               [\<lparr> c_resid = 1, c_resname = ''DPPC'', c_t_start = 100, c_t_end = 100,
                  c_leaflet = 0 \<rparr>])"
    by (simp add: get_flipflop_events_def g re) (simp add: complete_row_def smp_def)
  from c l sg run show ?thesis by (simp add: early_events)
qed

section \<open>Reading the legends\<close>

lemma py_int_str_nat: "py_int (str_nat k) = Inr (int k)"
  using py_int_str_int [of "int k"] by (simp add: str_int_def)

lemma py_get_simps:
  "py_get (a # as) 0 = Inr a"
  "py_get (a # b # bs) 1 = Inr b"
  "py_get (a # b # c # cs) 2 = Inr c"
  "py_get (a # b # c # d # ds) 3 = Inr d"
  by (simp_all add: py_get_def)

lemma split_three:
  assumes "sep \<noteq> []" and "hd sep \<notin> set a" and "hd sep \<notin> set b" and "hd sep \<notin> set c"
  shows "py_split sep (a @ sep @ b @ sep @ c) = [a, b, c]"
proof -
  have "split_acc sep [] (a @ sep @ b @ sep @ c) = ([] @ a) # split_acc sep [] (b @ sep @ c)"
    using split_acc_piece [OF assms(1,2), of "[]" "b @ sep @ c"] by simp
  also have "split_acc sep [] (b @ sep @ c) = ([] @ b) # split_acc sep [] c"
    using split_acc_piece [OF assms(1,3), of "[]" c] by simp
  also have "split_acc sep [] c = [c]"
    using split_acc_plain [OF assms(1,4), of "[]"] by simp
  finally show ?thesis by (simp add: py_split_def)
qed

lemma split_first:
  assumes "sep \<noteq> []" and "hd sep \<notin> set a"
  shows "\<exists>rest. py_split sep (a @ sep @ b) = a # rest"
  using split_acc_piece [OF assms, of "[]" b] by (simp add: py_split_def)

text \<open>
  An entry whose two parts start with \<^verbatim>\<open>resid_\<close> and hold no further \<^verbatim>\<open>r\<close>, as all parts
  the constructor sets do.
\<close>

lemma legend_line_entry:
  assumes "interaction x = ''Coul-SR:'' \<or> interaction x = ''LJ-SR:''"
      and "parthost x = ''resid_'' @ sh" and "CHR ''r'' \<notin> set sh"
      and "partneib x = ''resid_'' @ sn" and "CHR ''r'' \<notin> set sn"
  shows "legend_line (legend_cols k (render x)) st
           = Inr (st \<lparr> res_to_row := (res_to_row st)
                          ((energytype_of x, host_label x, neib_label x) \<mapsto> int k + 1),
                        processed_neibs :=
                          (if energytype_of x = ''LJ'' then processed_neibs st @ [neib_label x]
                           else processed_neibs st),
                        host := Some (host_label x) \<rparr>)"
proof -
  let ?c3 = "dq # render x @ [dq]"
  let ?a = "dq # interaction x"
  let ?b = "sh @ str_int (host_id x) @ ''-''"
  let ?c = "sn @ str_int (neib_id x) @ [dq]"
  have shape: "?c3 = ?a @ ''resid_'' @ ?b @ ''resid_'' @ ?c"
    using assms(2,4) by (simp add: render_def)
  have digits: "CHR ''r'' \<notin> set (str_int i)" for i
    using str_int_chars [of i] by auto
  have ra: "hd ''resid_'' \<notin> set ?a" using assms(1) by (auto simp: dq_def)
  have rb: "hd ''resid_'' \<notin> set ?b" using assms(3) digits by simp
  have rc: "hd ''resid_'' \<notin> set ?c" using assms(5) digits by (simp add: dq_def)
  have sp: "py_split ''resid_'' ?c3 = [?a, ?b, ?c]"
    unfolding shape by (rule split_three [OF _ ra rb rc]) simp
  have et: "\<exists>rest. py_split ''-'' ?c3 = (dq # energytype_of x) # rest"
  proof -
    from assms(1) obtain tail where
      t: "interaction x = energytype_of x @ ''-'' @ tail" and "CHR ''-'' \<notin> set (energytype_of x)"
      by (auto simp: energytype_of_def)
    then have "hd ''-'' \<notin> set (dq # energytype_of x)" by (simp add: dq_def)
    from split_first [OF _ this, of "tail @ parthost x @ str_int (host_id x) @ ''-'' @ partneib x
        @ str_int (neib_id x) @ [dq]"]
    show ?thesis using t by (simp add: render_def)
  qed
  then obtain rest where et': "py_split ''-'' ?c3 = (dq # energytype_of x) # rest" by blast
  have labels: "butlast ?c = neib_label x" "butlast ?b = host_label x"
    using assms(2,4) by (simp_all add: neib_label_def host_label_def butlast_append)
  show ?thesis
    unfolding legend_line_def legend_cols_def
    by (simp add: py_get_simps py_int_str_nat sp et' labels Let_def del: butlast.simps)
qed

section \<open>Aggregation of the tables of the small system\<close>

lemma str_int_7: "str_int 7 = ''7''" by (simp add: str_int_def str_nat_digit digit_char_def)
lemma str_int_8: "str_int 8 = ''8''" by (simp add: str_int_def str_nat_digit digit_char_def)
lemma str_int_9: "str_int 9 = ''9''" by (simp add: str_int_def str_nat_digit digit_char_def)

lemma py_int_digit [simp]: "py_int ''0'' = Inr 0" "py_int ''1'' = Inr 1" "py_int ''2'' = Inr 2" "py_int ''3'' = Inr 3"
  by (simp_all add: py_int_def parse_nat_def digit_val_def)

lemma omitting_legends:
  "xvg_lines demo_complete 5 ''DPPC'' [7, 8, 9] (take 5 omitting_table) (no_rows \<lparr> res_to_row := Map.empty \<rparr>)
     = Inr \<lparr> res_to_row = [(''Coul'', ''5'', ''7'') \<mapsto> 1, (''Coul'', ''5'', ''8'') \<mapsto> 2,
                           (''LJ'', ''5'', ''7'') \<mapsto> 3, (''LJ'', ''5'', ''8'') \<mapsto> 4],
             processed_neibs = [''7'', ''8''], host = Some ''5'', printed = [] \<rparr>"
  by (simp add: omitting_table_def no_rows_def legend_line_def legend_cols_def py_get_simps
      py_split_def dq_def str_nat_digit digit_char_def Let_def)

lemma demo_complete_lookups:
  "resid_to_lipid (si demo_complete) 5 = Some ''DPPC''"
  "resid_to_lipid (si demo_complete) 7 = Some ''DPPC''"
  "resid_to_lipid (si demo_complete) 8 = Some ''CHL1''"
  "resid_to_lipid (si demo_complete) 9 = Some ''VAL''"
  "system (si demo_complete) = ''dppc_chol''" "dt (si demo_complete) = 10"
  "molparts demo_complete = [''resid_'']" "denominator demo_complete = 40"
  "neiblist demo_complete = demo_neibs" "MOLRANGE (si demo_complete) = [5]"
  "xvgfilename demo_complete 5 0 = ''en//xvgtables/energies_residue5_0.xvg''"
  by (simp_all add: demo_complete_def demo_sys_def xvgfilename_def str_int_5 str_int_0)

lemma omitting_data:
  "data_line demo_complete 5 ''DPPC'' [7, 8, 9] [Some 0, Some (-11), Some (-12), Some (-21), Some (-22)]
     \<lparr> res_to_row = [(''Coul'', ''5'', ''7'') \<mapsto> 1, (''Coul'', ''5'', ''8'') \<mapsto> 2,
                       (''LJ'', ''5'', ''7'') \<mapsto> 3, (''LJ'', ''5'', ''8'') \<mapsto> 4],
       processed_neibs = [''7'', ''8''], host = Some ''5'', printed = [] \<rparr>
   = Inr \<lparr> res_to_row = [(''Coul'', ''5'', ''7'') \<mapsto> 1, (''Coul'', ''5'', ''8'') \<mapsto> 2,
                       (''LJ'', ''5'', ''7'') \<mapsto> 3, (''LJ'', ''5'', ''8'') \<mapsto> 4],
       processed_neibs = [''7'', ''8''], host = Some ''5'',
       printed = [\<lparr> row_time = 0, row_host = 5, row_neib = 7, row_molparts = ''w_w'',
                     row_vdw = -21, row_coul = -11, row_etot = -32 \<rparr>,
                  \<lparr> row_time = 0, row_host = 5, row_neib = 8, row_molparts = ''w_w'',
                     row_vdw = -22, row_coul = -12, row_etot = -34 \<rparr>] \<rparr>"
  by (simp add: data_line_def py_get_simps demo_complete_lookups off_grid_def neib_rows_def
      part_rows_def pair_rows_def inter_label_def str_int_5 str_int_7 str_int_8 str_int_9 py_get_def)

lemma xvg_lines_append:
  "xvg_lines e r rt ns (ls @ ms) st = bind (xvg_lines e r rt ns ls st) (xvg_lines e r rt ns ms)"
proof (induction ls arbitrary: st)
  case Nil
  show ?case by simp
next
  case (Cons l ls)
  show ?case
  proof (cases "case l of Legend cols \<Rightarrow> legend_line cols st
                 | Data cols \<Rightarrow> data_line e r rt ns cols st | Other \<Rightarrow> Inr st")
    case (Inl err)
    then show ?thesis by simp
  next
    case (Inr st1)
    then show ?thesis using Cons.IH [of st1] by simp
  qed
qed

lemma omitting_residue:
  "residue_energies demo_complete omitting_tables 5 no_rows
     = Inl (ValueError ''list.remove(x): x not in list'')"
proof -
  have t: "omitting_table = take 5 omitting_table @ [Data [Some 0, Some (-11), Some (-12), Some (-21), Some (-22)]]"
    by (simp add: omitting_table_def)
  have "\<exists>st'. fragment_tables demo_complete omitting_tables 5 ''DPPC'' [7, 8, 9] (py_range 1)
          (no_rows \<lparr> processed_neibs := [] \<rparr>) = Inr st' \<and> processed_neibs st' = [''7'', ''8'']"
    apply (simp add: py_range_def demo_complete_lookups omitting_tables_def)
    apply (subst t)
    apply (simp only: xvg_lines_append)
    apply (simp add: omitting_legends [unfolded no_rows_def, simplified] no_rows_def omitting_data)
    done
  then obtain st' where st': "fragment_tables demo_complete omitting_tables 5 ''DPPC'' [7, 8, 9] (py_range 1)
          (no_rows \<lparr> processed_neibs := [] \<rparr>) = Inr st'" "processed_neibs st' = [''7'', ''8'']"
    by blast
  show ?thesis
    by (simp add: residue_energies_def demo_complete_lookups demo_all_neibs
        number_of_groupfragments_def st' cross_check_def expected_neibs_def)
qed

lemma demo_headtail_lookups:
  "resid_to_lipid (si demo_headtail) 5 = Some ''DPPC''"
  "resid_to_lipid (si demo_headtail) 7 = Some ''DPPC''"
  "resid_to_lipid (si demo_headtail) 8 = Some ''CHL1''"
  "resid_to_lipid (si demo_headtail) 9 = Some ''VAL''"
  "system (si demo_headtail) = ''dppc_chol''" "dt (si demo_headtail) = 10"
  "molparts demo_headtail = [''resid_h_'', ''resid_t_'']" "denominator demo_headtail = 20"
  "neiblist demo_headtail = demo_neibs" "MOLRANGE (si demo_headtail) = [5]"
  "xvgfilename demo_headtail 5 0 = ''en//xvgtables/energies_residue5_0head-tail.xvg''"
  by (simp_all add: demo_headtail_def demo_sys_def xvgfilename_def str_int_5 str_int_0)

lemma py_int_two_digits [simp]:
  "py_int ''4'' = Inr 4" "py_int ''5'' = Inr 5" "py_int ''6'' = Inr 6" "py_int ''7'' = Inr 7"
  "py_int ''8'' = Inr 8" "py_int ''9'' = Inr 9" "py_int ''10'' = Inr 10" "py_int ''11'' = Inr 11"
  "py_int ''12'' = Inr 12" "py_int ''13'' = Inr 13" "py_int ''14'' = Inr 14" "py_int ''15'' = Inr 15"
  by (simp_all add: py_int_def parse_nat_def digit_val_def)

lemma str_nat_two_digits:
  "str_nat 10 = ''10''" "str_nat 11 = ''11''" "str_nat 12 = ''12''" "str_nat 13 = ''13''"
  "str_nat 14 = ''14''" "str_nat 15 = ''15''"
  by (simp_all add: str_nat.simps [of 10] str_nat.simps [of 11] str_nat.simps [of 12]
      str_nat.simps [of 13] str_nat.simps [of 14] str_nat.simps [of 15] str_nat_digit digit_char_def)

lemma headtail_rows:
  "\<exists>st. fragment_tables demo_headtail headtail_tables 5 ''DPPC'' [7, 8, 9] [0] no_rows = Inr st
      \<and> processed_neibs st = [''h_7'', ''t_7'', ''8'', ''9'', ''h_7'', ''t_7'', ''8'', ''9'']
      \<and> map (\<lambda>r. (row_neib r, row_molparts r, row_vdw r, row_coul r)) (printed st)
          = [(7, ''h_h'', -9, -1), (7, ''h_t'', -10, -2), (7, ''t_h'', -13, -5), (7, ''t_t'', -14, -6),
             (8, ''h_w'', -11, -3), (8, ''t_w'', -15, -7)]"
  by (simp add: headtail_tables_def demo_headtail_lookups headtail_table_def no_rows_def
      legend_line_def legend_cols_def py_get_simps
      py_split_def dq_def str_nat_digit str_nat_two_digits digit_char_def Let_def
      data_line_def off_grid_def neib_rows_def
      part_rows_def pair_rows_def inter_label_def str_int_5 str_int_7 str_int_8 str_int_9 py_get_def)

lemma demo_init_complete: "demo_init ''complete'' = Inr demo_complete"
  by (simp add: demo_init_def Energy_init_def knownparts_def Let_def DENOMINATOR_def demo_complete_def)

lemma demo_init_headtail: "demo_init ''head-tail'' = Inr demo_headtail"
  by (simp add: demo_init_def Energy_init_def knownparts_def Let_def DENOMINATOR_def demo_headtail_def)

lemma omitting_write:
  "write_energyfile demo_complete omitting_tables = Inl (ValueError ''list.remove(x): x not in list'')"
  using omitting_residue by (simp add: write_energyfile_def demo_complete_lookups no_rows_def)

lemma headtail_groups:
  "gather_energygroups demo_lm (demo_headtail \<lparr> groupblocks := Some (0, 20) \<rparr>) 5 [7, 8, 9]
     = Inr ''resid_h_5 resid_t_5 resid_h_7 resid_t_7 resid_8 resid_9''"
  by (simp add: gather_energygroups_def energygroup_list_def fragment_slice_def py_slice_def clip_def
      groups_of_index_def is_whole_def demo_headtail_def demo_sys_def demo_lm_def
      str_int_5 str_int_7 str_int_8 str_int_9)

lemma headtail_request:
  "get_relev_energies demo_lm (demo_headtail \<lparr> groupblocks := Some (0, 20) \<rparr>) 5 [7, 8, 9]
     = Inr (py_join [CHR 0x0A] (headtail_terms @ [[CHR 0x0A]]))"
  by (simp add: get_relev_energies_def energyselection_def Etypes_def host_entries_def neib_entries_def
      fragment_slice_def py_slice_def clip_def is_whole_def demo_headtail_def demo_sys_def demo_lm_def
      render_def headtail_terms_def str_int_5 str_int_7 str_int_8 str_int_9)

text \<open>
  What the end-of-residue check does for an omitted neighbor in general: an expected
  element that no processed label equals stays in the list, so the check never passes;
  which of its two exceptions ends it depends on the labels that were processed.
\<close>

lemma remove_all_keeps:
  "remove_all xs ps = Inr left \<Longrightarrow> x \<in> set xs \<Longrightarrow> x \<notin> set ps \<Longrightarrow> x \<in> set left"
proof (induction ps arbitrary: xs)
  case Nil
  then show ?case by simp
next
  case (Cons p ps)
  from Cons.prems(1) have p: "p \<in> set xs" and r: "remove_all (remove1 p xs) ps = Inr left"
    by (simp_all split: if_splits)
  from Cons.prems(2,3) have "x \<in> set (remove1 p xs)" by simp
  with Cons.IH [OF r] Cons.prems(3) show ?case by simp
qed

lemma cross_check_omission:
  assumes "x \<in> set (expected_neibs e ns)" and "x \<notin> set (map PyStr processed)"
  shows "cross_check e ns processed = Inl (ValueError ''list.remove(x): x not in list'')
       \<or> cross_check e ns processed = Inl (ValueError ''Not all neighbours found in xvgfile'')"
proof (cases "remove_all (expected_neibs e ns) (map PyStr processed)")
  case (Inl err)
  have "remove_all xs ps = Inl err \<Longrightarrow> err = ValueError ''list.remove(x): x not in list''" for xs ps
    by (induction ps arbitrary: xs) (simp_all split: if_splits)
  with Inl show ?thesis by (simp add: cross_check_def)
next
  case (Inr left)
  from remove_all_keeps [OF Inr assms] have "left \<noteq> []" by auto
  with Inr show ?thesis by (simp add: cross_check_def)
qed

text \<open>
  C4.  In mode \<^verbatim>\<open>complete\<close>, residue 5 has the neighbors 7, 8 and 9 of all times, and its
  one table holds the terms of the neighbors 7 and 8 and none of neighbor 9.
  \<^verbatim>\<open>write_energyfile\<close> fails, but not with \<^verbatim>\<open>Not all neighbours found in xvgfile\<close>: the
  labels read from the legends are strings and the expected list holds the ids as
  numbers, so the removal of the first label, \<^verbatim>\<open>'7'\<close>, from \<^verbatim>\<open>[7, 8, 9]\<close> raises the
  \<^verbatim>\<open>ValueError\<close> of \<^verbatim>\<open>list.remove\<close> before the test of the leftover list is reached.
\<close>

theorem omitted_neighbor_other_error:
  "demo_init ''complete'' = Inr demo_complete
   \<and> all_neibs_of_res (neiblist demo_complete) 5 = Inr [7, 8, 9]
   \<and> write_energyfile demo_complete omitting_tables
       = Inl (ValueError ''list.remove(x): x not in list'')
   \<and> write_energyfile demo_complete omitting_tables
       \<noteq> Inl (ValueError ''Not all neighbours found in xvgfile'')"
proof (intro conjI)
  show "demo_init ''complete'' = Inr demo_complete"
    by (rule demo_init_complete)
  show "all_neibs_of_res (neiblist demo_complete) 5 = Inr [7, 8, 9]"
    by (simp add: demo_complete_lookups demo_all_neibs)
  show "write_energyfile demo_complete omitting_tables
       = Inl (ValueError ''list.remove(x): x not in list'')"
    by (rule omitting_write)
  show "write_energyfile demo_complete omitting_tables
       \<noteq> Inl (ValueError ''Not all neighbours found in xvgfile'')"
    by (simp add: omitting_write)
qed

text \<open>
  C3.  In mode \<^verbatim>\<open>head-tail\<close>, residue 5 (a lipid) has the neighbors 7 (a lipid), 8
  (\<^verbatim>\<open>CHL1\<close>, a sterol) and 9 (\<^verbatim>\<open>VAL\<close>, a protein).  \<^verbatim>\<open>gather_energygroups\<close> and
  \<^verbatim>\<open>get_relev_energies\<close> test the species against \<^verbatim>\<open>STEROLS + PROTEINS\<close> and give
  residue 9, like residue 8, the one whole-residue group \<^verbatim>\<open>resid_9\<close>.
  \<^verbatim>\<open>write_energyfile\<close> tests the species against the literal \<^verbatim>\<open>'CHL1'\<close>: from the table
  with all requested terms it prints the rows of neighbor 8 with the whole-residue label
  \<^verbatim>\<open>w\<close>, and for neighbor 9 it looks up the head and tail labels, finds none of them and
  prints no row at all.  (The rows are those of the loop over the tables of the
  residue, printed before the end-of-residue check.)
\<close>

theorem protein_neighbor_unlabelled:
  "demo_init ''head-tail'' = Inr demo_headtail
   \<and> is_whole demo_lm demo_headtail 8 = Inr True
   \<and> is_whole demo_lm demo_headtail 9 = Inr True
   \<and> gather_energygroups demo_lm (demo_headtail \<lparr> groupblocks := Some (0, 20) \<rparr>) 5 [7, 8, 9]
       = Inr ''resid_h_5 resid_t_5 resid_h_7 resid_t_7 resid_8 resid_9''
   \<and> get_relev_energies demo_lm (demo_headtail \<lparr> groupblocks := Some (0, 20) \<rparr>) 5 [7, 8, 9]
       = Inr (py_join [CHR 0x0A] (headtail_terms @ [[CHR 0x0A]]))
   \<and> (\<exists>st. fragment_tables demo_headtail headtail_tables 5 ''DPPC'' [7, 8, 9] [0] no_rows = Inr st
         \<and> processed_neibs st = [''h_7'', ''t_7'', ''8'', ''9'', ''h_7'', ''t_7'', ''8'', ''9'']
         \<and> map (\<lambda>r. (row_neib r, row_molparts r, row_vdw r, row_coul r)) (printed st)
             = [(7, ''h_h'', -9, -1), (7, ''h_t'', -10, -2), (7, ''t_h'', -13, -5),
                (7, ''t_t'', -14, -6), (8, ''h_w'', -11, -3), (8, ''t_w'', -15, -7)])"
proof (intro conjI)
  show "demo_init ''head-tail'' = Inr demo_headtail"
    by (rule demo_init_headtail)
  show "is_whole demo_lm demo_headtail 8 = Inr True"
    by (simp add: is_whole_def demo_headtail_lookups demo_lm_def)
  show "is_whole demo_lm demo_headtail 9 = Inr True"
    by (simp add: is_whole_def demo_headtail_lookups demo_lm_def)
  show "gather_energygroups demo_lm (demo_headtail \<lparr> groupblocks := Some (0, 20) \<rparr>) 5 [7, 8, 9]
       = Inr ''resid_h_5 resid_t_5 resid_h_7 resid_t_7 resid_8 resid_9''"
    by (rule headtail_groups)
  show "get_relev_energies demo_lm (demo_headtail \<lparr> groupblocks := Some (0, 20) \<rparr>) 5 [7, 8, 9]
       = Inr (py_join [CHR 0x0A] (headtail_terms @ [[CHR 0x0A]]))"
    by (rule headtail_request)
  show "\<exists>st. fragment_tables demo_headtail headtail_tables 5 ''DPPC'' [7, 8, 9] [0] no_rows = Inr st
         \<and> processed_neibs st = [''h_7'', ''t_7'', ''8'', ''9'', ''h_7'', ''t_7'', ''8'', ''9'']
         \<and> map (\<lambda>r. (row_neib r, row_molparts r, row_vdw r, row_coul r)) (printed st)
             = [(7, ''h_h'', -9, -1), (7, ''h_t'', -10, -2), (7, ''t_h'', -13, -5),
                (7, ''t_t'', -14, -6), (8, ''h_w'', -11, -3), (8, ''t_w'', -15, -7)]"
    by (rule headtail_rows)
qed

section \<open>The end-of-residue check\<close>

lemma part_rounds_skip: "part_rounds True lbl (Suc k) ps = []"
  by (induction ps) simp_all

lemma part_rounds_whole: "part_rounds True lbl 0 (p # ps) = [lbl]"
  by (simp add: part_rounds_skip)

lemma part_rounds_parts: "part_rounds False lbl k ps = ps"
  by (induction ps) simp_all

lemma part_rounds_hd:
  "ps \<noteq> [] \<Longrightarrow> (if w then ''resid_'' else hd ps) \<in> set (part_rounds w ''resid_'' 0 ps)"
  by (cases ps) (simp_all add: part_rounds_whole part_rounds_parts)

lemma collect_map_member:
  "collect (map f xs) = Inr ys \<Longrightarrow> a \<in> set xs \<Longrightarrow> \<exists>y \<in> set ys. f a = Inr y"
proof -
  assume "collect (map f xs) = Inr ys" and a: "a \<in> set xs"
  then have "map f xs = map Inr ys" by (simp add: collect_eq_Inr)
  then have "f a \<in> set (map Inr ys)" using a by (metis image_eqI set_map)
  then show ?thesis by auto
qed

lemma py_slice_nat:
  assumes "a \<le> length xs"
  shows "py_slice xs (int a) (int b) = take (min b (length xs) - a) (drop a xs)"
proof -
  have ca: "clip (int (length xs)) (int a) = int a"
    using assms by (simp add: clip_def)
  have cb: "clip (int (length xs)) (int b) = int (min b (length xs))"
    by (simp add: clip_def min_def)
  have "nat (int (min b (length xs)) - int a) = min b (length xs) - a"
    by arith
  then show ?thesis
    unfolding py_slice_def Let_def ca cb by simp
qed

text \<open>Every neighbor lies in the slice of one fragment.\<close>

lemma slice_covers:
  assumes D: "0 < D" and n: "number_of_groupfragments (int (length ns)) D = Inr n"
      and c: "c \<in> set ns"
  shows "\<exists>f \<in> set (py_range n). c \<in> set (py_slice ns (f * D) ((f + 1) * D))"
proof -
  from c obtain i where i: "i < length ns" "ns ! i = c" by (auto simp: in_set_conv_nth)
  define d where "d = nat D"
  have d: "0 < d" "D = int d" using D by (simp_all add: d_def)
  define q where "q = i div d"
  have lo: "q * d \<le> i" by (simp add: q_def)
  have hi: "i < (q + 1) * d" using d(1) by (simp add: q_def dividend_less_div_times)
  have nval: "n = (if length ns mod d = 0 then int (length ns div d) else int (length ns div d) + 1)"
  proof -
    have m: "int (length ns) mod int d = int (length ns mod d)" by (simp add: zmod_int)
    have v: "int (length ns) div int d = int (length ns div d)" by (simp add: zdiv_int)
    from n d show ?thesis
      unfolding number_of_groupfragments_def d(2) m v by (simp split: if_splits)
  qed
  have qn: "int q < n"
  proof (cases "length ns mod d = 0")
    case True
    then have "length ns = (length ns div d) * d"
      using div_mult_mod_eq [of "length ns" d] by simp
    with i(1) have "i < (length ns div d) * d" by simp
    then have "i div d < length ns div d" using d(1) by (simp add: less_mult_imp_div_less)
    with True nval show ?thesis by (simp add: q_def)
  next
    case False
    have "i div d \<le> length ns div d" using i(1) by (simp add: div_le_mono)
    with False nval show ?thesis by (simp add: q_def)
  qed
  have mem: "int q \<in> set (py_range n)"
    using qn by (auto simp: py_range_def image_iff intro!: bexI [of _ q])
  have a: "int q * D = int (q * d)" and b: "(int q + 1) * D = int ((q + 1) * d)"
    using d(2) by (simp_all add: algebra_simps)
  have sl: "py_slice ns (int (q * d)) (int ((q + 1) * d))
          = take (min ((q + 1) * d) (length ns) - q * d) (drop (q * d) ns)"
    using lo i(1) by (intro py_slice_nat) simp
  have "i - q * d < length (take (min ((q + 1) * d) (length ns) - q * d) (drop (q * d) ns))"
    using lo hi i(1) by simp
  moreover have "take (min ((q + 1) * d) (length ns) - q * d) (drop (q * d) ns) ! (i - q * d) = c"
    using lo hi i by simp
  ultimately have "c \<in> set (take (min ((q + 1) * d) (length ns) - q * d) (drop (q * d) ns))"
    by (metis nth_mem)
  then have "c \<in> set (py_slice ns (int q * D) ((int q + 1) * D))"
    unfolding a b sl .
  with mem show ?thesis by blast
qed

text \<open>
  The request of a fragment holds, for every neighbor of its slice, the Lennard-Jones
  term between the first part of the host and the first part of the neighbor, where
  the first part of a sterol or protein is the whole residue.
\<close>

lemma energyselection_first_LJ:
  assumes sel: "energyselection lm e res ns = Inr xs"
      and blocks: "groupblocks e = Some (a, b)"
      and c: "c \<in> set (py_slice ns a b)"
      and parts: "molparts e \<noteq> []"
  shows "\<exists>wh wn. is_whole lm e res = Inr wh \<and> is_whole lm e c = Inr wn
           \<and> \<lparr> interaction = ''LJ-SR:'', parthost = (if wh then ''resid_'' else hd (molparts e)),
                 host_id = res, partneib = (if wn then ''resid_'' else hd (molparts e)),
                 neib_id = c \<rparr> \<in> set xs"
proof -
  from sel obtain hs where
    hs: "collect (map (\<lambda>ia. host_entries lm e ia res ns) Etypes) = Inr hs" and xs: "xs = concat hs"
    by (auto simp: energyselection_def bind_eq_Inr)
  have "''LJ-SR:'' \<in> set Etypes" by (simp add: Etypes_def)
  from collect_map_member [OF hs this] obtain h where
    h: "h \<in> set hs" "host_entries lm e ''LJ-SR:'' res ns = Inr h" by blast
  from h(2) parts obtain wh ps where
    wh: "is_whole lm e res = Inr wh"
    and ps: "collect (map (\<lambda>ph. bind (collect (map (neib_entries lm e ''LJ-SR:'' ph res) (py_slice ns a b)))
                                     (\<lambda>xs. Inr (concat xs)))
                (part_rounds wh ''resid_'' 0 (molparts e))) = Inr ps"
    and hps: "h = concat ps"
    by (auto simp: host_entries_def bind_eq_Inr fragment_slice_def blocks)
  let ?ph = "if wh then ''resid_'' else hd (molparts e)"
  have "?ph \<in> set (part_rounds wh ''resid_'' 0 (molparts e))"
    by (rule part_rounds_hd [OF parts])
  from collect_map_member [OF ps this] obtain p where
    p: "p \<in> set ps"
    "bind (collect (map (neib_entries lm e ''LJ-SR:'' ?ph res) (py_slice ns a b))) (\<lambda>xs. Inr (concat xs)) = Inr p"
    by blast
  from p(2) obtain qs where
    qs: "collect (map (neib_entries lm e ''LJ-SR:'' ?ph res) (py_slice ns a b)) = Inr qs"
    and pq: "p = concat qs"
    by (auto simp: bind_eq_Inr)
  from collect_map_member [OF qs c] obtain q where
    q: "q \<in> set qs" "neib_entries lm e ''LJ-SR:'' ?ph res c = Inr q" by blast
  from q(2) parts obtain wn where
    wn: "is_whole lm e c = Inr wn"
    and qv: "q = map (\<lambda>pn. \<lparr> interaction = ''LJ-SR:'', parthost = ?ph, host_id = res,
                              partneib = pn, neib_id = c \<rparr>)
                   (part_rounds wn ''resid_'' 0 (molparts e))"
    by (auto simp: neib_entries_def bind_eq_Inr)
  let ?pn = "if wn then ''resid_'' else hd (molparts e)"
  let ?x = "\<lparr> interaction = ''LJ-SR:'', parthost = ?ph, host_id = res, partneib = ?pn, neib_id = c \<rparr>"
  have "?pn \<in> set (part_rounds wn ''resid_'' 0 (molparts e))"
    by (rule part_rounds_hd [OF parts])
  then have "?x \<in> set q" unfolding qv set_map by (rule imageI)
  with q(1) have "?x \<in> set p" unfolding pq by auto
  with p(1) have "?x \<in> set h" unfolding hps by auto
  with h(1) have "?x \<in> set xs" unfolding xs by auto
  with wh wn show ?thesis by blast
qed

text \<open>The processed labels only grow, and a legend of a Lennard-Jones term adds its label.\<close>

lemma legend_line_processed:
  "legend_line cols st = Inr st' \<Longrightarrow> set (processed_neibs st) \<subseteq> set (processed_neibs st')"
  by (auto simp: legend_line_def bind_eq_Inr Let_def split: if_splits)

lemma data_line_processed:
  "data_line e r rt ns cols st = Inr st' \<Longrightarrow> processed_neibs st' = processed_neibs st"
  by (auto simp: data_line_def bind_eq_Inr split: option.splits if_splits)

lemma xvg_lines_processed:
  "xvg_lines e r rt ns ls st = Inr st' \<Longrightarrow> set (processed_neibs st) \<subseteq> set (processed_neibs st')"
proof (induction ls arbitrary: st)
  case Nil
  then show ?case by simp
next
  case (Cons l ls)
  from Cons.prems obtain st1 where
    l: "(case l of Legend cols \<Rightarrow> legend_line cols st
         | Data cols \<Rightarrow> data_line e r rt ns cols st | Other \<Rightarrow> Inr st) = Inr st1"
    and rest: "xvg_lines e r rt ns ls st1 = Inr st'"
    by (auto simp: bind_eq_Inr)
  from l have "set (processed_neibs st) \<subseteq> set (processed_neibs st1)"
    by (cases l) (auto dest: legend_line_processed data_line_processed)
  with Cons.IH [OF rest] show ?case by blast
qed

lemma xvg_lines_legend:
  assumes run: "xvg_lines e r rt ns ls st = Inr st'"
      and leg: "legend_of k x \<in> set ls"
      and lj: "interaction x = ''LJ-SR:''"
      and ph: "parthost x = ''resid_'' @ sh" "CHR ''r'' \<notin> set sh"
      and pn: "partneib x = ''resid_'' @ sn" "CHR ''r'' \<notin> set sn"
  shows "neib_label x \<in> set (processed_neibs st')"
  using run leg
proof (induction ls arbitrary: st)
  case Nil
  then show ?case by simp
next
  case (Cons l ls)
  from Cons.prems(1) obtain st1 where
    l: "(case l of Legend cols \<Rightarrow> legend_line cols st
         | Data cols \<Rightarrow> data_line e r rt ns cols st | Other \<Rightarrow> Inr st) = Inr st1"
    and rest: "xvg_lines e r rt ns ls st1 = Inr st'"
    by (auto simp: bind_eq_Inr)
  show ?case
  proof (cases "legend_of k x \<in> set ls")
    case True
    from Cons.IH [OF rest True] show ?thesis .
  next
    case False
    with Cons.prems(2) have "l = Legend (legend_cols k (render x))"
      by (simp add: legend_of_def)
    with l have st1: "legend_line (legend_cols k (render x)) st = Inr st1" by simp
    have et: "energytype_of x = ''LJ''" by (simp add: energytype_of_def lj)
    have "interaction x = ''Coul-SR:'' \<or> interaction x = ''LJ-SR:''" using lj by simp
    from legend_line_entry [OF this ph pn, of k st] st1 et
    have "neib_label x \<in> set (processed_neibs st1)" by auto
    with xvg_lines_processed [OF rest] show ?thesis by blast
  qed
qed

lemma fragment_tables_processed:
  "fragment_tables e tables r rt ns frags st = Inr st'
     \<Longrightarrow> set (processed_neibs st) \<subseteq> set (processed_neibs st')"
proof (induction frags arbitrary: st)
  case Nil
  then show ?case by simp
next
  case (Cons f frags)
  from Cons.prems obtain ls st1 where
    ls: "tables (xvgfilename e r f) = Some ls"
    and st1: "xvg_lines e r rt ns ls (st \<lparr> res_to_row := Map.empty \<rparr>) = Inr st1"
    and rest: "fragment_tables e tables r rt ns frags st1 = Inr st'"
    by (auto simp: bind_eq_Inr split: option.splits)
  from xvg_lines_processed [OF st1] Cons.IH [OF rest] show ?case by auto
qed

lemma fragment_tables_legend:
  assumes run: "fragment_tables e tables r rt ns frags st = Inr st'"
      and f: "f \<in> set frags" and tab: "tables (xvgfilename e r f) = Some ls"
      and leg: "legend_of k x \<in> set ls"
      and lj: "interaction x = ''LJ-SR:''"
      and ph: "parthost x = ''resid_'' @ sh" "CHR ''r'' \<notin> set sh"
      and pn: "partneib x = ''resid_'' @ sn" "CHR ''r'' \<notin> set sn"
  shows "neib_label x \<in> set (processed_neibs st')"
  using run f
proof (induction frags arbitrary: st)
  case Nil
  then show ?case by simp
next
  case (Cons g frags)
  from Cons.prems(1) obtain ms st1 where
    ms: "tables (xvgfilename e r g) = Some ms"
    and st1: "xvg_lines e r rt ns ms (st \<lparr> res_to_row := Map.empty \<rparr>) = Inr st1"
    and rest: "fragment_tables e tables r rt ns frags st1 = Inr st'"
    by (auto simp: bind_eq_Inr split: option.splits)
  show ?case
  proof (cases "f \<in> set frags")
    case True
    from Cons.IH [OF rest True] show ?thesis .
  next
    case False
    with Cons.prems(2) have "g = f" by simp
    with ms tab have "ms = ls" by simp
    with st1 have "xvg_lines e r rt ns ls (st \<lparr> res_to_row := Map.empty \<rparr>) = Inr st1" by simp
    from xvg_lines_legend [OF this leg lj ph pn]
    have "neib_label x \<in> set (processed_neibs st1)" .
    with fragment_tables_processed [OF rest] show ?thesis by blast
  qed
qed

text \<open>\<^verbatim>\<open>list.remove\<close> raises as soon as one processed label is not in the expected list.\<close>

lemma remove_all_fails:
  "p \<in> set ps \<Longrightarrow> p \<notin> set xs
     \<Longrightarrow> remove_all xs ps = Inl (ValueError ''list.remove(x): x not in list'')"
proof (induction ps arbitrary: xs)
  case Nil
  then show ?case by simp
next
  case (Cons q ps)
  show ?case
  proof (cases "q \<in> set xs")
    case False
    then show ?thesis by simp
  next
    case True
    with Cons.prems have "p \<in> set ps" by auto
    moreover have "p \<notin> set (remove1 q xs)" using Cons.prems(2) by (auto dest: notin_set_remove1)
    ultimately show ?thesis using Cons.IH True by simp
  qed
qed

text \<open>The parts the constructor sets.\<close>

lemma strip_prefix_part:
  assumes "CHR ''r'' \<notin> set sh"
  shows "concat (py_split ''resid_'' (''resid_'' @ sh)) = sh"
proof -
  have "split_acc ''resid_'' [] ([] @ ''resid_'' @ sh) = (rev [] @ []) # split_acc ''resid_'' [] sh"
    by (rule split_acc_piece) simp_all
  moreover have "split_acc ''resid_'' [] sh = [rev [] @ sh]"
    by (rule split_acc_plain) (simp_all add: assms)
  ultimately show ?thesis by (simp add: py_split_def)
qed

lemma Energy_init_parts:
  assumes "Energy_init part_kw nf ri ovw sys_init nd = Inr e"
  shows "molparts e \<noteq> []"
    and "p \<in> set (molparts e) \<Longrightarrow> \<exists>sh. p = ''resid_'' @ sh \<and> CHR ''r'' \<notin> set sh
           \<and> (part_kw \<noteq> ''complete'' \<longrightarrow> sh \<noteq> [] \<and> hd sh \<in> set ''htC'')"
    and "part_kw = ''complete'' \<Longrightarrow> length (molparts e) = 1"
    and "part_kw \<noteq> ''complete'' \<Longrightarrow> 1 < length (molparts e)"
proof -
  note modes = Energy_init_modes [OF assms]
  show "molparts e \<noteq> []" using modes by auto
  show "part_kw = ''complete'' \<Longrightarrow> length (molparts e) = 1" using modes by auto
  show "part_kw \<noteq> ''complete'' \<Longrightarrow> 1 < length (molparts e)" using modes by auto
  assume p: "p \<in> set (molparts e)"
  from modes consider
      "part_kw = ''complete''" "molparts e = [''resid_'']"
    | "part_kw \<noteq> ''complete''" "molparts e = [''resid_h_'', ''resid_t_'']"
    | "part_kw \<noteq> ''complete''" "molparts e = [''resid_h_'', ''resid_t12_'', ''resid_t22_'']"
    | "part_kw \<noteq> ''complete''" "molparts e = map (\<lambda>i. ''resid_C'' @ str_nat i @ ''_'') [0..<7]"
    by auto
  then show "\<exists>sh. p = ''resid_'' @ sh \<and> CHR ''r'' \<notin> set sh
           \<and> (part_kw \<noteq> ''complete'' \<longrightarrow> sh \<noteq> [] \<and> hd sh \<in> set ''htC'')"
  proof cases
    case 1
    with p show ?thesis by simp
  next
    case 2
    with p have "p = ''resid_'' @ ''h_'' \<or> p = ''resid_'' @ ''t_''" by simp
    then show ?thesis by (elim disjE) (rule exI, rule conjI, assumption, simp)+
  next
    case 3
    with p have "p = ''resid_'' @ ''h_'' \<or> p = ''resid_'' @ ''t12_'' \<or> p = ''resid_'' @ ''t22_''" by simp
    then show ?thesis by (elim disjE) (rule exI, rule conjI, assumption, simp)+
  next
    case 4
    with p obtain i where "p = ''resid_'' @ (CHR ''C'' # str_nat i @ ''_'')" by auto
    moreover have "CHR ''r'' \<notin> set (str_nat i)" using str_nat_chars [of i] by auto
    ultimately show ?thesis by (intro exI [of _ "CHR ''C'' # str_nat i @ ''_''"]) simp
  qed
qed

lemma str_int_not_part:
  assumes "sh \<noteq> []" and "hd sh \<in> set ''htC''"
  shows "str_int c \<noteq> sh @ str_int m"
proof
  assume eq: "str_int c = sh @ str_int m"
  have "hd (str_int c) \<in> set (str_int c)" using str_int_nonempty [of c] by simp
  then have "hd (str_int c) \<in> set ''-0123456789''" using str_int_chars [of c] by blast
  moreover have "hd (str_int c) = hd sh" using eq assms(1) by simp
  ultimately show False using assms(2) by auto
qed

lemma plain_label_unexpected:
  assumes init: "Energy_init part_kw nf ri ovw sys_init nd = Inr e"
  shows "PyStr (str_int c) \<notin> set (expected_neibs e ns)"
proof (cases "part_kw = ''complete''")
  case True
  from Energy_init_parts(3) [OF init True] show ?thesis
    by (auto simp: expected_neibs_def)
next
  case False
  show ?thesis
  proof
    assume "PyStr (str_int c) \<in> set (expected_neibs e ns)"
    then obtain p m where p: "p \<in> set (molparts e)"
      and eq: "str_int c = concat (py_split ''resid_'' p) @ str_int m"
      by (auto simp: expected_neibs_def split: if_splits)
    from Energy_init_parts(2) [OF init p] False obtain sh where
      sh: "p = ''resid_'' @ sh" "CHR ''r'' \<notin> set sh" "sh \<noteq> []" "hd sh \<in> set ''htC''"
      by blast
    from eq have "str_int c = sh @ str_int m"
      unfolding sh(1) strip_prefix_part [OF sh(2)] .
    with str_int_not_part [OF sh(3,4)] show False by blast
  qed
qed

text \<open>
  C5 (as amended).  Take an instance that \<^verbatim>\<open>Energy.__init__\<close> built, a residue with the neighbors \<open>ns\<close>
  of all times and \<open>n\<close> fragments, and tables that are all there and hold, for every
  fragment, a legend for every term that \<^verbatim>\<open>get_relev_energies\<close> requests for it; let the
  loop over the tables run through without an exception.  If the mode is \<^verbatim>\<open>complete\<close>
  and the residue has a neighbor, or the mode is another one and a neighbor is a sterol
  or protein (whose group is the whole residue), then \<^verbatim>\<open>write_energyfile\<close> ends its work
  on the residue with the \<^verbatim>\<open>ValueError\<close> of \<^verbatim>\<open>list.remove\<close>: the label read for that
  neighbor is the text of its id, and the expected list holds the ids as numbers in mode
  \<^verbatim>\<open>complete\<close> and labels that start with a part in the other modes.
\<close>

theorem cross_check_label_mismatch:
  assumes init: "Energy_init part_kw nf ri ovw sys_init nd = Inr e"
      and host: "resid_to_lipid (si e) resid = Some residtype"
      and neibs: "all_neibs_of_res (neiblist e) resid = Inr ns"
      and count: "number_of_groupfragments (int (length ns)) (denominator e) = Inr n"
      and present: "\<forall>f \<in> set (py_range n). \<exists>xs ls.
              energyselection lm
                (e \<lparr> groupblocks := Some (f * denominator e, (f + 1) * denominator e) \<rparr>) resid ns
                = Inr xs
            \<and> tables (xvgfilename e resid f) = Some ls
            \<and> (\<forall>x \<in> set xs. \<exists>k. legend_of k x \<in> set ls)"
      and loop: "fragment_tables e tables resid residtype ns (py_range n)
                   (st \<lparr> processed_neibs := [] \<rparr>) = Inr st'"
      and mismatch: "part_kw = ''complete'' \<and> ns \<noteq> []
                   \<or> part_kw \<noteq> ''complete'' \<and> (\<exists>c \<in> set ns. is_whole lm e c = Inr True)"
  shows "residue_energies e tables resid st = Inl (ValueError ''list.remove(x): x not in list'')"
proof -
  let ?D = "denominator e"
  have D: "0 < ?D" by (rule Energy_init_denominator [OF init])
  have parts: "molparts e \<noteq> []" by (rule Energy_init_parts(1) [OF init])
  from mismatch obtain c where c: "c \<in> set ns"
    and cw: "part_kw \<noteq> ''complete'' \<Longrightarrow> is_whole lm e c = Inr True"
  proof (elim disjE conjE bexE)
    assume "part_kw = ''complete''" "ns \<noteq> []"
    then show ?thesis using that [of "hd ns"] by simp
  next
    fix c assume "part_kw \<noteq> ''complete''" "c \<in> set ns" "is_whole lm e c = Inr True"
    then show ?thesis using that [of c] by simp
  qed
  from slice_covers [OF D count c] obtain f where
    f: "f \<in> set (py_range n)" and cf: "c \<in> set (py_slice ns (f * ?D) ((f + 1) * ?D))"
    by blast
  let ?e = "e \<lparr> groupblocks := Some (f * ?D, (f + 1) * ?D) \<rparr>"
  from present f obtain xs ls where
    xs: "energyselection lm ?e resid ns = Inr xs"
    and ls: "tables (xvgfilename e resid f) = Some ls"
    and legs: "\<forall>x \<in> set xs. \<exists>k. legend_of k x \<in> set ls"
    by blast
  have same: "is_whole lm ?e i = is_whole lm e i" for i by (simp add: is_whole_def)
  have mp: "molparts ?e = molparts e" by simp
  have "\<exists>wh wn. is_whole lm ?e resid = Inr wh \<and> is_whole lm ?e c = Inr wn
           \<and> \<lparr> interaction = ''LJ-SR:'', parthost = (if wh then ''resid_'' else hd (molparts ?e)),
                 host_id = resid, partneib = (if wn then ''resid_'' else hd (molparts ?e)),
                 neib_id = c \<rparr> \<in> set xs"
    by (rule energyselection_first_LJ [OF xs _ cf]) (simp_all add: parts)
  then obtain wh wn where
    wn: "is_whole lm e c = Inr wn"
    and x: "\<lparr> interaction = ''LJ-SR:'', parthost = (if wh then ''resid_'' else hd (molparts e)),
              host_id = resid, partneib = (if wn then ''resid_'' else hd (molparts e)),
              neib_id = c \<rparr> \<in> set xs"
    unfolding mp same by blast
  let ?ph = "if wh then ''resid_'' else hd (molparts e)"
  let ?pn = "if wn then ''resid_'' else hd (molparts e)"
  let ?x = "\<lparr> interaction = ''LJ-SR:'', parthost = ?ph, host_id = resid, partneib = ?pn, neib_id = c \<rparr>"
  have hdp: "hd (molparts e) \<in> set (molparts e)" using parts by simp
  from Energy_init_parts(2) [OF init hdp] obtain sh0 where
    sh0: "hd (molparts e) = ''resid_'' @ sh0" "CHR ''r'' \<notin> set sh0" by blast
  have ph: "parthost ?x = ''resid_'' @ (if wh then [] else sh0)"
           "CHR ''r'' \<notin> set (if wh then [] else sh0)"
    using sh0 by simp_all
  have pn_plain: "?pn = ''resid_''"
  proof (cases "part_kw = ''complete''")
    case True
    from Energy_init_modes [OF init] True have "molparts e = [''resid_'']" by auto
    then show ?thesis by simp
  next
    case False
    from cw [OF False] wn have "wn" by simp
    then show ?thesis by simp
  qed
  have pn: "partneib ?x = ''resid_'' @ []" "CHR ''r'' \<notin> set []"
    using pn_plain by simp_all
  from legs x obtain k where k: "legend_of k ?x \<in> set ls" by blast
  have lj: "interaction ?x = ''LJ-SR:''" by simp
  from fragment_tables_legend [OF loop f ls k lj ph pn]
  have "neib_label ?x \<in> set (processed_neibs st')" .
  moreover have "neib_label ?x = str_int c"
    using pn_plain by (simp add: neib_label_def)
  ultimately have "PyStr (str_int c) \<in> set (map PyStr (processed_neibs st'))" by simp
  from remove_all_fails [OF this plain_label_unexpected [OF init]]
  have "cross_check e ns (processed_neibs st')
          = Inl (ValueError ''list.remove(x): x not in list'')"
    by (simp add: cross_check_def)
  then show ?thesis
    by (simp add: residue_energies_def host neibs count loop)
qed

lemma complete_selection:
  "energyselection demo_lm (demo_complete \<lparr> groupblocks := Some (0, 40) \<rparr>) 5 [7, 8, 9]
     = Inr complete_request"
  by (simp add: energyselection_def Etypes_def host_entries_def neib_entries_def
      fragment_slice_def py_slice_def clip_def is_whole_def demo_complete_def demo_sys_def demo_lm_def
      complete_request_def term5_def)

lemma headtail_selection:
  "energyselection demo_lm (demo_headtail \<lparr> groupblocks := Some (0, 20) \<rparr>) 5 [7, 8, 9]
     = Inr headtail_request_entries"
  by (simp add: energyselection_def Etypes_def host_entries_def neib_entries_def
      fragment_slice_def py_slice_def clip_def is_whole_def demo_headtail_def demo_sys_def demo_lm_def
      headtail_request_entries_def term5_def)

lemma legends_numbered:
  assumes "list_all2 (\<lambda>k x. legend_of k x \<in> set ls) ks xs"
  shows "\<forall>x \<in> set xs. \<exists>k. legend_of k x \<in> set ls"
  using assms by (induction ks xs rule: list_all2_induct) auto

lemma complete_legends: "\<forall>x \<in> set complete_request. \<exists>k. legend_of k x \<in> set complete_table"
  by (rule legends_numbered [where ks = "[0, 1, 2, 3, 4, 5]"])
     (simp add: complete_request_def complete_table_def complete_head_def legend_of_def legend_cols_def render_def
        term5_def str_int_5 str_int_7 str_int_8 str_int_9)

lemma headtail_legends:
  "\<forall>x \<in> set headtail_request_entries. \<exists>k. legend_of k x \<in> set headtail_table"
  by (rule legends_numbered [where ks = "[0, 1, 2, 3, 4, 5, 6, 7, 8, 9, 10, 11, 12, 13, 14, 15]"])
     (simp add: headtail_request_entries_def headtail_table_def legend_of_def legend_cols_def
        render_def term5_def str_int_5 str_int_7 str_int_8 str_int_9)

lemma complete_rows:
  "\<exists>st. fragment_tables demo_complete complete_tables 5 ''DPPC'' [7, 8, 9] [0] no_rows = Inr st
      \<and> processed_neibs st = [''7'', ''8'', ''9'']
      \<and> map (\<lambda>r. (row_neib r, row_molparts r, row_vdw r, row_coul r)) (printed st)
          = [(7, ''w_w'', -21, -11), (8, ''w_w'', -22, -12), (9, ''w_w'', -23, -13)]"
  by (simp add: complete_tables_def demo_complete_lookups complete_table_def complete_head_def no_rows_def
      legend_line_def legend_cols_def py_get_simps
      py_split_def dq_def str_nat_digit digit_char_def Let_def
      data_line_def off_grid_def neib_rows_def
      part_rows_def pair_rows_def inter_label_def str_int_5 str_int_7 str_int_8 str_int_9 py_get_def)

theorem cross_check_label_mismatch_witness:
  "demo_init ''complete'' = Inr demo_complete
   \<and> all_neibs_of_res (neiblist demo_complete) 5 = Inr [7, 8, 9]
   \<and> residue_energies demo_complete complete_tables 5 no_rows
       = Inl (ValueError ''list.remove(x): x not in list'')
   \<and> demo_init ''head-tail'' = Inr demo_headtail
   \<and> is_whole demo_lm demo_headtail 8 = Inr True
   \<and> residue_energies demo_headtail headtail_tables 5 no_rows
       = Inl (ValueError ''list.remove(x): x not in list'')"
proof (intro conjI)
  show ic: "demo_init ''complete'' = Inr demo_complete"
    by (rule demo_init_complete)
  show nc: "all_neibs_of_res (neiblist demo_complete) 5 = Inr [7, 8, 9]"
    by (simp add: demo_complete_lookups demo_all_neibs)
  show ih: "demo_init ''head-tail'' = Inr demo_headtail"
    by (rule demo_init_headtail)
  show w8: "is_whole demo_lm demo_headtail 8 = Inr True"
    by (simp add: is_whole_def demo_headtail_lookups demo_lm_def)
  have nh: "all_neibs_of_res (neiblist demo_headtail) 5 = Inr [7, 8, 9]"
    by (simp add: demo_headtail_lookups demo_all_neibs)
  have cc: "number_of_groupfragments (int (length [7, 8, 9 :: int])) (denominator demo_complete) = Inr 1"
    by (simp add: number_of_groupfragments_def demo_complete_lookups)
  have ch: "number_of_groupfragments (int (length [7, 8, 9 :: int])) (denominator demo_headtail) = Inr 1"
    by (simp add: number_of_groupfragments_def demo_headtail_lookups)
  have r1: "py_range 1 = [0]" by (simp add: py_range_def)
  have "energyselection demo_lm
            (demo_complete \<lparr> groupblocks := Some (0 * denominator demo_complete,
                                                     (0 + 1) * denominator demo_complete) \<rparr>) 5 [7, 8, 9]
          = Inr complete_request
        \<and> complete_tables (xvgfilename demo_complete 5 0) = Some complete_table
        \<and> (\<forall>x \<in> set complete_request. \<exists>k. legend_of k x \<in> set complete_table)"
    using complete_selection complete_legends
    by (simp add: demo_complete_lookups complete_tables_def)
  then have pc: "\<forall>f \<in> set (py_range 1). \<exists>xs ls.
        energyselection demo_lm
            (demo_complete \<lparr> groupblocks := Some (f * denominator demo_complete,
                                                     (f + 1) * denominator demo_complete) \<rparr>) 5 [7, 8, 9]
          = Inr xs
        \<and> complete_tables (xvgfilename demo_complete 5 f) = Some ls
        \<and> (\<forall>x \<in> set xs. \<exists>k. legend_of k x \<in> set ls)"
    unfolding r1 by (simp only: list.set ball_simps) blast
  have "energyselection demo_lm
            (demo_headtail \<lparr> groupblocks := Some (0 * denominator demo_headtail,
                                                     (0 + 1) * denominator demo_headtail) \<rparr>) 5 [7, 8, 9]
          = Inr headtail_request_entries
        \<and> headtail_tables (xvgfilename demo_headtail 5 0) = Some headtail_table
        \<and> (\<forall>x \<in> set headtail_request_entries. \<exists>k. legend_of k x \<in> set headtail_table)"
    using headtail_selection headtail_legends
    by (simp add: demo_headtail_lookups headtail_tables_def)
  then have pt: "\<forall>f \<in> set (py_range 1). \<exists>xs ls.
        energyselection demo_lm
            (demo_headtail \<lparr> groupblocks := Some (f * denominator demo_headtail,
                                                     (f + 1) * denominator demo_headtail) \<rparr>) 5 [7, 8, 9]
          = Inr xs
        \<and> headtail_tables (xvgfilename demo_headtail 5 f) = Some ls
        \<and> (\<forall>x \<in> set xs. \<exists>k. legend_of k x \<in> set ls)"
    unfolding r1 by (simp only: list.set ball_simps) blast
  have same: "no_rows \<lparr> processed_neibs := [] \<rparr> = no_rows" by (simp add: no_rows_def)
  from complete_rows obtain sc where
    lc: "fragment_tables demo_complete complete_tables 5 ''DPPC'' [7, 8, 9] (py_range 1)
           (no_rows \<lparr> processed_neibs := [] \<rparr>) = Inr sc"
    unfolding r1 same by blast
  from headtail_rows obtain sh where
    lh: "fragment_tables demo_headtail headtail_tables 5 ''DPPC'' [7, 8, 9] (py_range 1)
           (no_rows \<lparr> processed_neibs := [] \<rparr>) = Inr sh"
    unfolding r1 same by blast
  have mc: "''complete'' = ''complete'' \<and> [7, 8, 9 :: int] \<noteq> []
          \<or> ''complete'' \<noteq> ''complete'' \<and> (\<exists>c \<in> set [7, 8, 9]. is_whole demo_lm demo_complete c = Inr True)"
    by simp
  have mh: "''head-tail'' = ''complete'' \<and> [7, 8, 9 :: int] \<noteq> []
          \<or> ''head-tail'' \<noteq> ''complete'' \<and> (\<exists>c \<in> set [7, 8, 9]. is_whole demo_lm demo_headtail c = Inr True)"
    using w8 by simp
  show "residue_energies demo_complete complete_tables 5 no_rows
       = Inl (ValueError ''list.remove(x): x not in list'')"
    by (rule cross_check_label_mismatch [OF ic [unfolded demo_init_def] demo_complete_lookups(1) nc cc pc lc mc])
  show "residue_energies demo_headtail headtail_tables 5 no_rows
       = Inl (ValueError ''list.remove(x): x not in list'')"
    by (rule cross_check_label_mismatch [OF ih [unfolded demo_init_def] demo_headtail_lookups(1) nh ch pt lh mh])
qed

text \<open>
  The claim as written asks for no more than tables that are there and hold every
  requested term.  A table can be that and still end the work on the residue before
  the check: with the line of values cut short, the lookup of the Lennard-Jones column
  of neighbor 7 raises \<^verbatim>\<open>IndexError\<close>, and the removal of the labels is never reached.
\<close>

theorem cut_table_counterexample:
  "demo_init ''complete'' = Inr demo_complete
   \<and> all_neibs_of_res (neiblist demo_complete) 5 = Inr [7, 8, 9]
   \<and> energyselection demo_lm (demo_complete \<lparr> groupblocks := Some (0, 40) \<rparr>) 5 [7, 8, 9]
       = Inr complete_request
   \<and> cut_tables (xvgfilename demo_complete 5 0) = Some cut_table
   \<and> map2 legend_of [0, 1, 2, 3, 4, 5] complete_request = tl complete_head
   \<and> set (tl complete_head) \<subseteq> set cut_table
   \<and> residue_energies demo_complete cut_tables 5 no_rows = Inl IndexError"
proof (intro conjI)
  show "demo_init ''complete'' = Inr demo_complete"
    by (rule demo_init_complete)
  show "all_neibs_of_res (neiblist demo_complete) 5 = Inr [7, 8, 9]"
    by (simp add: demo_complete_lookups demo_all_neibs)
  show "energyselection demo_lm (demo_complete \<lparr> groupblocks := Some (0, 40) \<rparr>) 5 [7, 8, 9]
       = Inr complete_request"
    by (rule complete_selection)
  show "cut_tables (xvgfilename demo_complete 5 0) = Some cut_table"
    by (simp add: demo_complete_lookups cut_tables_def)
  show "map2 legend_of [0, 1, 2, 3, 4, 5] complete_request = tl complete_head"
    by (simp add: complete_request_def complete_head_def legend_of_def legend_cols_def render_def
        term5_def str_int_5 str_int_7 str_int_8 str_int_9)
  show "set (tl complete_head) \<subseteq> set cut_table"
    by (simp add: cut_table_def complete_head_def)
  show "residue_energies demo_complete cut_tables 5 no_rows = Inl IndexError"
    by (simp add: residue_energies_def demo_all_neibs number_of_groupfragments_def py_range_def
      cut_tables_def demo_complete_lookups cut_table_def complete_head_def no_rows_def
      legend_line_def legend_cols_def py_get_simps
      py_split_def dq_def str_nat_digit digit_char_def Let_def
      data_line_def off_grid_def neib_rows_def
      part_rows_def pair_rows_def inter_label_def str_int_5 str_int_7 str_int_8 str_int_9 py_get_def)
qed

end
